(* ===== verification/Prelude.thy ===== *)
theory Prelude
  imports Main "HOL-Library.Word" "HOL-Library.Code_Target_Nat" "HOL-Library.AList"
begin

text \<open>
  Shared vocabulary of the development: the types that stand for Go's strings, byte slices and
  fixed-width integers, the pieces of Go's standard library that several components call
  (big- and little-endian integers of \<^verbatim>\<open>encoding/binary\<close>, \<^verbatim>\<open>strconv.Itoa\<close>,
  \<^verbatim>\<open>encoding/hex\<close>, the callback loop of a \<^verbatim>\<open>Range\<close> method), and the generic lemmas the
  component theories use.

  A Go \<^verbatim>\<open>string\<close> is a sequence of bytes: it is a \<^typ>\<open>string\<close> here. A \<^verbatim>\<open>[]byte\<close> is a
  list of 8-bit words. Both \<^verbatim>\<open>int64\<close> and \<^verbatim>\<open>uint64\<close> are 64-bit words, read with \<open>sint\<close> and
  \<open>unat\<close>, so that Go's conversions between them keep the bits.
\<close>

section \<open>Types and collections of facts\<close>

type_synonym byte = "8 word"
type_synonym bytes = "byte list"
type_synonym uint16 = "16 word"
type_synonym uint32 = "32 word"
type_synonym uint64 = "64 word"
type_synonym int64 = "64 word"
type_synonym gotime = int \<comment> \<open>nanoseconds since the epoch\<close>

named_theorems go_simps \<open>unfolding rules for the modelled Go library functions\<close>
named_theorems map_laws \<open>laws of association lists and of the string maps built on them\<close>

section \<open>Integer division of Go\<close>

text \<open>Go's \<^verbatim>\<open>/\<close> on signed integers truncates towards zero.\<close>

definition go_div :: "int \<Rightarrow> int \<Rightarrow> int" where
  "go_div a b = sgn a * sgn b * (\<bar>a\<bar> div \<bar>b\<bar>)"

lemma go_div_pos: "0 \<le> a \<Longrightarrow> 0 < b \<Longrightarrow> go_div a b = a div b"
  by (cases "a = 0") (simp_all add: go_div_def)

section \<open>Error results\<close>

type_synonym error = string
type_synonym 'a result = "error + 'a"

section \<open>Strings and bytes\<close>

definition UnsafeStringToBytes :: "string \<Rightarrow> bytes" where
  "UnsafeStringToBytes s = map (\<lambda>c. of_nat (of_char c)) s"

definition UnsafeBytesToString :: "bytes \<Rightarrow> string" where
  "UnsafeBytesToString b = map (\<lambda>w. char_of (unat w)) b"

lemma unat_byte_less [simp]: "unat (b :: byte) < 256"
  using unsigned_less [of b, where ?'a = nat] by simp

lemma char_of_of_byte [simp]: "char_of (unat (of_nat (of_char c) :: byte)) = c"
proof -
  have "unat (of_nat (of_char c) :: byte) = (of_char c :: nat)"
    by (simp add: unat_of_nat of_char_mod_256 take_bit_eq_mod)
  then show ?thesis by simp
qed

lemma of_byte_char_of [simp]: "of_nat (of_char (char_of (unat (w :: byte)))) = w"
proof -
  have "of_char (char_of (unat w)) = unat w" by simp
  then show ?thesis by simp
qed

lemma length_string_bytes [simp]:
  "length (UnsafeStringToBytes s) = length s"
  "length (UnsafeBytesToString b) = length b"
  by (simp_all add: UnsafeStringToBytes_def UnsafeBytesToString_def)

lemma string_bytes_inverse [simp]: "UnsafeBytesToString (UnsafeStringToBytes s) = s"
  by (simp add: UnsafeStringToBytes_def UnsafeBytesToString_def comp_def)

lemma bytes_string_inverse [simp]: "UnsafeStringToBytes (UnsafeBytesToString b) = b"
  by (simp add: UnsafeStringToBytes_def UnsafeBytesToString_def comp_def map_idI)

lemma UnsafeStringToBytes_inject [simp]:
  "UnsafeStringToBytes s = UnsafeStringToBytes t \<longleftrightarrow> s = t"
  by (metis string_bytes_inverse)

lemma UnsafeBytesToString_inject [simp]:
  "UnsafeBytesToString a = UnsafeBytesToString b \<longleftrightarrow> a = b"
  by (metis bytes_string_inverse)

lemma bytes_append [simp]:
  "UnsafeStringToBytes (s @ t) = UnsafeStringToBytes s @ UnsafeStringToBytes t"
  "UnsafeBytesToString (a @ b) = UnsafeBytesToString a @ UnsafeBytesToString b"
  by (simp_all add: UnsafeStringToBytes_def UnsafeBytesToString_def)

section \<open>Fixed-width integers as bytes\<close>

text \<open>
  The big-endian bytes of the low \<open>k\<close> bytes of a number (\<^verbatim>\<open>binary.BigEndian.PutUintN\<close>), and
  the number a byte sequence spells (\<^verbatim>\<open>binary.BigEndian.UintN\<close>, \<^verbatim>\<open>big.Int.SetBytes\<close>).
\<close>

fun be_bytes :: "nat \<Rightarrow> nat \<Rightarrow> bytes" where
  "be_bytes 0 n = []"
| "be_bytes (Suc k) n = be_bytes k (n div 256) @ [of_nat n]"

definition be_nat :: "bytes \<Rightarrow> nat" where
  "be_nat bs = foldl (\<lambda>a b. a * 256 + unat b) 0 bs"

definition put_be16 :: "uint16 \<Rightarrow> bytes" where
  "put_be16 w = be_bytes 2 (unat w)"

definition put_be32 :: "uint32 \<Rightarrow> bytes" where
  "put_be32 w = be_bytes 4 (unat w)"

definition put_be64 :: "uint64 \<Rightarrow> bytes" where
  "put_be64 w = be_bytes 8 (unat w)"

definition put_le32 :: "uint32 \<Rightarrow> bytes" where
  "put_le32 w = rev (be_bytes 4 (unat w))"

definition get_be16 :: "bytes \<Rightarrow> uint16" where
  "get_be16 b = of_nat (be_nat b)"

definition get_be32 :: "bytes \<Rightarrow> uint32" where
  "get_be32 b = of_nat (be_nat b)"

definition get_be64 :: "bytes \<Rightarrow> uint64" where
  "get_be64 b = of_nat (be_nat b)"

definition get_le32 :: "bytes \<Rightarrow> uint32" where
  "get_le32 b = of_nat (be_nat (rev b))"

lemma length_be_bytes [simp]: "length (be_bytes k n) = k"
  by (induction k arbitrary: n) auto

lemma be_nat_Nil [simp]: "be_nat [] = 0"
  by (simp add: be_nat_def)

lemma be_nat_snoc [simp]: "be_nat (bs @ [b]) = be_nat bs * 256 + unat b"
  by (simp add: be_nat_def)

lemma unat_of_nat_byte: "unat (of_nat n :: byte) = n mod 256"
  by (simp add: unat_of_nat take_bit_eq_mod)

lemma be_nat_be_bytes: "be_nat (be_bytes k n) = n mod 256 ^ k"
proof (induction k arbitrary: n)
  case 0
  then show ?case by simp
next
  case (Suc k)
  have "be_nat (be_bytes (Suc k) n) = (n div 256) mod 256 ^ k * 256 + n mod 256"
    by (simp add: Suc.IH unat_of_nat_byte)
  also have "\<dots> = n mod (256 * 256 ^ k)"
    by (metis mod_mult2_eq mult.commute)
  finally show ?case by simp
qed

lemma be_nat_less: "be_nat bs < 256 ^ length bs"
proof (induction bs rule: rev_induct)
  case Nil
  then show ?case by simp
next
  case (snoc b bs)
  have "unat b < 256" by simp
  with snoc.IH have "be_nat bs * 256 + unat b < 256 ^ length bs * 256" by linarith
  then show ?case by (simp add: mult.commute)
qed

lemma be_bytes_be_nat: "be_bytes (length bs) (be_nat bs) = bs"
proof (induction bs rule: rev_induct)
  case Nil
  then show ?case by simp
next
  case (snoc b bs)
  have b: "unat b < 256" by simp
  then have "(be_nat bs * 256 + unat b) div 256 = be_nat bs" by simp
  moreover have "(of_nat (be_nat bs * 256 + unat b) :: byte) = b"
  proof -
    have "(be_nat bs * 256 + unat b) mod 256 = unat b" using b by simp
    then have "unat (of_nat (be_nat bs * 256 + unat b) :: byte) = unat b"
      by (simp only: unat_of_nat_byte)
    then show ?thesis by (simp only: word_eq_iff_unsigned [symmetric])
  qed
  ultimately show ?case using snoc.IH by simp
qed

lemma be_nat_inject: "length a = length b \<Longrightarrow> be_nat a = be_nat b \<longleftrightarrow> a = b"
  by (metis be_bytes_be_nat)

lemma length_put_be [simp]:
  "length (put_be16 a) = 2" "length (put_be32 b) = 4" "length (put_be64 c) = 8"
  "length (put_le32 b) = 4"
  by (simp_all add: put_be16_def put_be32_def put_be64_def put_le32_def)

lemma get_put_be16 [simp]: "get_be16 (put_be16 w) = w"
  using unsigned_less [of w, where ?'a = nat] by (simp add: get_be16_def put_be16_def be_nat_be_bytes)

lemma get_put_be32 [simp]: "get_be32 (put_be32 w) = w"
  using unsigned_less [of w, where ?'a = nat] by (simp add: get_be32_def put_be32_def be_nat_be_bytes)

lemma get_put_be64 [simp]: "get_be64 (put_be64 w) = w"
  using unsigned_less [of w, where ?'a = nat] by (simp add: get_be64_def put_be64_def be_nat_be_bytes)

lemma get_put_le32 [simp]: "get_le32 (put_le32 w) = w"
  using unsigned_less [of w, where ?'a = nat] by (simp add: get_le32_def put_le32_def be_nat_be_bytes)

section \<open>Decimal and hexadecimal text\<close>

definition digit_char :: "nat \<Rightarrow> char" where
  "digit_char d = char_of (48 + d)"

definition is_digit :: "char \<Rightarrow> bool" where
  "is_digit c \<longleftrightarrow> 48 \<le> (of_char c :: nat) \<and> (of_char c :: nat) \<le> 57"

definition digit_val :: "char \<Rightarrow> nat" where
  "digit_val c = of_char c - 48"

fun dec_string :: "nat \<Rightarrow> string" where
  "dec_string n = (if n < 10 then [digit_char n] else dec_string (n div 10) @ [digit_char (n mod 10)])"

declare dec_string.simps [simp del]

text \<open>\<^verbatim>\<open>strconv.Itoa\<close>, and the value a string of digits spells.\<close>

definition Itoa :: "int \<Rightarrow> string" where
  "Itoa i = (if i < 0 then ''-'' @ dec_string (nat (- i)) else dec_string (nat i))"

definition dec_val :: "string \<Rightarrow> nat" where
  "dec_val s = foldl (\<lambda>a c. a * 10 + digit_val c) 0 s"

text \<open>\<^verbatim>\<open>strconv.ParseUint(s, 10, bits)\<close>: decimal digits only, with a range check.\<close>

definition ParseUint10 :: "nat \<Rightarrow> string \<Rightarrow> nat option" where
  "ParseUint10 bits s =
     (if s = [] \<or> \<not> list_all is_digit s then None
      else if dec_val s < 2 ^ bits then Some (dec_val s) else None)"

lemma is_digit_digit_char [simp]: "d < 10 \<Longrightarrow> is_digit (digit_char d)"
  by (simp add: is_digit_def digit_char_def)

lemma digit_val_digit_char [simp]: "d < 10 \<Longrightarrow> digit_val (digit_char d) = d"
  by (simp add: digit_val_def digit_char_def)

lemma dec_val_snoc [simp]: "dec_val (s @ [c]) = dec_val s * 10 + digit_val c"
  by (simp add: dec_val_def)

lemma dec_val_dec_string [simp]: "dec_val (dec_string n) = n"
proof (induction n rule: dec_string.induct)
  case (1 n)
  show ?case
  proof (cases "n < 10")
    case True
    then show ?thesis by (subst dec_string.simps) (simp add: dec_val_def)
  next
    case False
    with "1.IH" show ?thesis by (subst dec_string.simps) simp
  qed
qed

lemma dec_string_digits: "list_all is_digit (dec_string n)"
proof (induction n rule: dec_string.induct)
  case (1 n)
  then show ?case by (subst dec_string.simps) simp
qed

lemma dec_string_nonempty [simp]: "dec_string n \<noteq> []"
  by (subst dec_string.simps) simp

lemma dec_string_inject [simp]: "dec_string m = dec_string n \<longleftrightarrow> m = n"
  by (metis dec_val_dec_string)

lemma ParseUint10_dec_string: "n < 2 ^ bits \<Longrightarrow> ParseUint10 bits (dec_string n) = Some n"
  by (simp add: ParseUint10_def dec_string_digits)

text \<open>
  \<^verbatim>\<open>encoding/hex\<close>. \<open>DecodeString\<close> returns the bytes decoded before the first bad digit,
  together with whether it succeeded.
\<close>

definition hex_digit :: "nat \<Rightarrow> char" where
  "hex_digit d = (if d < 10 then char_of (48 + d) else char_of (87 + d))"

definition hex_value :: "char \<Rightarrow> nat option" where
  "hex_value c =
     (let n = (of_char c :: nat) in
      if 48 \<le> n \<and> n \<le> 57 then Some (n - 48)
      else if 97 \<le> n \<and> n \<le> 102 then Some (n - 87)
      else if 65 \<le> n \<and> n \<le> 70 then Some (n - 55)
      else None)"

definition hex_EncodeToString :: "bytes \<Rightarrow> string" where
  "hex_EncodeToString bs =
     concat (map (\<lambda>b. [hex_digit (unat b div 16), hex_digit (unat b mod 16)]) bs)"

fun hex_DecodeString :: "string \<Rightarrow> bytes \<times> bool" where
  "hex_DecodeString [] = ([], True)"
| "hex_DecodeString [c] = ([], False)"
| "hex_DecodeString (c # d # s) =
     (case (hex_value c, hex_value d) of
        (Some a, Some b) \<Rightarrow>
          (case hex_DecodeString s of (bs, ok) \<Rightarrow> (of_nat (a * 16 + b) # bs, ok))
      | _ \<Rightarrow> ([], False))"

lemma hex_value_digit [simp]: "d < 16 \<Longrightarrow> hex_value (hex_digit d) = Some d"
  by (auto simp: hex_value_def hex_digit_def Let_def)

lemma hex_decode_encode [simp]: "hex_DecodeString (hex_EncodeToString bs) = (bs, True)"
proof (induction bs)
  case Nil
  then show ?case by (simp add: hex_EncodeToString_def)
next
  case (Cons b bs)
  have split: "unat b div 16 * 16 + unat b mod 16 = unat b" by simp
  have lo: "unat b mod 16 < 16" by simp
  have hi: "unat b div 16 < 16" using unat_byte_less [of b] by linarith
  have "hex_EncodeToString (b # bs) =
      hex_digit (unat b div 16) # hex_digit (unat b mod 16) # hex_EncodeToString bs"
    by (simp add: hex_EncodeToString_def)
  then show ?case using Cons.IH
    by (simp only: hex_DecodeString.simps hex_value_digit [OF lo] hex_value_digit [OF hi]
        split prod.case option.case) simp
qed

lemma length_hex_encode [simp]: "length (hex_EncodeToString bs) = 2 * length bs"
  by (induction bs) (simp_all add: hex_EncodeToString_def)

lemma hex_encode_inject [simp]: "hex_EncodeToString a = hex_EncodeToString b \<longleftrightarrow> a = b"
  by (metis hex_decode_encode prod.inject)

lemma hex_digit_not_control:
  "d < 16 \<Longrightarrow> hex_digit d \<noteq> CHR 0x0A \<and> hex_digit d \<noteq> CHR 0x0D"
proof -
  assume "d < 16"
  then have "48 \<le> (of_char (hex_digit d) :: nat)" by (simp add: hex_digit_def)
  then show ?thesis by (auto simp: of_char_Char)
qed

lemma hex_encode_printable:
  "CHR 0x0A \<notin> set (hex_EncodeToString bs) \<and> CHR 0x0D \<notin> set (hex_EncodeToString bs)"
proof -
  have hi: "unat b div 16 < 16" for b :: byte using unat_byte_less [of b] by linarith
  have lo: "unat b mod 16 < 16" for b :: byte by simp
  show ?thesis
    using hex_digit_not_control [OF hi] hex_digit_not_control [OF lo]
    by (auto simp: hex_EncodeToString_def) metis+
qed

section \<open>The callback loop of a Range method\<close>

text \<open>
  Go's \<^verbatim>\<open>m.Range(f)\<close> calls \<^verbatim>\<open>f\<close> on each entry until it returns false. The closure's captured
  variables are the accumulator.
\<close>

fun go_range :: "('s \<Rightarrow> 'a \<Rightarrow> 's \<times> bool) \<Rightarrow> 'a list \<Rightarrow> 's \<Rightarrow> 's" where
  "go_range f [] s = s"
| "go_range f (x # xs) s = (case f s x of (s', cont) \<Rightarrow> if cont then go_range f xs s' else s')"

lemma go_range_always: "(\<And>s x. snd (f s x)) \<Longrightarrow> go_range f xs s = foldl (\<lambda>s x. fst (f s x)) s xs"
  by (induction xs arbitrary: s) (auto split: prod.splits, metis snd_conv)

lemma go_range_invariant:
  assumes "P s" and "\<And>s x. P s \<Longrightarrow> x \<in> set xs \<Longrightarrow> P (fst (f s x))"
  shows "P (go_range f xs s)"
  using assms
  by (induction xs arbitrary: s) (auto split: prod.splits, (metis fst_conv)+)

end
