(* ===== verification/Net_IP.thy ===== *)
theory Net_IP
  imports Prelude
begin

text \<open>
  The part of Go's standard package \<^verbatim>\<open>net\<close> that the tracker uses on addresses: \<^verbatim>\<open>net.IP\<close> is a
  byte slice of length 4 or 16 (or \<^verbatim>\<open>nil\<close>), \<^verbatim>\<open>ParseIP\<close> reads the dotted and the colon form,
  \<^verbatim>\<open>String\<close> writes them, and \<^verbatim>\<open>To4\<close>, \<^verbatim>\<open>To16\<close>, \<^verbatim>\<open>IsPrivate\<close> and \<^verbatim>\<open>IsLoopback\<close> classify.
  The last section shows that an IPv4 address survives being written and read back.
\<close>

unbundle bit_operations_syntax

section \<open>Addresses\<close>

type_synonym IP = "bytes option" \<comment> \<open>\<open>None\<close> is Go's nil slice\<close>

definition ip_bytes :: "IP \<Rightarrow> bytes" where
  "ip_bytes ip = (case ip of None \<Rightarrow> [] | Some b \<Rightarrow> b)"

definition v4InV6Prefix :: bytes where
  "v4InV6Prefix = [0, 0, 0, 0, 0, 0, 0, 0, 0, 0, 0xff, 0xff]"

definition To4 :: "IP \<Rightarrow> IP" where
  "To4 ip =
     (let b = ip_bytes ip in
      if length b = 4 then Some b
      else if length b = 16 \<and> take 12 b = v4InV6Prefix then Some (drop 12 b)
      else None)"

definition To16 :: "IP \<Rightarrow> IP" where
  "To16 ip =
     (let b = ip_bytes ip in
      if length b = 4 then Some (v4InV6Prefix @ b)
      else if length b = 16 then Some b
      else None)"

definition IPv6loopback :: bytes where
  "IPv6loopback = [0, 0, 0, 0, 0, 0, 0, 0, 0, 0, 0, 0, 0, 0, 0, 1]"

definition IsLoopback :: "IP \<Rightarrow> bool" where
  "IsLoopback ip =
     (case To4 ip of
        Some b \<Rightarrow> b ! 0 = 127
      | None \<Rightarrow> ip_bytes ip = IPv6loopback)"

definition IsPrivate :: "IP \<Rightarrow> bool" where
  "IsPrivate ip =
     (case To4 ip of
        Some b \<Rightarrow>
          b ! 0 = 10 \<or> (b ! 0 = 172 \<and> b ! 1 AND 0xf0 = 16) \<or> (b ! 0 = 192 \<and> b ! 1 = 168)
      | None \<Rightarrow>
          length (ip_bytes ip) = 16 \<and> ip_bytes ip ! 0 AND 0xfe = 0xfc)"

section \<open>Writing an address\<close>

fun join :: "string \<Rightarrow> string list \<Rightarrow> string" where
  "join sep [] = []"
| "join sep [x] = x"
| "join sep (x # y # xs) = x @ sep @ join sep (y # xs)"

definition dotted :: "bytes \<Rightarrow> string" where
  "dotted b = join ''.'' (map (\<lambda>w. dec_string (unat w)) b)"

fun hex_string :: "nat \<Rightarrow> string" where
  "hex_string n = (if n < 16 then [hex_digit n] else hex_string (n div 16) @ [hex_digit (n mod 16)])"

declare hex_string.simps [simp del]

fun v6groups :: "bytes \<Rightarrow> nat list" where
  "v6groups (a # b # r) = (unat a * 256 + unat b) # v6groups r"
| "v6groups r = []"

text \<open>The first longest run of at least two zero groups, as its start and end (255 if none).\<close>

definition zero_run :: "nat list \<Rightarrow> nat \<times> nat" where
  "zero_run gs =
     foldl (\<lambda>(zs, ze) i.
        let l = length (takeWhile (\<lambda>g. g = 0) (drop i gs)) in
        if l \<ge> 2 \<and> l > ze - zs then (i, i + l) else (zs, ze)) (255, 255) [0..<8]"

definition v6string :: "bytes \<Rightarrow> string" where
  "v6string b =
     (let gs = v6groups b; hs = map hex_string gs in
      case zero_run gs of
        (zs, ze) \<Rightarrow>
          if zs = 255 then join '':'' hs
          else join '':'' (take zs hs) @ ''::'' @ join '':'' (drop ze hs))"

definition IP_String :: "IP \<Rightarrow> string" where
  "IP_String ip =
     (let b = ip_bytes ip in
      if b = [] then ''<nil>''
      else if length b \<noteq> 4 \<and> length b \<noteq> 16 then ''?'' @ hex_EncodeToString b
      else case To4 ip of
             Some b4 \<Rightarrow> dotted b4
           | None \<Rightarrow> v6string b)"

section \<open>Reading an address\<close>

fun split_on :: "char \<Rightarrow> string \<Rightarrow> string list" where
  "split_on c [] = [[]]"
| "split_on c (x # xs) =
     (if x = c then [] # split_on c xs
      else case split_on c xs of [] \<Rightarrow> [[x]] | y # ys \<Rightarrow> (x # y) # ys)"

text \<open>A decimal octet: digits only, at most 255, no leading zero.\<close>

definition parse_octet :: "string \<Rightarrow> byte option" where
  "parse_octet s =
     (if s = [] \<or> \<not> list_all is_digit s then None
      else if length s > 1 \<and> hd s = CHR ''0'' then None
      else if dec_val s > 255 then None
      else Some (of_nat (dec_val s)))"

definition parseIPv4 :: "string \<Rightarrow> bytes option" where
  "parseIPv4 s =
     (case map parse_octet (split_on (CHR ''.'') s) of
        [Some a, Some b, Some c, Some d] \<Rightarrow> Some [a, b, c, d]
      | _ \<Rightarrow> None)"

text \<open>
  The loop of \<^verbatim>\<open>netip.parseIPv6\<close>: one 16-bit group per round, \<open>n\<close> rounds left, \<open>ip\<close> the bytes
  read so far, \<open>ell\<close> the position of the ellipsis. It gives the bytes, the ellipsis and the
  unread rest.
\<close>

definition is_hex :: "char \<Rightarrow> bool" where
  "is_hex c \<longleftrightarrow> hex_value c \<noteq> None"

definition hex_val :: "string \<Rightarrow> nat" where
  "hex_val s = foldl (\<lambda>a c. a * 16 + (case hex_value c of Some v \<Rightarrow> v | None \<Rightarrow> 0)) 0 s"

fun parse_groups ::
  "nat \<Rightarrow> bytes \<Rightarrow> nat option \<Rightarrow> string \<Rightarrow> (bytes \<times> nat option \<times> string) option" where
  "parse_groups 0 ip ell s = Some (ip, ell, s)"
| "parse_groups (Suc n) ip ell s =
     (let ds = takeWhile is_hex s; r = dropWhile is_hex s in
      if ds = [] \<or> length ds > 4 then None
      else case r of
        [] \<Rightarrow> Some (ip @ be_bytes 2 (hex_val ds), ell, [])
      | c # r' \<Rightarrow>
          if c = CHR ''.'' then
            (if ell = None \<and> length ip \<noteq> 12 then None
             else if length ip + 4 > 16 then None
             else case parseIPv4 s of None \<Rightarrow> None | Some v4 \<Rightarrow> Some (ip @ v4, ell, []))
          else if c \<noteq> CHR '':'' then None
          else (let ip' = ip @ be_bytes 2 (hex_val ds) in
            case r' of
              [] \<Rightarrow> None
            | d # r'' \<Rightarrow>
                if d = CHR '':'' then
                  (if ell \<noteq> None then None
                   else if r'' = [] then Some (ip', Some (length ip'), [])
                   else parse_groups n ip' (Some (length ip')) r'')
                else parse_groups n ip' ell r'))"

definition expand_ellipsis :: "bytes \<Rightarrow> nat option \<Rightarrow> bytes option" where
  "expand_ellipsis ip ell =
     (if length ip < 16 then
        (case ell of
           None \<Rightarrow> None
         | Some e \<Rightarrow> Some (take e ip @ replicate (16 - length ip) 0 @ drop e ip))
      else if ell \<noteq> None then None else Some ip)"

definition parseIPv6 :: "string \<Rightarrow> bytes option" where
  "parseIPv6 s =
     (let lead = take 2 s = ''::''; s' = (if lead then drop 2 s else s) in
      if lead \<and> s' = [] then Some (replicate 16 0)
      else case parse_groups 8 [] (if lead then Some 0 else None) s' of
             None \<Rightarrow> None
           | Some (ip, ell, rest) \<Rightarrow> if rest \<noteq> [] then None else expand_ellipsis ip ell)"

text \<open>
  \<^verbatim>\<open>net.ParseIP\<close> decides by the first separator, refuses zones, and always gives 16 bytes.
\<close>

definition ParseIP :: "string \<Rightarrow> IP" where
  "ParseIP s =
     (if CHR ''%'' \<in> set s then None
      else case find (\<lambda>c. c = CHR ''.'' \<or> c = CHR '':'') s of
             None \<Rightarrow> None
           | Some c \<Rightarrow>
               if c = CHR ''.'' then map_option (\<lambda>b. v4InV6Prefix @ b) (parseIPv4 s)
               else parseIPv6 s)"

section \<open>Conversions between the two lengths\<close>

lemma v4InV6Prefix_length [simp]: "length v4InV6Prefix = 12"
  by (simp add: v4InV6Prefix_def)

lemma To4_length: "To4 ip = Some b \<Longrightarrow> length b = 4"
  by (auto simp: To4_def Let_def split: if_splits)

lemma To16_length: "To16 ip = Some b \<Longrightarrow> length b = 16"
  by (auto simp: To16_def Let_def split: if_splits)

lemma To4_mapped [simp]: "length b = 4 \<Longrightarrow> To4 (Some (v4InV6Prefix @ b)) = Some b"
  by (simp add: To4_def ip_bytes_def)

lemma To4_short [simp]: "length b = 4 \<Longrightarrow> To4 (Some b) = Some b"
  by (simp add: To4_def ip_bytes_def)

lemma To4_None [simp]: "To4 None = None" and To16_None [simp]: "To16 None = None"
  by (simp_all add: To4_def To16_def ip_bytes_def)

lemma To16_of_To4: "To4 ip = Some b \<Longrightarrow> To16 ip = Some (v4InV6Prefix @ b)"
proof -
  assume "To4 ip = Some b"
  moreover have "take 12 (ip_bytes ip) = v4InV6Prefix \<Longrightarrow>
      ip_bytes ip = v4InV6Prefix @ drop 12 (ip_bytes ip)"
    by (metis append_take_drop_id)
  ultimately show ?thesis by (auto simp: To4_def To16_def Let_def split: if_splits)
qed

lemma To4_of_To16: "To16 ip = Some b \<Longrightarrow> To4 (Some b) = To4 ip"
  by (auto simp: To4_def To16_def ip_bytes_def Let_def split: if_splits)

section \<open>An IPv4 address survives being written and read\<close>

lemma split_on_nonempty [simp]: "split_on c s \<noteq> []"
  by (cases s) (auto split: list.splits)

lemma split_on_no_sep: "c \<notin> set s \<Longrightarrow> split_on c s = [s]"
  by (induction s) auto

lemma split_on_append: "c \<notin> set s \<Longrightarrow> split_on c (s @ c # t) = s # split_on c t"
  by (induction s) auto

lemma split_on_join:
  "xs \<noteq> [] \<Longrightarrow> \<forall>x \<in> set xs. c \<notin> set x \<Longrightarrow> split_on c (join [c] xs) = xs"
  by (induction "[c]" xs rule: join.induct) (auto simp: split_on_no_sep split_on_append)

lemma hd_dec_string: "0 < n \<Longrightarrow> hd (dec_string n) \<noteq> CHR ''0''"
proof (induction n rule: dec_string.induct)
  case (1 n)
  show ?case
  proof (cases "n < 10")
    case True
    have "digit_val (digit_char n) \<noteq> digit_val (CHR ''0'')"
      using True "1.prems" by (simp add: digit_val_def [of "CHR ''0''"])
    then have "digit_char n \<noteq> CHR ''0''" by metis
    with True show ?thesis by (subst dec_string.simps) simp
  next
    case False
    then have "hd (dec_string (n div 10)) \<noteq> CHR ''0''" by (intro "1.IH") auto
    with False show ?thesis by (subst dec_string.simps) simp
  qed
qed

lemma parse_octet_dec_string [simp]: "parse_octet (dec_string (unat (w :: byte))) = Some w"
proof -
  have "\<not> (length (dec_string (unat w)) > 1 \<and> hd (dec_string (unat w)) = CHR ''0'')"
  proof (cases "unat w = 0")
    case True
    then show ?thesis by (subst dec_string.simps) simp
  next
    case False
    then show ?thesis using hd_dec_string by blast
  qed
  moreover have "unat w \<le> 255" using unat_byte_less [of w] by linarith
  ultimately show ?thesis by (simp add: parse_octet_def dec_string_digits not_less)
qed

lemma dec_string_no_sep:
  "\<not> is_digit c \<Longrightarrow> c \<notin> set (dec_string n)"
  using dec_string_digits [of n] by (auto simp: list_all_iff)

lemma not_digit_seps [simp]:
  "\<not> is_digit (CHR ''.'')" "\<not> is_digit (CHR '':'')" "\<not> is_digit (CHR ''%'')"
  by (simp_all add: is_digit_def)

lemma parseIPv4_dotted [simp]:
  assumes "length b = 4"
  shows "parseIPv4 (dotted b) = Some b"
proof -
  obtain p q r s where b: "b = [p, q, r, s]"
    using assms by (auto simp: numeral_eq_Suc length_Suc_conv)
  have "split_on (CHR ''.'') (dotted b) = map (\<lambda>w. dec_string (unat w)) b"
    unfolding dotted_def by (rule split_on_join) (auto simp: b dec_string_no_sep)
  then show ?thesis by (simp add: parseIPv4_def b)
qed

lemma find_first_sep:
  "c \<in> {CHR ''.'', CHR '':''} \<Longrightarrow> list_all is_digit s \<Longrightarrow>
     find (\<lambda>c. c = CHR ''.'' \<or> c = CHR '':'') (s @ c # t) = Some c"
  by (induction s) (auto simp: is_digit_def)

theorem ParseIP_dotted [simp]:
  assumes "length b = 4"
  shows "ParseIP (dotted b) = Some (v4InV6Prefix @ b)"
proof -
  obtain p q r s where b: "b = [p, q, r, s]"
    using assms by (auto simp: numeral_eq_Suc length_Suc_conv)
  have pct: "CHR ''%'' \<notin> set (dotted b)"
    by (simp add: dotted_def b dec_string_no_sep)
  have "find (\<lambda>c. c = CHR ''.'' \<or> c = CHR '':'') (dotted b) = Some (CHR ''.'')"
    by (simp add: dotted_def b find_first_sep dec_string_digits)
  with pct assms show ?thesis by (simp add: ParseIP_def)
qed

lemma IP_String_v4: "To4 ip = Some b \<Longrightarrow> IP_String ip = dotted b"
  by (auto simp: IP_String_def To4_def Let_def split: if_splits)

text \<open>Reading back what \<^verbatim>\<open>String\<close> wrote gives the 16-byte form of the same address.\<close>

theorem ParseIP_String_v4: "To4 ip = Some b \<Longrightarrow> ParseIP (IP_String ip) = To16 ip"
  by (simp add: IP_String_v4 To4_length To16_of_To4)

lemma dotted_inject:
  "length a = 4 \<Longrightarrow> length b = 4 \<Longrightarrow> dotted a = dotted b \<longleftrightarrow> a = b"
  by (metis parseIPv4_dotted option.inject)

end
