(* ===== verification/Model.thy ===== *)
theory Model
  imports Net_IP
begin

text \<open>
  The request and response structs of \<^verbatim>\<open>biz/model/http.go\<close>. Go's embedding of
  \<^verbatim>\<open>HttpAnnounceRequest\<close> in \<^verbatim>\<open>AnnounceRequest\<close> is record extension. The \<^verbatim>\<open>int8\<close> enumerations are
  8-bit words, since the wire formats convert arbitrary numbers to them. A websocket connection is
  named by a number; \<open>None\<close> is a nil pointer.
\<close>

type_synonym Source = "8 word"

definition SourceHTTP :: Source where "SourceHTTP = 0"
definition SourceUDP :: Source where "SourceUDP = 1"
definition SourceWS :: Source where "SourceWS = 2"

type_synonym PeerType = "8 word"

definition PeerTypeBittorrent :: PeerType where "PeerTypeBittorrent = 0"
definition PeerTypeWebtorrent :: PeerType where "PeerTypeWebtorrent = 1"

lemma peer_types_differ [simp]:
  "PeerTypeBittorrent \<noteq> PeerTypeWebtorrent" "PeerTypeWebtorrent \<noteq> PeerTypeBittorrent"
  by (simp_all add: PeerTypeBittorrent_def PeerTypeWebtorrent_def)

record OfferDetail =
  od_Type :: string
  od_SDP :: string

record Offer =
  o_OfferID :: string
  o_Offer :: OfferDetail

type_synonym conn_id = nat

record HttpAnnounceRequest =
  r_ClientIP :: IP
  r_InfoHash :: string
  r_PeerID :: string
  r_Event :: string
  r_UserAgent :: string
  r_IP :: string
  r_IPv4 :: string
  r_IPv6 :: string
  r_Port :: int
  r_Uploaded :: int64
  r_Downloaded :: int64
  r_Left :: int64
  r_NumWant :: int
  r_Type :: PeerType
  r_Compact :: "8 word"

record AnnounceRequest = HttpAnnounceRequest +
  r_Source :: Source
  r_Offers :: "Offer list"
  r_Conn :: "conn_id option"

record model_Peer =
  mp_ID :: string
  mp_IP :: string
  mp_Port :: int

record AnnounceBasicResponse =
  ab_Interval :: int64
  ab_Peers :: "model_Peer list"
  ab_ExternalIp :: string
  ab_TrackerId :: string
  ab_Complete :: int
  ab_Incomplete :: int

record AnnounceCompactResponse =
  ac_Interval :: int64
  ac_Peers :: bytes
  ac_Peers6 :: bytes
  ac_ExternalIp :: string
  ac_TrackerId :: string
  ac_Complete :: int
  ac_Incomplete :: int

record ErrorResponse =
  er_FailureReason :: string
  er_Retry :: string
  er_TrackerId :: string

record ScrapeFile =
  sf_Seeder :: int
  sf_Complete :: int
  sf_Incomplete :: int
  sf_Downloaded :: int

text \<open>The zero value of a request, which the parsers fill in.\<close>

definition zeroRequest :: AnnounceRequest where
  "zeroRequest = \<lparr>r_ClientIP = None, r_InfoHash = [], r_PeerID = [], r_Event = [], r_UserAgent = [],
     r_IP = [], r_IPv4 = [], r_IPv6 = [], r_Port = 0, r_Uploaded = 0, r_Downloaded = 0, r_Left = 0,
     r_NumWant = 0, r_Type = 0, r_Compact = 0, r_Source = 0, r_Offers = [], r_Conn = None\<rparr>"

end
