(* ===== verification/Config.thy ===== *)
theory Config
  imports Prelude
begin

text \<open>
  The configuration of \<^verbatim>\<open>biz/config/init.go\<close>: its structs as records, the defaults that
  \<^verbatim>\<open>injectDefaultValue\<close> fills in, and \<^verbatim>\<open>Init\<close>, which reads it from the environment or from a
  file. The JSON and YAML decoders are parameters of \<^verbatim>\<open>Init\<close>. A panic or a fatal log line is an
  error value.
\<close>

record databaseConfig =
  db_Database :: string
  db_Host :: string
  db_Port :: int
  db_Pass :: string
  db_User :: string

record RocketMqConfig =
  mq_Topic :: string
  mq_Endpoint :: string

record RedisConfig =
  redis_Enable :: bool
  redis_Network :: string
  redis_Addr :: string

type_synonym runningMode = string

definition RunningModeMemory :: runningMode where "RunningModeMemory = ''memory''"
definition RunningModeDB :: runningMode where "RunningModeDB = ''db''"
definition RunningModeRPC :: runningMode where "RunningModeRPC = ''rpc''"

record wsConfig =
  ws_Enable :: bool
  ws_Shard :: int

record rpcConfig =
  rpc_EnableServer :: bool
  rpc_HostPorts :: string
  rpc_RemoteServer :: string

record udpConfig =
  udp_Enable :: bool
  udp_HostPorts :: string

record memoryConfig =
  mem_PersistFile :: string
  mem_MaxPeersPerTorrent :: int
  mem_Shard :: int
  mem_EnablePersist :: bool

record xdpConfig =
  xdp_Enable :: bool
  xdp_Interface :: string

record TrackerConfig =
  t_Database :: databaseConfig
  t_Memory :: memoryConfig
  t_UDPServer :: udpConfig
  t_WSServer :: wsConfig
  t_Mode :: runningMode
  t_RPC :: rpcConfig
  t_XDP :: xdpConfig
  t_HostPorts :: string
  t_MetricsHostPorts :: string
  t_TTL :: int64
  t_IntervalTask :: int64
  t_UseUnixSocket :: bool
  t_UseAnnounceIP :: bool
  t_EnableEventProducer :: bool
  t_EnableMetrics :: bool
  t_TrackerId :: string
  t_DebugPort :: int64

record Config =
  c_Cache :: RedisConfig
  c_Tracker :: TrackerConfig
  c_RocketMq :: RocketMqConfig

text \<open>The zero value that the decoders fill in.\<close>

definition zeroConfig :: Config where
  "zeroConfig = \<lparr>
     c_Cache = \<lparr>redis_Enable = False, redis_Network = [], redis_Addr = []\<rparr>,
     c_Tracker = \<lparr>
       t_Database = \<lparr>db_Database = [], db_Host = [], db_Port = 0, db_Pass = [], db_User = []\<rparr>,
       t_Memory = \<lparr>mem_PersistFile = [], mem_MaxPeersPerTorrent = 0, mem_Shard = 0,
         mem_EnablePersist = False\<rparr>,
       t_UDPServer = \<lparr>udp_Enable = False, udp_HostPorts = []\<rparr>,
       t_WSServer = \<lparr>ws_Enable = False, ws_Shard = 0\<rparr>,
       t_Mode = [],
       t_RPC = \<lparr>rpc_EnableServer = False, rpc_HostPorts = [], rpc_RemoteServer = []\<rparr>,
       t_XDP = \<lparr>xdp_Enable = False, xdp_Interface = []\<rparr>,
       t_HostPorts = [], t_MetricsHostPorts = [], t_TTL = 0, t_IntervalTask = 0,
       t_UseUnixSocket = False, t_UseAnnounceIP = False, t_EnableEventProducer = False,
       t_EnableMetrics = False, t_TrackerId = [], t_DebugPort = 0\<rparr>,
     c_RocketMq = \<lparr>mq_Topic = [], mq_Endpoint = []\<rparr>\<rparr>"

definition injectDefaultValue :: "Config \<Rightarrow> Config result" where
  "injectDefaultValue conf =
     (let t = c_Tracker conf;
          t = (if t_HostPorts t = [] then t\<lparr>t_HostPorts := ''0.0.0.0:8888''\<rparr> else t);
          t = (if t_Mode t = RunningModeMemory \<and> mem_PersistFile (t_Memory t) = []
               then t\<lparr>t_Memory := (t_Memory t)\<lparr>mem_PersistFile := ''persist.dat''\<rparr>\<rparr> else t)
      in if t_Mode t = RunningModeRPC \<and> rpc_RemoteServer (t_RPC t) = []
         then Inl ''rpc remote server is required''
         else
           (let t = (if t_MetricsHostPorts t = [] then t\<lparr>t_MetricsHostPorts := ''127.0.0.1:9091''\<rparr> else t);
                t = (if t_TrackerId t = [] then t\<lparr>t_TrackerId := ''default''\<rparr> else t)
            in Inr (conf\<lparr>c_Tracker := t\<rparr>)))"

text \<open>
  \<open>getenv\<close> is the environment, \<open>readFile\<close> opens and reads a file; the two decoders take the
  text and the value to fill in.
\<close>

definition Config_Init ::
  "(string \<Rightarrow> string) \<Rightarrow> (string \<Rightarrow> string result) \<Rightarrow>
   (string \<Rightarrow> Config \<Rightarrow> Config result) \<Rightarrow> (string \<Rightarrow> Config \<Rightarrow> Config result) \<Rightarrow> Config result" where
  "Config_Init getenv readFile json_Unmarshal yaml_Unmarshal =
     (if getenv ''TRUNKER_CONFIG'' \<noteq> [] then
        (case json_Unmarshal (getenv ''TRUNKER_CONFIG'') zeroConfig of
           Inl e \<Rightarrow> Inl (''invalid json config:'' @ e)
         | Inr c \<Rightarrow> injectDefaultValue c)
      else
        (let confFile = (if getenv ''RUN_ENV'' = ''prod'' then ''conf/prod.yaml'' else ''conf/local.yaml'')
         in case readFile confFile of
              Inl e \<Rightarrow> Inl e
            | Inr content \<Rightarrow>
                (case yaml_Unmarshal content zeroConfig of
                   Inl e \<Rightarrow> Inl (''parse local config failed: '' @ e)
                 | Inr c \<Rightarrow> injectDefaultValue c)))"

section \<open>What the defaults establish\<close>

text \<open>
  A configuration as the rest of the program may assume it: the settings with a default are
  not empty, and an RPC tracker names its server.
\<close>

definition config_ok :: "Config \<Rightarrow> bool" where
  "config_ok c \<longleftrightarrow>
     t_HostPorts (c_Tracker c) \<noteq> [] \<and> t_MetricsHostPorts (c_Tracker c) \<noteq> [] \<and>
     t_TrackerId (c_Tracker c) \<noteq> [] \<and>
     (t_Mode (c_Tracker c) = RunningModeMemory \<longrightarrow> mem_PersistFile (t_Memory (c_Tracker c)) \<noteq> []) \<and>
     (t_Mode (c_Tracker c) = RunningModeRPC \<longrightarrow> rpc_RemoteServer (t_RPC (c_Tracker c)) \<noteq> [])"

lemma injectDefaultValue_ok: "injectDefaultValue c = Inr c' \<Longrightarrow> config_ok c'"
  by (auto simp: injectDefaultValue_def config_ok_def RunningModeMemory_def RunningModeRPC_def Let_def
      split: if_splits)

lemma injectDefaultValue_keeps_ok: "config_ok c \<Longrightarrow> injectDefaultValue c = Inr c"
  by (auto simp: injectDefaultValue_def config_ok_def Let_def)

lemma injectDefaultValue_TTL:
  "injectDefaultValue c = Inr c' \<Longrightarrow> t_TTL (c_Tracker c') = t_TTL (c_Tracker c)"
  by (auto simp: injectDefaultValue_def Let_def split: if_splits)

lemma Config_Init_ok: "Config_Init g r j y = Inr c \<Longrightarrow> config_ok c"
  by (auto simp: Config_Init_def Let_def intro: injectDefaultValue_ok split: if_splits sum.splits)

section \<open>Durations\<close>

text \<open>
  \<^verbatim>\<open>time.Duration(n) * time.Second\<close>: a 64-bit product. \<^verbatim>\<open>t.Add(d)\<close> moves a time by the signed
  value.
\<close>

definition duration_seconds :: "int64 \<Rightarrow> int64" where
  "duration_seconds n = n * 1000000000"

definition time_Add :: "gotime \<Rightarrow> int64 \<Rightarrow> gotime" where
  "time_Add t d = t + sint d"

text \<open>\<^verbatim>\<open>time.Now().Add(time.Duration(-1*config.AppConfig.Tracker.TTL) * time.Second)\<close>.\<close>

definition expireTime :: "Config \<Rightarrow> gotime \<Rightarrow> gotime" where
  "expireTime cfg now = time_Add now (duration_seconds (-1 * t_TTL (c_Tracker cfg)))"

definition sane_ttl :: "Config \<Rightarrow> bool" where
  "sane_ttl cfg \<longleftrightarrow> 0 \<le> sint (t_TTL (c_Tracker cfg)) \<and> sint (t_TTL (c_Tracker cfg)) < 2 ^ 33"

lemma sint_of_int64:
  assumes "- (2 ^ 63) \<le> x" and "x < 2 ^ 63"
  shows "sint (of_int x :: 64 word) = x"
  using assms by (simp add: signed_of_int signed_take_bit_int_eq_self)

lemma sint_duration_seconds:
  assumes "- (2 ^ 33) < sint n" and "sint n < 2 ^ 33"
  shows "sint (duration_seconds n) = sint n * 1000000000"
proof -
  have "duration_seconds n = of_int (sint n * 1000000000)"
    by (simp add: duration_seconds_def)
  moreover have "sint (of_int (sint n * 1000000000) :: 64 word) = sint n * 1000000000"
    using assms by (intro sint_of_int64) simp_all
  ultimately show ?thesis by (simp only:)
qed

lemma expireTime_sane:
  assumes "sane_ttl cfg"
  shows "expireTime cfg now = now - sint (t_TTL (c_Tracker cfg)) * 1000000000"
proof -
  let ?t = "t_TTL (c_Tracker cfg)"
  have "- 1 * ?t = of_int (- sint ?t)" by simp
  with assms have neg: "sint (- 1 * ?t) = - sint ?t"
    by (simp add: sane_ttl_def sint_of_int64 del: of_int_minus)
  with assms show ?thesis
    by (simp add: expireTime_def time_Add_def sane_ttl_def sint_duration_seconds)
qed

end
