(* ===== verification/Peer_Common.thy ===== *)
theory Peer_Common
  imports Model Config
begin

text \<open>
  Peers, from \<^verbatim>\<open>biz/services/peer/common/peer.go\<close>: the record every manager stores, its events,
  the address a peer is reached at, whether it is worth handing out, and the compact encoding of a
  peer list. The lemmas show that the compact encoding can be read back.
\<close>

section \<open>Events\<close>

type_synonym PeerEvent = "8 word"

definition PeerEvent_Unknown :: PeerEvent where "PeerEvent_Unknown = 0"
definition PeerEvent_Started :: PeerEvent where "PeerEvent_Started = 1"
definition PeerEvent_Stopped :: PeerEvent where "PeerEvent_Stopped = 2"
definition PeerEvent_Completed :: PeerEvent where "PeerEvent_Completed = 3"

lemmas PeerEvent_defs =
  PeerEvent_Unknown_def PeerEvent_Started_def PeerEvent_Stopped_def PeerEvent_Completed_def

definition ParsePeerEvent :: "string \<Rightarrow> PeerEvent" where
  "ParsePeerEvent s =
     (if s = ''started'' then PeerEvent_Started
      else if s = ''stopped'' then PeerEvent_Stopped
      else if s = ''completed'' then PeerEvent_Completed
      else PeerEvent_Unknown)"

definition PeerEvent_String :: "PeerEvent \<Rightarrow> string" where
  "PeerEvent_String e =
     (if e = PeerEvent_Started then ''started''
      else if e = PeerEvent_Stopped then ''stopped''
      else if e = PeerEvent_Completed then ''completed''
      else ''unknown'')"

lemma ParsePeerEvent_String:
  "ParsePeerEvent (PeerEvent_String e) =
     (if e \<in> {PeerEvent_Started, PeerEvent_Stopped, PeerEvent_Completed} then e
      else PeerEvent_Unknown)"
  by (simp add: ParsePeerEvent_def PeerEvent_String_def)

section \<open>Peers\<close>

record Peer =
  p_IP :: IP
  p_IPv4 :: IP
  p_IPv6 :: IP
  p_ClientIP :: IP
  p_LastSeen :: gotime
  p_Offers :: "Offer list"
  p_ID :: string
  p_UserAgent :: string
  p_Port :: int
  p_Left :: uint64
  p_Uploaded :: uint64
  p_Downloaded :: uint64
  p_Conn :: "conn_id option"
  p_Type :: PeerType
  p_Event :: PeerEvent
  p_Source :: Source

definition GetIP :: "Config \<Rightarrow> Peer \<Rightarrow> IP" where
  "GetIP cfg p =
     (if t_UseAnnounceIP (c_Tracker cfg) \<and> p_IP p \<noteq> None then p_IP p
      else if t_UseAnnounceIP (c_Tracker cfg) \<and> p_IPv4 p \<noteq> None then p_IPv4 p
      else if t_UseAnnounceIP (c_Tracker cfg) \<and> p_IPv6 p \<noteq> None then p_IPv6 p
      else if p_ClientIP p \<noteq> None then p_ClientIP p
      else Some [])"

definition GetKey :: "Peer \<Rightarrow> string" where
  "GetKey p = p_ID p"

definition ToModel :: "Config \<Rightarrow> Peer \<Rightarrow> model_Peer" where
  "ToModel cfg p = \<lparr>mp_ID = p_ID p, mp_IP = IP_String (GetIP cfg p), mp_Port = p_Port p\<rparr>"

definition IsPeerConnectable :: "Config \<Rightarrow> Peer \<Rightarrow> bool" where
  "IsPeerConnectable cfg peer =
     (if p_Type peer = PeerTypeBittorrent then
        \<not> (IsPrivate (GetIP cfg peer) \<or> IsLoopback (GetIP cfg peer) \<or> p_Port peer = 0 \<or> p_Port peer = 1)
      else if p_Type peer = PeerTypeWebtorrent then length (p_Offers peer) > 0
      else False)"

section \<open>The compact peer list\<close>

fun PeersToCompact_loop :: "Config \<Rightarrow> Peer list \<Rightarrow> bytes \<Rightarrow> bytes \<Rightarrow> bytes \<times> bytes" where
  "PeersToCompact_loop cfg [] peers peers6 = (peers, peers6)"
| "PeersToCompact_loop cfg (peer # rest) peers peers6 =
     (let port = put_be16 (of_int (p_Port peer)) in
      case To4 (GetIP cfg peer) of
        Some ip \<Rightarrow> PeersToCompact_loop cfg rest (peers @ ip @ port) peers6
      | None \<Rightarrow>
          (case To16 (GetIP cfg peer) of
             Some ip \<Rightarrow> PeersToCompact_loop cfg rest peers (peers6 @ ip @ port)
           | None \<Rightarrow> PeersToCompact_loop cfg rest peers peers6))"

definition PeersToCompact :: "Config \<Rightarrow> Peer list \<Rightarrow> bytes \<times> bytes" where
  "PeersToCompact cfg peerList = PeersToCompact_loop cfg peerList [] []"

text \<open>
  The reader of BEP 23 and BEP 7: entries of a fixed width, the last two bytes of each the port.
\<close>

fun chunks :: "nat \<Rightarrow> bytes \<Rightarrow> bytes list" where
  "chunks w bs = (if w = 0 \<or> length bs < w then [] else take w bs # chunks w (drop w bs))"

declare chunks.simps [simp del]

definition compact_entry :: "bytes \<Rightarrow> bytes \<times> uint16" where
  "compact_entry c = (take (length c - 2) c, get_be16 (drop (length c - 2) c))"

definition compact_decode :: "nat \<Rightarrow> bytes \<Rightarrow> (bytes \<times> uint16) list" where
  "compact_decode w bs = map compact_entry (chunks w bs)"

text \<open>The entries the specification expects, in the order of the peer list.\<close>

definition v4_entries :: "Config \<Rightarrow> Peer list \<Rightarrow> (bytes \<times> uint16) list" where
  "v4_entries cfg ps =
     [(the (To4 (GetIP cfg p)), of_int (p_Port p)). p \<leftarrow> ps, To4 (GetIP cfg p) \<noteq> None]"

definition v6_entries :: "Config \<Rightarrow> Peer list \<Rightarrow> (bytes \<times> uint16) list" where
  "v6_entries cfg ps =
     [(the (To16 (GetIP cfg p)), of_int (p_Port p)). p \<leftarrow> ps,
        To4 (GetIP cfg p) = None \<and> To16 (GetIP cfg p) \<noteq> None]"

definition entry_bytes :: "bytes \<times> uint16 \<Rightarrow> bytes" where
  "entry_bytes e = fst e @ put_be16 (snd e)"

lemma chunks_concat:
  assumes "0 < w" and "\<forall>x \<in> set xs. length x = w"
  shows "chunks w (concat xs) = xs"
  using assms(2)
proof (induction xs)
  case Nil
  with assms(1) show ?case by (simp add: chunks.simps)
next
  case (Cons x xs)
  then have "length x = w" and "chunks w (concat xs) = xs" by auto
  with assms(1) show ?case by (subst chunks.simps) simp
qed

lemma compact_entry_bytes [simp]: "compact_entry (entry_bytes e) = e"
  by (simp add: compact_entry_def entry_bytes_def)

lemma compact_decode_concat:
  assumes "\<forall>e \<in> set es. length (fst e) = n"
  shows "compact_decode (n + 2) (concat (map entry_bytes es)) = es"
proof -
  have "chunks (n + 2) (concat (map entry_bytes es)) = map entry_bytes es"
    using assms by (intro chunks_concat) (auto simp: entry_bytes_def)
  then show ?thesis by (simp add: compact_decode_def comp_def)
qed

lemma PeersToCompact_loop_entries:
  "PeersToCompact_loop cfg ps a b =
     (a @ concat (map entry_bytes (v4_entries cfg ps)), b @ concat (map entry_bytes (v6_entries cfg ps)))"
  by (induction ps arbitrary: a b)
    (auto simp: v4_entries_def v6_entries_def entry_bytes_def Let_def split: option.splits)

lemma v4_entries_width: "\<forall>e \<in> set (v4_entries cfg ps). length (fst e) = 4"
  by (auto simp: v4_entries_def dest: To4_length)

lemma v6_entries_width: "\<forall>e \<in> set (v6_entries cfg ps). length (fst e) = 16"
  by (auto simp: v6_entries_def dest: To16_length)

lemma PeersToCompact_decode_v4:
  "compact_decode 6 (fst (PeersToCompact cfg ps)) = v4_entries cfg ps"
  using compact_decode_concat [OF v4_entries_width]
  by (simp add: PeersToCompact_def PeersToCompact_loop_entries)

lemma PeersToCompact_decode_v6:
  "compact_decode 18 (snd (PeersToCompact cfg ps)) = v6_entries cfg ps"
  using compact_decode_concat [OF v6_entries_width]
  by (simp add: PeersToCompact_def PeersToCompact_loop_entries)

end
