(* ===== verification/Rpc_Adaptor.thy ===== *)
theory Rpc_Adaptor
  imports Peer_Common
begin

text \<open>
  The messages of the tracker's RPC service and snapshot files, and the conversions between them and
  the tracker's own records: \<^verbatim>\<open>biz/services/peer/rpc/adaptor.go\<close> (client side, also used by the
  snapshots) and \<^verbatim>\<open>biz/services/rpc/adaptor.go\<close> (server side). The messages are the structs that
  \<^verbatim>\<open>idl/common.thrift\<close> and \<^verbatim>\<open>idl/server.thrift\<close> declare; an \<^verbatim>\<open>i32\<close> is a 32-bit word, enumerations are
  64-bit words as in the generated code. The \<^verbatim>\<open>String\<close> method of the generated enumeration of events is
  a parameter; \<open>event_names\<close> says that it returns the names that the IDL declares.

  The lemmas describe what is left of a peer and of a request after the way over the wire.
\<close>

section \<open>Messages\<close>

type_synonym int32 = "32 word"
type_synonym idl_enum = "64 word"

record trunker_OfferDetail =
  td_Type :: string
  td_Sdp :: string

record trunker_Offer =
  to_OfferId :: string
  to_Offer :: trunker_OfferDetail

record trunker_Peer =
  tp_Ip :: IP
  tp_Ipv4 :: IP
  tp_Ipv6 :: IP
  tp_ClientIp :: IP
  tp_LastSeen :: int
  tp_Offers :: "trunker_Offer list"
  tp_Id :: string
  tp_UserAgent :: string
  tp_Port :: int32
  tp_Uploaded :: int64
  tp_Downloaded :: int64
  tp_Left :: int64
  tp_Type :: idl_enum
  tp_Event :: idl_enum
  tp_Source :: idl_enum

record trunker_AnnounceRequest =
  ta_Offers :: "trunker_Offer list"
  ta_ClientIp :: IP
  ta_InfoHash :: string
  ta_PeerId :: string
  ta_Ip :: string
  ta_Ipv4 :: string
  ta_Ipv6 :: string
  ta_Downloaded :: int64
  ta_Left :: int64
  ta_Uploaded :: int64
  ta_NumWant :: int
  ta_Type :: idl_enum
  ta_Source :: idl_enum
  ta_Event :: idl_enum
  ta_Port :: int32
  ta_Compact :: bool

section \<open>Conversions\<close>

text \<open>\<^verbatim>\<open>time.Time.Unix\<close> and \<^verbatim>\<open>time.Unix(s, 0)\<close>: whole seconds since the epoch, rounded down.\<close>

definition time_Unix :: "gotime \<Rightarrow> int" where
  "time_Unix t = t div 1000000000"

definition of_Unix :: "int \<Rightarrow> gotime" where
  "of_Unix s = s * 1000000000"

definition OfferCommonToIDL :: "Offer \<Rightarrow> trunker_Offer" where
  "OfferCommonToIDL o' =
     \<lparr>to_OfferId = o_OfferID o', to_Offer = \<lparr>td_Type = od_Type (o_Offer o'), td_Sdp = od_SDP (o_Offer o')\<rparr>\<rparr>"

definition OfferIDLToCommon :: "trunker_Offer \<Rightarrow> Offer" where
  "OfferIDLToCommon o' =
     \<lparr>o_OfferID = to_OfferId o', o_Offer = \<lparr>od_Type = td_Type (to_Offer o'), od_SDP = td_Sdp (to_Offer o')\<rparr>\<rparr>"

definition announceRequestCommonToIDL :: "AnnounceRequest \<Rightarrow> trunker_AnnounceRequest" where
  "announceRequestCommonToIDL req = \<lparr>
     ta_Offers = map OfferCommonToIDL (r_Offers req),
     ta_ClientIp = r_ClientIP req,
     ta_InfoHash = r_InfoHash req,
     ta_PeerId = r_PeerID req,
     ta_Ip = r_IP req,
     ta_Ipv4 = r_IPv4 req,
     ta_Ipv6 = r_IPv6 req,
     ta_Downloaded = r_Downloaded req,
     ta_Left = r_Left req,
     ta_Uploaded = r_Uploaded req,
     ta_NumWant = r_NumWant req,
     ta_Type = scast (r_Type req),
     ta_Source = scast (r_Source req),
     ta_Event = scast (ParsePeerEvent (r_Event req)),
     ta_Port = of_int (r_Port req),
     ta_Compact = (r_Compact req = 1)\<rparr>"

definition PeerIDLToCommon :: "trunker_Peer \<Rightarrow> Peer" where
  "PeerIDLToCommon p = \<lparr>
     p_IP = tp_Ip p,
     p_IPv4 = tp_Ipv4 p,
     p_IPv6 = tp_Ipv6 p,
     p_ClientIP = tp_ClientIp p,
     p_LastSeen = of_Unix (tp_LastSeen p),
     p_Offers = map OfferIDLToCommon (tp_Offers p),
     p_ID = tp_Id p,
     p_UserAgent = tp_UserAgent p,
     p_Port = sint (tp_Port p),
     p_Left = tp_Left p,
     p_Uploaded = tp_Uploaded p,
     p_Downloaded = tp_Downloaded p,
     p_Conn = None,
     p_Type = ucast (tp_Type p),
     p_Event = ucast (tp_Event p),
     p_Source = ucast (tp_Source p)\<rparr>"

definition PeerCommonToIDL :: "Peer \<Rightarrow> trunker_Peer" where
  "PeerCommonToIDL p = \<lparr>
     tp_Ip = p_IP p,
     tp_Ipv4 = p_IPv4 p,
     tp_Ipv6 = p_IPv6 p,
     tp_ClientIp = p_ClientIP p,
     tp_LastSeen = time_Unix (p_LastSeen p),
     tp_Offers = map OfferCommonToIDL (p_Offers p),
     tp_Id = p_ID p,
     tp_UserAgent = p_UserAgent p,
     tp_Port = of_int (p_Port p),
     tp_Uploaded = p_Uploaded p,
     tp_Downloaded = p_Downloaded p,
     tp_Left = p_Left p,
     tp_Type = scast (p_Type p),
     tp_Event = scast (p_Event p),
     tp_Source = scast (p_Source p)\<rparr>"

text \<open>The server side.\<close>

definition announceRequestIDLToCommon :: "(idl_enum \<Rightarrow> string) \<Rightarrow> trunker_AnnounceRequest \<Rightarrow> AnnounceRequest" where
  "announceRequestIDLToCommon eventString req = \<lparr>
     r_ClientIP = ta_ClientIp req,
     r_InfoHash = ta_InfoHash req,
     r_PeerID = ta_PeerId req,
     r_Event = eventString (ta_Event req),
     r_UserAgent = [],
     r_IP = ta_Ip req,
     r_IPv4 = ta_Ipv4 req,
     r_IPv6 = ta_Ipv6 req,
     r_Port = sint (ta_Port req),
     r_Uploaded = ta_Uploaded req,
     r_Downloaded = ta_Downloaded req,
     r_Left = ta_Left req,
     r_NumWant = ta_NumWant req,
     r_Type = ucast (ta_Type req),
     r_Compact = (if ta_Compact req then 1 else 0),
     r_Source = ucast (ta_Source req),
     r_Offers = map OfferIDLToCommon (ta_Offers req),
     r_Conn = None\<rparr>"

definition srv_peerCommonToIDL :: "Peer \<Rightarrow> trunker_Peer" where
  "srv_peerCommonToIDL p = \<lparr>
     tp_Ip = p_IP p,
     tp_Ipv4 = p_IPv4 p,
     tp_Ipv6 = p_IPv6 p,
     tp_ClientIp = p_ClientIP p,
     tp_LastSeen = time_Unix (p_LastSeen p),
     tp_Offers = map OfferCommonToIDL (p_Offers p),
     tp_Id = p_ID p,
     tp_UserAgent = p_UserAgent p,
     tp_Port = of_int (p_Port p),
     tp_Uploaded = p_Uploaded p,
     tp_Downloaded = p_Downloaded p,
     tp_Left = p_Left p,
     tp_Type = scast (p_Type p),
     tp_Event = scast (p_Event p),
     tp_Source = scast (p_Source p)\<rparr>"

section \<open>Over the wire and back\<close>

definition event_names :: "(idl_enum \<Rightarrow> string) \<Rightarrow> bool" where
  "event_names eventString \<longleftrightarrow>
     eventString 0 = ''unknown'' \<and> eventString 1 = ''started'' \<and> eventString 2 = ''stopped'' \<and>
     eventString 3 = ''completed''"

text \<open>What is left of a port, of a peer and of a request.\<close>

definition wire_port :: "int \<Rightarrow> int" where
  "wire_port n = sint (of_int n :: int32)"

definition wire_peer :: "Peer \<Rightarrow> Peer" where
  "wire_peer p = p\<lparr>p_LastSeen := of_Unix (time_Unix (p_LastSeen p)), p_Port := wire_port (p_Port p), p_Conn := None\<rparr>"

definition wire_request :: "AnnounceRequest \<Rightarrow> AnnounceRequest" where
  "wire_request req = req\<lparr>r_UserAgent := [], r_Conn := None, r_Port := wire_port (r_Port req),
     r_Compact := (if r_Compact req = 1 then 1 else 0),
     r_Event := PeerEvent_String (ParsePeerEvent (r_Event req))\<rparr>"

lemma wire_port_id: "- (2 ^ 31) \<le> n \<Longrightarrow> n < 2 ^ 31 \<Longrightarrow> wire_port n = n"
  by (simp add: wire_port_def signed_of_int signed_take_bit_int_eq_self)

lemma ucast_scast_byte [simp]: "(ucast (scast (w :: 8 word) :: idl_enum) :: 8 word) = w"
  by (rule bit_word_eqI) (simp add: bit_simps)

lemma OfferIDLToCommon_inverse [simp]: "OfferIDLToCommon (OfferCommonToIDL o') = o'"
  by (cases o') (simp add: OfferIDLToCommon_def OfferCommonToIDL_def)

lemma map_offers_inverse [simp]: "map (OfferIDLToCommon \<circ> OfferCommonToIDL) os = os"
  by (simp add: comp_def)

lemma srv_peerCommonToIDL_eq: "srv_peerCommonToIDL = PeerCommonToIDL"
  by (simp add: fun_eq_iff srv_peerCommonToIDL_def PeerCommonToIDL_def)

lemma PeerIDLToCommon_inverse [simp]: "PeerIDLToCommon (PeerCommonToIDL p) = wire_peer p"
  by (simp add: PeerIDLToCommon_def PeerCommonToIDL_def wire_peer_def wire_port_def)

lemma event_over_wire:
  assumes "event_names eventString"
  shows "eventString (scast (ParsePeerEvent s)) = PeerEvent_String (ParsePeerEvent s)"
proof -
  have "(scast (2 :: 8 word) :: idl_enum) = 2" "(scast (3 :: 8 word) :: idl_enum) = 3" by simp_all
  with assms show ?thesis
    by (auto simp: event_names_def ParsePeerEvent_def PeerEvent_String_def PeerEvent_defs)
qed

lemma announceRequest_over_wire:
  assumes "event_names eventString"
  shows "announceRequestIDLToCommon eventString (announceRequestCommonToIDL req) = wire_request req"
  using event_over_wire [OF assms]
  by (simp add: announceRequestIDLToCommon_def announceRequestCommonToIDL_def wire_request_def wire_port_def)

text \<open>The way over the wire loses nothing a second time, and keeps how the event is read.\<close>

lemma wire_peer_idem [simp]: "wire_peer (wire_peer p) = wire_peer p"
  by (simp add: wire_peer_def wire_port_def of_Unix_def time_Unix_def)

lemma wire_request_event [simp]: "ParsePeerEvent (r_Event (wire_request req)) = ParsePeerEvent (r_Event req)"
  by (simp add: wire_request_def ParsePeerEvent_String) (simp add: ParsePeerEvent_def)

lemma wire_peer_simps [simp]:
  "p_ID (wire_peer p) = p_ID p" "GetKey (wire_peer p) = GetKey p" "p_Event (wire_peer p) = p_Event p"
  "p_Left (wire_peer p) = p_Left p" "p_Type (wire_peer p) = p_Type p" "GetIP cfg (wire_peer p) = GetIP cfg p"
  by (simp_all add: wire_peer_def GetKey_def GetIP_def cong: if_cong)

end
