(* ===== verification/Mapx.thy ===== *)
theory Mapx
  imports Prelude
begin

text \<open>
  The string maps of \<^verbatim>\<open>utils/collections/mapx\<close>. The Go interface \<^verbatim>\<open>SyncStringMap[V]\<close>
  (\<^verbatim>\<open>interface.go\<close>) is a record of its methods; what its users rely on is the locale
  \<open>sync_string_map\<close>. The managers take the record as an argument, since their maps are made by
  \<^verbatim>\<open>NewSkipMap\<close>, whose implementation is a package outside the repository. The repository's own
  implementation of the interface, \<^verbatim>\<open>Map[K, V]\<close> (\<^verbatim>\<open>sync.go\<close>), a \<^verbatim>\<open>sync.Map\<close> with a
  separately maintained length counter, is modelled in full and shown to satisfy the contract.
\<close>

section \<open>The interface\<close>

text \<open>
  A method that changes the map returns the new map beside its results. \<open>sm_Range\<close> gives the
  entries in the order in which the \<^verbatim>\<open>Range\<close> method offers them to its callback; the callback
  loop itself is \<open>go_range\<close>. \<open>sm_New\<close> is the constructor.
\<close>

record ('m, 'k, 'v) SyncMap =
  sm_New :: 'm
  sm_Delete :: "'m \<Rightarrow> 'k \<Rightarrow> 'm \<times> bool"
  sm_Load :: "'m \<Rightarrow> 'k \<Rightarrow> 'v option"
  sm_LoadAndDelete :: "'m \<Rightarrow> 'k \<Rightarrow> 'm \<times> 'v option"
  sm_LoadOrStore :: "'m \<Rightarrow> 'k \<Rightarrow> 'v \<Rightarrow> 'm \<times> 'v \<times> bool"
  sm_LoadOrStoreLazy :: "'m \<Rightarrow> 'k \<Rightarrow> (unit \<Rightarrow> 'v) \<Rightarrow> 'm \<times> 'v \<times> bool"
  sm_Range :: "'m \<Rightarrow> ('k \<times> 'v) list"
  sm_Store :: "'m \<Rightarrow> 'k \<Rightarrow> 'v \<Rightarrow> 'm"
  sm_Len :: "'m \<Rightarrow> int"

type_synonym ('m, 'v) SyncStringMap = "('m, string, 'v) SyncMap"

text \<open>
  The contract. Everything is stated through the lookup function of the map: what each method
  returns and what lookups give afterwards. \<open>minv\<close> is the representation invariant.
\<close>

locale sync_map =
  fixes M :: "('m, 'k, 'v) SyncMap"
    and minv :: "'m \<Rightarrow> bool"
  assumes minv_New: "minv (sm_New M)"
    and Load_New: "sm_Load M (sm_New M) = Map.empty"
    and minv_Delete: "minv m \<Longrightarrow> minv (fst (sm_Delete M m k))"
    and Load_Delete: "minv m \<Longrightarrow> sm_Load M (fst (sm_Delete M m k)) = (sm_Load M m)(k := None)"
    and Delete_found: "minv m \<Longrightarrow> snd (sm_Delete M m k) \<longleftrightarrow> sm_Load M m k \<noteq> None"
    and LoadAndDelete_fst: "minv m \<Longrightarrow> fst (sm_LoadAndDelete M m k) = fst (sm_Delete M m k)"
    and LoadAndDelete_snd: "minv m \<Longrightarrow> snd (sm_LoadAndDelete M m k) = sm_Load M m k"
    and minv_Store: "minv m \<Longrightarrow> minv (sm_Store M m k v)"
    and Load_Store: "minv m \<Longrightarrow> sm_Load M (sm_Store M m k v) = (sm_Load M m)(k \<mapsto> v)"
    and LoadOrStore_old: "minv m \<Longrightarrow> sm_Load M m k = Some u \<Longrightarrow> sm_LoadOrStore M m k v = (m, u, True)"
    and LoadOrStore_new: "minv m \<Longrightarrow> sm_Load M m k = None \<Longrightarrow>
           sm_LoadOrStore M m k v = (sm_Store M m k v, v, False)"
    and LoadOrStoreLazy: "minv m \<Longrightarrow> sm_LoadOrStoreLazy M m k g = sm_LoadOrStore M m k (g ())"
    and Range_distinct: "minv m \<Longrightarrow> distinct (map fst (sm_Range M m))"
    and Range_Load: "minv m \<Longrightarrow> map_of (sm_Range M m) = sm_Load M m"
    and Len_Range: "minv m \<Longrightarrow> sm_Len M m = int (length (sm_Range M m))"
begin

lemma set_Range: "minv m \<Longrightarrow> (k, v) \<in> set (sm_Range M m) \<longleftrightarrow> sm_Load M m k = Some v"
  using Range_distinct [of m] Range_Load [of m] by (metis map_of_eq_Some_iff)

lemma dom_Load: "minv m \<Longrightarrow> dom (sm_Load M m) = fst ` set (sm_Range M m)"
  by (metis Range_Load dom_map_of_conv_image_fst)

lemma finite_Load [simp]: "minv m \<Longrightarrow> finite (dom (sm_Load M m))"
  by (simp add: dom_Load)

lemma Len_card: "minv m \<Longrightarrow> sm_Len M m = int (card (dom (sm_Load M m)))"
  using distinct_card [OF Range_distinct [of m]] by (simp add: Len_Range dom_Load)

lemma Range_New [simp]: "sm_Range M (sm_New M) = []"
  using Range_Load [OF minv_New] Load_New by (metis map_of_eq_empty_iff)

lemma Len_New [simp]: "sm_Len M (sm_New M) = 0"
  by (simp add: Len_Range minv_New)

lemma minv_LoadOrStore: "minv m \<Longrightarrow> minv (fst (sm_LoadOrStore M m k v))"
  by (cases "sm_Load M m k") (simp_all add: LoadOrStore_old LoadOrStore_new minv_Store)

lemma Load_LoadOrStore:
  "minv m \<Longrightarrow> sm_Load M (fst (sm_LoadOrStore M m k v)) =
     (case sm_Load M m k of None \<Rightarrow> (sm_Load M m)(k \<mapsto> v) | Some _ \<Rightarrow> sm_Load M m)"
  by (cases "sm_Load M m k") (simp_all add: LoadOrStore_old LoadOrStore_new Load_Store)

lemma minv_LoadAndDelete: "minv m \<Longrightarrow> minv (fst (sm_LoadAndDelete M m k))"
  by (simp add: LoadAndDelete_fst minv_Delete)

lemma Load_LoadAndDelete:
  "minv m \<Longrightarrow> sm_Load M (fst (sm_LoadAndDelete M m k)) = (sm_Load M m)(k := None)"
  by (simp add: LoadAndDelete_fst Load_Delete)

lemma Len_Store_le: "minv m \<Longrightarrow> sm_Len M (sm_Store M m k v) \<le> sm_Len M m + 1"
  by (simp add: Len_card minv_Store Load_Store card_insert_if)

lemma Len_Delete_le: "minv m \<Longrightarrow> sm_Len M (fst (sm_Delete M m k)) \<le> sm_Len M m"
  by (simp add: Len_card minv_Delete Load_Delete card_Diff1_le)

lemma Len_eq_0_iff: "minv m \<Longrightarrow> sm_Len M m = 0 \<longleftrightarrow> sm_Load M m = Map.empty"
  by (simp add: Len_card)

lemmas minv_rules [intro] = minv_New minv_Delete minv_Store minv_LoadOrStore minv_LoadAndDelete

lemmas Load_rules = Load_New Load_Delete Load_Store Load_LoadOrStore Load_LoadAndDelete
  LoadAndDelete_snd

end

section \<open>The implementation over sync.Map\<close>

text \<open>
  \<^verbatim>\<open>sync.Map\<close> of the standard library: a map with atomic methods, here its entries as an
  association list. The wrapper counts them in \<^verbatim>\<open>length\<close> by atomic adds (an \<^verbatim>\<open>int64\<close> in the
  source, which no map in memory can overflow; an integer here).
\<close>

record ('k, 'v) Map =
  m_m :: "('k \<times> 'v) list"
  m_length :: int

definition NewSyncMap :: "('k, 'v) Map" where
  "NewSyncMap = \<lparr>m_m = [], m_length = 0\<rparr>"

definition Map_Delete :: "('k, 'v) Map \<Rightarrow> 'k \<Rightarrow> ('k, 'v) Map \<times> bool" where
  "Map_Delete m key =
     (let ok = map_of (m_m m) key \<noteq> None;
          m' = m\<lparr>m_m := AList.delete key (m_m m)\<rparr>
      in (if ok then m'\<lparr>m_length := m_length m' + (-1)\<rparr> else m', ok))"

definition Map_Load :: "('k, 'v) Map \<Rightarrow> 'k \<Rightarrow> 'v option" where
  "Map_Load m key = map_of (m_m m) key"

definition Map_LoadAndDelete :: "('k, 'v) Map \<Rightarrow> 'k \<Rightarrow> ('k, 'v) Map \<times> 'v option" where
  "Map_LoadAndDelete m key =
     (let v = map_of (m_m m) key;
          m' = m\<lparr>m_m := AList.delete key (m_m m)\<rparr>
      in case v of
           Some w \<Rightarrow> (m'\<lparr>m_length := m_length m' + (-1)\<rparr>, Some w)
         | None \<Rightarrow> (m', None))"

definition Map_LoadOrStore :: "('k, 'v) Map \<Rightarrow> 'k \<Rightarrow> 'v \<Rightarrow> ('k, 'v) Map \<times> 'v \<times> bool" where
  "Map_LoadOrStore m key value =
     (case map_of (m_m m) key of
        Some a \<Rightarrow> (m, a, True)
      | None \<Rightarrow>
          (m\<lparr>m_m := AList.update key value (m_m m), m_length := m_length m + 1\<rparr>, value, False))"

definition Map_Range :: "('k, 'v) Map \<Rightarrow> ('k \<times> 'v) list" where
  "Map_Range m = m_m m"

definition Map_Store :: "('k, 'v) Map \<Rightarrow> 'k \<Rightarrow> 'v \<Rightarrow> ('k, 'v) Map" where
  "Map_Store m key value =
     (case map_of (m_m m) key of
        None \<Rightarrow> m\<lparr>m_m := AList.update key value (m_m m), m_length := m_length m + 1\<rparr>
      | Some _ \<Rightarrow> m\<lparr>m_m := AList.update key value (m_m m)\<rparr>)"

definition Map_LoadOrStoreLazy ::
  "('k, 'v) Map \<Rightarrow> 'k \<Rightarrow> (unit \<Rightarrow> 'v) \<Rightarrow> ('k, 'v) Map \<times> 'v \<times> bool" where
  "Map_LoadOrStoreLazy m key lazy =
     (case map_of (m_m m) key of
        Some v \<Rightarrow> (m, v, True)
      | None \<Rightarrow>
          (let v = lazy () in
           case map_of (m_m m) key of
             Some a \<Rightarrow> (m, a, True)
           | None \<Rightarrow>
               (m\<lparr>m_m := AList.update key v (m_m m), m_length := m_length m + 1\<rparr>, v, False)))"

definition Map_Len :: "('k, 'v) Map \<Rightarrow> int" where
  "Map_Len m = m_length m"

definition MapOps :: "(('k, 'v) Map, 'k, 'v) SyncMap" where
  "MapOps = \<lparr>sm_New = NewSyncMap, sm_Delete = Map_Delete, sm_Load = Map_Load,
     sm_LoadAndDelete = Map_LoadAndDelete, sm_LoadOrStore = Map_LoadOrStore,
     sm_LoadOrStoreLazy = Map_LoadOrStoreLazy, sm_Range = Map_Range, sm_Store = Map_Store,
     sm_Len = Map_Len\<rparr>"

section \<open>The implementation satisfies the contract\<close>

text \<open>The counter is the number of entries, and no key occurs twice.\<close>

definition map_ok :: "('k, 'v) Map \<Rightarrow> bool" where
  "map_ok m \<longleftrightarrow> distinct (map fst (m_m m)) \<and> m_length m = int (length (m_m m))"

lemma length_update_new:
  "map_of al k = None \<Longrightarrow> length (AList.update k v al) = Suc (length al)"
  by (induction al) (auto split: if_splits)

lemma length_update_old:
  "map_of al k = Some u \<Longrightarrow> length (AList.update k v al) = length al"
  by (induction al) (auto split: if_splits)

lemma length_delete_old:
  "distinct (map fst al) \<Longrightarrow> map_of al k = Some u \<Longrightarrow> Suc (length (AList.delete k al)) = length al"
proof (induction al)
  case (Cons p al)
  show ?case
  proof (cases "fst p = k")
    case True
    with Cons.prems(1) have "k \<notin> fst ` set al" by auto
    then have "AList.delete k al = al"
      by (simp add: delete_id)
    with True show ?thesis by (cases p) simp
  next
    case False
    with Cons.prems have "map_of al k = Some u" by (cases p) auto
    with Cons False show ?thesis by (cases p) auto
  qed
qed simp

lemma delete_missing: "map_of al k = None \<Longrightarrow> AList.delete k al = al"
  by (simp add: delete_id map_of_eq_None_iff)

lemmas Map_defs = NewSyncMap_def Map_Delete_def Map_Load_def Map_LoadAndDelete_def
  Map_LoadOrStore_def Map_LoadOrStoreLazy_def Map_Range_def Map_Store_def Map_Len_def

lemma map_ok_Delete: "map_ok m \<Longrightarrow> map_ok (fst (Map_Delete m k))"
proof (cases "map_of (m_m m) k")
  case None
  assume "map_ok m"
  with None show ?thesis by (simp add: map_ok_def Map_Delete_def delete_missing)
next
  case (Some u)
  assume "map_ok m"
  with Some show ?thesis
    using length_delete_old [of "m_m m" k u]
    by (simp add: map_ok_def Map_Delete_def distinct_delete)
qed

lemma map_ok_Store: "map_ok m \<Longrightarrow> map_ok (Map_Store m k v)"
  by (auto simp: map_ok_def Map_Store_def distinct_update length_update_new length_update_old
      split: option.splits)

interpretation syncmap: sync_map MapOps map_ok
proof
  show "map_ok (sm_New MapOps)" by (simp add: MapOps_def NewSyncMap_def map_ok_def)
  show "sm_Load MapOps (sm_New MapOps) = Map.empty" by (auto simp: MapOps_def Map_defs)
next
  fix m :: "('a, 'b) Map" and k v u g
  assume ok: "map_ok m"
  show "map_ok (fst (sm_Delete MapOps m k))" using ok by (simp add: MapOps_def map_ok_Delete)
  show "map_ok (sm_Store MapOps m k v)" using ok by (simp add: MapOps_def map_ok_Store)
  show "sm_Load MapOps (fst (sm_Delete MapOps m k)) = (sm_Load MapOps m)(k := None)"
    by (auto simp: MapOps_def Map_defs Let_def delete_conv')
  show "snd (sm_Delete MapOps m k) \<longleftrightarrow> sm_Load MapOps m k \<noteq> None"
    by (simp add: MapOps_def Map_defs Let_def)
  show "fst (sm_LoadAndDelete MapOps m k) = fst (sm_Delete MapOps m k)"
    by (simp add: MapOps_def Map_defs Let_def split: option.splits)
  show "snd (sm_LoadAndDelete MapOps m k) = sm_Load MapOps m k"
    by (simp add: MapOps_def Map_defs Let_def split: option.splits)
  show "sm_Load MapOps (sm_Store MapOps m k v) = (sm_Load MapOps m)(k \<mapsto> v)"
    by (auto simp: MapOps_def Map_defs update_conv' split: option.splits)
  show "sm_LoadOrStore MapOps m k v = (m, u, True)" if "sm_Load MapOps m k = Some u"
    using that by (simp add: MapOps_def Map_defs)
  show "sm_LoadOrStore MapOps m k v = (sm_Store MapOps m k v, v, False)"
    if "sm_Load MapOps m k = None"
    using that by (simp add: MapOps_def Map_defs)
  show "sm_LoadOrStoreLazy MapOps m k g = sm_LoadOrStore MapOps m k (g ())"
    by (simp add: MapOps_def Map_defs Let_def split: option.splits)
  show "distinct (map fst (sm_Range MapOps m))" using ok by (simp add: MapOps_def Map_defs map_ok_def)
  show "map_of (sm_Range MapOps m) = sm_Load MapOps m" by (auto simp: MapOps_def Map_defs)
  show "sm_Len MapOps m = int (length (sm_Range MapOps m))"
    using ok by (simp add: MapOps_def Map_defs map_ok_def)
qed

end
