(* ===== verification/Local_Root.thy ===== *)
theory Local_Root
  imports Peer_Common Mapx
begin

text \<open>
  The peer table of one torrent in memory mode: \<^verbatim>\<open>InfoHashRoot\<close> of
  \<^verbatim>\<open>biz/services/peer/local/local.go\<close>. It keeps three string maps in an array: peers are stored
  in the active one, the one before it is read-only, the third is kept empty, and a rotation moves
  the write head and empties the oldest. The invariant \<open>root_ok\<close> says just that, and that no peer
  is in two maps; under it the three maps together behave as one map from peer identifiers to
  peers (\<open>root_view\<close>), which is the specification of every operation.
\<close>

section \<open>The operations\<close>

record 'pm InfoHashRoot =
  peerMap :: "'pm list" \<comment> \<open>an array of three maps\<close>
  lastClean :: gotime
  infoHash :: string
  currentActive :: nat

definition NewInfoHashRoot :: "('pm, Peer) SyncStringMap \<Rightarrow> gotime \<Rightarrow> string \<Rightarrow> 'pm InfoHashRoot" where
  "NewInfoHashRoot M now ih =
     \<lparr>peerMap = [sm_New M, sm_New M, sm_New M], lastClean = now, infoHash = ih, currentActive = 0\<rparr>"

fun Load_loop :: "('pm, Peer) SyncStringMap \<Rightarrow> 'pm list \<Rightarrow> string \<Rightarrow> Peer option" where
  "Load_loop M [] key = None"
| "Load_loop M (m # ms) key = (case sm_Load M m key of Some v \<Rightarrow> Some v | None \<Rightarrow> Load_loop M ms key)"

definition Root_Load :: "('pm, Peer) SyncStringMap \<Rightarrow> 'pm InfoHashRoot \<Rightarrow> string \<Rightarrow> Peer option" where
  "Root_Load M i key = Load_loop M (peerMap i) key"

fun LoadAndDelete_loop ::
  "('pm, Peer) SyncStringMap \<Rightarrow> 'pm list \<Rightarrow> string \<Rightarrow> Peer option \<Rightarrow> 'pm list \<times> Peer option" where
  "LoadAndDelete_loop M [] key foundPeer = ([], foundPeer)"
| "LoadAndDelete_loop M (m # ms) key foundPeer =
     (case sm_LoadAndDelete M m key of
        (m', v) \<Rightarrow>
          (let foundPeer' =
             (case v of
                None \<Rightarrow> foundPeer
              | Some w \<Rightarrow>
                  (case foundPeer of
                     None \<Rightarrow> Some w
                   | Some f \<Rightarrow> if p_LastSeen w > p_LastSeen f then Some w else Some f))
           in case LoadAndDelete_loop M ms key foundPeer' of (ms', f) \<Rightarrow> (m' # ms', f)))"

definition Root_LoadAndDelete ::
  "('pm, Peer) SyncStringMap \<Rightarrow> 'pm InfoHashRoot \<Rightarrow> string \<Rightarrow> 'pm InfoHashRoot \<times> Peer option" where
  "Root_LoadAndDelete M i key =
     (case LoadAndDelete_loop M (peerMap i) key None of (ms, f) \<Rightarrow> (i\<lparr>peerMap := ms\<rparr>, f))"

text \<open>
  \<^verbatim>\<open>result = result || peerMap.Delete(key)\<close>: once a map held the key, the later maps are not
  asked any more.
\<close>

fun Delete_loop :: "('pm, Peer) SyncStringMap \<Rightarrow> 'pm list \<Rightarrow> string \<Rightarrow> bool \<Rightarrow> 'pm list \<times> bool" where
  "Delete_loop M [] key result = ([], result)"
| "Delete_loop M (m # ms) key result =
     (case (if result then (m, True) else sm_Delete M m key) of
        (m', result') \<Rightarrow>
          (case Delete_loop M ms key result' of (ms', r) \<Rightarrow> (m' # ms', r)))"

definition Root_Delete ::
  "('pm, Peer) SyncStringMap \<Rightarrow> 'pm InfoHashRoot \<Rightarrow> string \<Rightarrow> 'pm InfoHashRoot \<times> bool" where
  "Root_Delete M i key =
     (case Delete_loop M (peerMap i) key False of (ms, r) \<Rightarrow> (i\<lparr>peerMap := ms\<rparr>, r))"

definition activeMap :: "'pm InfoHashRoot \<Rightarrow> 'pm" where
  "activeMap i = peerMap i ! currentActive i"

definition set_activeMap :: "'pm \<Rightarrow> 'pm InfoHashRoot \<Rightarrow> 'pm InfoHashRoot" where
  "set_activeMap m i = i\<lparr>peerMap := (peerMap i)[currentActive i := m]\<rparr>"

definition Root_LoadOrStore ::
  "('pm, Peer) SyncStringMap \<Rightarrow> 'pm InfoHashRoot \<Rightarrow> string \<Rightarrow> Peer \<Rightarrow> 'pm InfoHashRoot \<times> Peer \<times> bool" where
  "Root_LoadOrStore M i key peer =
     (case sm_LoadOrStore M (activeMap i) key peer of (m, r) \<Rightarrow> (set_activeMap m i, r))"

definition Root_Store ::
  "('pm, Peer) SyncStringMap \<Rightarrow> 'pm InfoHashRoot \<Rightarrow> string \<Rightarrow> Peer \<Rightarrow> 'pm InfoHashRoot" where
  "Root_Store M i key peer = set_activeMap (sm_Store M (activeMap i) key peer) i"

definition Root_Len :: "('pm, Peer) SyncStringMap \<Rightarrow> 'pm InfoHashRoot \<Rightarrow> int" where
  "Root_Len M i = foldl (\<lambda>count s. count + sm_Len M s) 0 (peerMap i)"

definition Root_Range ::
  "('pm, Peer) SyncStringMap \<Rightarrow> ('s \<Rightarrow> string \<times> Peer \<Rightarrow> 's \<times> bool) \<Rightarrow> 'pm InfoHashRoot \<Rightarrow> 's \<Rightarrow> 's" where
  "Root_Range M f i s = foldl (\<lambda>s m. go_range f (sm_Range M m) s) s (peerMap i)"

text \<open>
  The rotation at the end of an announce: when the active map has outgrown half the limit, the
  write head moves on and the map after it is replaced by an empty one.
\<close>

definition Root_rotate :: "('pm, Peer) SyncStringMap \<Rightarrow> Config \<Rightarrow> 'pm InfoHashRoot \<Rightarrow> 'pm InfoHashRoot" where
  "Root_rotate M cfg root =
     (if sm_Len M (activeMap root) > go_div (mem_MaxPeersPerTorrent (t_Memory (c_Tracker cfg))) 2 then
        (let current = currentActive root in
         root\<lparr>currentActive := (current + 1) mod 3,
              peerMap := (peerMap root)[(current + 2) mod 3 := sm_New M]\<rparr>)
      else root)"

text \<open>The map a rotation empties, and when one happens.\<close>

definition oldestMap :: "'pm InfoHashRoot \<Rightarrow> 'pm" where
  "oldestMap i = peerMap i ! ((currentActive i + 2) mod 3)"

definition rotates :: "('pm, Peer) SyncStringMap \<Rightarrow> Config \<Rightarrow> 'pm InfoHashRoot \<Rightarrow> bool" where
  "rotates M cfg i \<longleftrightarrow>
     sm_Len M (activeMap i) > go_div (mem_MaxPeersPerTorrent (t_Memory (c_Tracker cfg))) 2"

section \<open>The invariant and the view\<close>

definition root_view :: "('pm, Peer) SyncStringMap \<Rightarrow> 'pm InfoHashRoot \<Rightarrow> (string \<rightharpoonup> Peer)" where
  "root_view M i = Root_Load M i"

text \<open>All entries in the order in which \<open>Root_Range\<close> offers them.\<close>

definition root_entries :: "('pm, Peer) SyncStringMap \<Rightarrow> 'pm InfoHashRoot \<Rightarrow> (string \<times> Peer) list" where
  "root_entries M i = concat (map (sm_Range M) (peerMap i))"

definition root_ok :: "('pm, Peer) SyncStringMap \<Rightarrow> ('pm \<Rightarrow> bool) \<Rightarrow> 'pm InfoHashRoot \<Rightarrow> bool" where
  "root_ok M minv i \<longleftrightarrow>
     length (peerMap i) = 3 \<and> currentActive i < 3 \<and> list_all minv (peerMap i) \<and>
     (\<forall>a < 3. \<forall>b < 3. a \<noteq> b \<longrightarrow>
        dom (sm_Load M (peerMap i ! a)) \<inter> dom (sm_Load M (peerMap i ! b)) = {}) \<and>
     sm_Load M (peerMap i ! ((currentActive i + 1) mod 3)) = Map.empty \<and>
     (\<forall>k p. root_view M i k = Some p \<longrightarrow> GetKey p = k)"

locale root_maps = sync_map M minv
  for M :: "('pm, string, Peer) SyncMap" and minv :: "'pm \<Rightarrow> bool"
begin

lemma root_ok_maps:
  assumes "root_ok M minv i"
  obtains a b c where "peerMap i = [a, b, c]" "minv a" "minv b" "minv c"
    "dom (sm_Load M a) \<inter> dom (sm_Load M b) = {}"
    "dom (sm_Load M a) \<inter> dom (sm_Load M c) = {}"
    "dom (sm_Load M b) \<inter> dom (sm_Load M c) = {}"
proof -
  from assms have "length (peerMap i) = 3" by (simp add: root_ok_def)
  then obtain a b c where abc: "peerMap i = [a, b, c]"
    by (auto simp: numeral_eq_Suc length_Suc_conv)
  have disj: "dom (sm_Load M (peerMap i ! x)) \<inter> dom (sm_Load M (peerMap i ! y)) = {}"
    if "x < 3" "y < 3" "x \<noteq> y" for x y
    using assms that unfolding root_ok_def by blast
  from assms abc have "minv a" "minv b" "minv c" by (simp_all add: root_ok_def)
  with abc disj [of 0 1] disj [of 0 2] disj [of 1 2] show ?thesis
    by (intro that [of a b c]) simp_all
qed

lemma root_ok_disjoint:
  "root_ok M minv i \<Longrightarrow> a < 3 \<Longrightarrow> b < 3 \<Longrightarrow> a \<noteq> b \<Longrightarrow>
   dom (sm_Load M (peerMap i ! a)) \<inter> dom (sm_Load M (peerMap i ! b)) = {}"
  unfolding root_ok_def by blast

lemma less_3_cases: "(n::nat) < 3 \<Longrightarrow> n = 0 \<or> n = 1 \<or> n = 2"
  by auto

lemma all_less_3: "(\<forall>n < 3. P n) \<longleftrightarrow> P 0 \<and> P 1 \<and> P (2::nat)"
  using less_3_cases by auto

lemma root_ok_triple:
  assumes "peerMap i = [a, b, c]"
  shows "root_ok M minv i \<longleftrightarrow>
    minv a \<and> minv b \<and> minv c \<and> currentActive i < 3 \<and>
    dom (sm_Load M a) \<inter> dom (sm_Load M b) = {} \<and>
    dom (sm_Load M a) \<inter> dom (sm_Load M c) = {} \<and>
    dom (sm_Load M b) \<inter> dom (sm_Load M c) = {} \<and>
    sm_Load M ([a, b, c] ! ((currentActive i + 1) mod 3)) = Map.empty \<and>
    (\<forall>k p. root_view M i k = Some p \<longrightarrow> GetKey p = k)"
  using assms by (auto simp: root_ok_def all_less_3 Int_commute)

lemma root_view_triple:
  "peerMap i = [a, b, c] \<Longrightarrow>
   root_view M i = sm_Load M c ++ sm_Load M b ++ sm_Load M a"
  by (auto simp: root_view_def Root_Load_def map_add_def fun_eq_iff split: option.splits)

lemma root_ok_key: "root_ok M minv i \<Longrightarrow> root_view M i k = Some p \<Longrightarrow> p_ID p = k"
  by (simp add: root_ok_def GetKey_def)

text \<open>A new root is well formed and empty.\<close>

lemma root_ok_New: "root_ok M minv (NewInfoHashRoot M now ih)"
  by (auto simp: root_ok_def NewInfoHashRoot_def all_less_3 minv_New Load_New root_view_def Root_Load_def)

lemma root_view_New: "root_view M (NewInfoHashRoot M now ih) = Map.empty"
  by (auto simp: root_view_def Root_Load_def NewInfoHashRoot_def Load_New)

lemma finite_root_view [simp]: "root_ok M minv i \<Longrightarrow> finite (dom (root_view M i))"
  by (erule root_ok_maps) (simp add: root_view_triple)

text \<open>The three lengths add up to the number of peers.\<close>

lemma Root_Len_card: "root_ok M minv i \<Longrightarrow> Root_Len M i = int (card (dom (root_view M i)))"
proof (erule root_ok_maps)
  fix a b c
  assume abc: "peerMap i = [a, b, c]" and ok: "minv a" "minv b" "minv c"
    and disj: "dom (sm_Load M a) \<inter> dom (sm_Load M b) = {}" "dom (sm_Load M a) \<inter> dom (sm_Load M c) = {}"
      "dom (sm_Load M b) \<inter> dom (sm_Load M c) = {}"
  have "card (dom (root_view M i)) =
      card (dom (sm_Load M a)) + card (dom (sm_Load M b)) + card (dom (sm_Load M c))"
    using ok disj by (simp add: root_view_triple [OF abc] card_Un_disjoint Int_Un_distrib)
  then show ?thesis using ok by (simp add: Root_Len_def abc Len_card)
qed

text \<open>
  Removing a peer: whatever the new maps are, if each looks like the old one without the key,
  the root is well formed and its view lacks the key.
\<close>

lemma root_ok_without:
  assumes ok: "root_ok M minv i" and abc: "peerMap i = [a, b, c]" and r: "peerMap r = [a', b', c']"
    and act: "currentActive r = currentActive i"
    and m: "minv a'" "minv b'" "minv c'"
    and l: "sm_Load M a' = (sm_Load M a)(k := None)" "sm_Load M b' = (sm_Load M b)(k := None)"
      "sm_Load M c' = (sm_Load M c)(k := None)"
  shows "root_ok M minv r \<and> root_view M r = (root_view M i)(k := None)"
proof
  show view: "root_view M r = (root_view M i)(k := None)"
    by (auto simp: root_view_triple [OF abc] root_view_triple [OF r] l map_add_def
        fun_eq_iff split: option.splits)
  have "sm_Load M ([a', b', c'] ! ((currentActive i + 1) mod 3)) =
      (sm_Load M ([a, b, c] ! ((currentActive i + 1) mod 3)))(k := None)"
    using less_3_cases [of "currentActive i"] ok l by (auto simp: root_ok_def)
  with ok m show "root_ok M minv r"
    by (auto simp: root_ok_triple [OF r] root_ok_triple [OF abc] act view l split: if_splits)
qed

lemma fst_LoadAndDelete_loop:
  "fst (LoadAndDelete_loop M ms k f) = map (\<lambda>m. fst (sm_LoadAndDelete M m k)) ms"
  by (induction ms arbitrary: f) (simp_all add: prod.case_eq_if Let_def)

lemma Root_LoadAndDelete_spec:
  assumes ok: "root_ok M minv i"
  shows Root_LoadAndDelete_ok: "root_ok M minv (fst (Root_LoadAndDelete M i k))"
    and Root_LoadAndDelete_view: "root_view M (fst (Root_LoadAndDelete M i k)) = (root_view M i)(k := None)"
    and Root_LoadAndDelete_found: "snd (Root_LoadAndDelete M i k) = root_view M i k"
proof -
  from ok obtain a b c where abc: "peerMap i = [a, b, c]" and m: "minv a" "minv b" "minv c"
    and disj: "dom (sm_Load M a) \<inter> dom (sm_Load M b) = {}" "dom (sm_Load M a) \<inter> dom (sm_Load M c) = {}"
      "dom (sm_Load M b) \<inter> dom (sm_Load M c) = {}" by (rule root_ok_maps)
  let ?d = "\<lambda>m. fst (sm_LoadAndDelete M m k)"
  have "peerMap (fst (Root_LoadAndDelete M i k)) = [?d a, ?d b, ?d c]"
    using fst_LoadAndDelete_loop [of "[a, b, c]" k None]
    by (simp add: Root_LoadAndDelete_def abc prod.case_eq_if del: LoadAndDelete_loop.simps)
  moreover have "currentActive (fst (Root_LoadAndDelete M i k)) = currentActive i"
    by (simp add: Root_LoadAndDelete_def prod.case_eq_if)
  ultimately have "root_ok M minv (fst (Root_LoadAndDelete M i k)) \<and>
      root_view M (fst (Root_LoadAndDelete M i k)) = (root_view M i)(k := None)"
    using m by (intro root_ok_without [OF ok abc, where a' = "?d a" and b' = "?d b" and c' = "?d c"])
      (simp_all add: minv_LoadAndDelete Load_LoadAndDelete)
  then show "root_ok M minv (fst (Root_LoadAndDelete M i k))"
    and "root_view M (fst (Root_LoadAndDelete M i k)) = (root_view M i)(k := None)" by simp_all
  show "snd (Root_LoadAndDelete M i k) = root_view M i k"
    using disj m by (auto simp: Root_LoadAndDelete_def abc root_view_triple [OF abc] LoadAndDelete_snd
        map_add_def prod.case_eq_if Let_def split: option.splits)
qed

lemma Delete_loop_True [simp]: "Delete_loop M ms k True = (ms, True)"
  by (induction ms) simp_all

lemma Root_Delete_spec:
  assumes ok: "root_ok M minv i"
  shows Root_Delete_ok: "root_ok M minv (fst (Root_Delete M i k))"
    and Root_Delete_view: "root_view M (fst (Root_Delete M i k)) = (root_view M i)(k := None)"
    and Root_Delete_found: "snd (Root_Delete M i k) \<longleftrightarrow> root_view M i k \<noteq> None"
proof -
  from ok obtain a b c where abc: "peerMap i = [a, b, c]" and m: "minv a" "minv b" "minv c"
    and disj: "dom (sm_Load M a) \<inter> dom (sm_Load M b) = {}" "dom (sm_Load M a) \<inter> dom (sm_Load M c) = {}"
      "dom (sm_Load M b) \<inter> dom (sm_Load M c) = {}" by (rule root_ok_maps)
  let ?d = "\<lambda>m. fst (sm_Delete M m k)"
  let ?a = "?d a" and ?b = "if k \<in> dom (sm_Load M a) then b else ?d b"
  let ?c = "if k \<in> dom (sm_Load M a) \<union> dom (sm_Load M b) then c else ?d c"
  have maps: "Delete_loop M [a, b, c] k False =
      ([?a, ?b, ?c], k \<in> dom (sm_Load M a) \<union> dom (sm_Load M b) \<union> dom (sm_Load M c))"
    using Delete_found [OF m(1), of k] Delete_found [OF m(2), of k] Delete_found [OF m(3), of k]
    by (auto simp: prod.case_eq_if)
  have "k \<in> dom (sm_Load M a) \<Longrightarrow> sm_Load M b k = None"
    and "k \<in> dom (sm_Load M a) \<union> dom (sm_Load M b) \<Longrightarrow> sm_Load M c k = None"
    using disj by auto
  then have gone: "sm_Load M ?b = (sm_Load M b)(k := None)" "sm_Load M ?c = (sm_Load M c)(k := None)"
    using m by (simp_all add: Load_Delete fun_upd_idem)
  have "root_ok M minv (fst (Root_Delete M i k)) \<and>
      root_view M (fst (Root_Delete M i k)) = (root_view M i)(k := None)"
    using m gone
    by (intro root_ok_without [OF ok abc, where a' = ?a and b' = ?b and c' = ?c])
      (simp_all add: Root_Delete_def abc maps minv_Delete Load_Delete del: Delete_loop.simps)
  then show "root_ok M minv (fst (Root_Delete M i k))"
    and "root_view M (fst (Root_Delete M i k)) = (root_view M i)(k := None)" by simp_all
  show "snd (Root_Delete M i k) \<longleftrightarrow> root_view M i k \<noteq> None"
    by (auto simp: Root_Delete_def abc maps root_view_triple [OF abc] map_add_def
        simp del: Delete_loop.simps split: option.splits)
qed

text \<open>Storing a peer that the two other maps do not hold.\<close>

lemma Root_Store_spec:
  assumes ok: "root_ok M minv i" and key: "GetKey p = k"
    and free: "\<And>j. j < 3 \<Longrightarrow> j \<noteq> currentActive i \<Longrightarrow> sm_Load M (peerMap i ! j) k = None"
  shows Root_Store_ok: "root_ok M minv (Root_Store M i k p)"
    and Root_Store_view: "root_view M (Root_Store M i k p) = (root_view M i)(k \<mapsto> p)"
proof -
  from ok obtain a b c where abc: "peerMap i = [a, b, c]" and m: "minv a" "minv b" "minv c"
    and disj: "dom (sm_Load M a) \<inter> dom (sm_Load M b) = {}" "dom (sm_Load M a) \<inter> dom (sm_Load M c) = {}"
      "dom (sm_Load M b) \<inter> dom (sm_Load M c) = {}" by (rule root_ok_maps)
  let ?r = "Root_Store M i k p" and ?n = "currentActive i"
  let ?s = "\<lambda>j m. if ?n = j then sm_Store M m k p else m"
  from ok have n: "?n < 3" by (simp add: root_ok_def)
  have maps: "peerMap ?r = [?s 0 a, ?s 1 b, ?s 2 c]"
    using less_3_cases [OF n] by (auto simp: Root_Store_def set_activeMap_def activeMap_def abc)
  have act: "currentActive ?r = ?n" by (simp add: Root_Store_def set_activeMap_def)
  have l: "sm_Load M (?s j m') = (if ?n = j then (sm_Load M m')(k \<mapsto> p) else sm_Load M m')"
    if "minv m'" for j m' using that by (simp add: Load_Store)
  have fr: "?n \<noteq> 0 \<Longrightarrow> sm_Load M a k = None" "?n \<noteq> 1 \<Longrightarrow> sm_Load M b k = None"
    "?n \<noteq> 2 \<Longrightarrow> sm_Load M c k = None"
    using free [of 0] free [of 1] free [of 2] by (simp_all add: abc)
  show view: "root_view M ?r = (root_view M i)(k \<mapsto> p)"
    using less_3_cases [OF n] fr m
    by (auto simp: root_view_triple [OF abc] root_view_triple [OF maps] Load_Store map_add_def fun_eq_iff
        split: option.splits)
  have "[?s 0 a, ?s 1 b, ?s 2 c] ! ((?n + 1) mod 3) = [a, b, c] ! ((?n + 1) mod 3)"
    using less_3_cases [OF n] by auto
  then show "root_ok M minv ?r"
    unfolding root_ok_triple [OF maps] act
    using ok less_3_cases [OF n] fr m disj key
    by (auto simp: root_ok_triple [OF abc] view Load_Store minv_Store)
qed

lemma root_view_None_maps:
  assumes "root_ok M minv i" and "root_view M i k = None" and "j < 3"
  shows "sm_Load M (peerMap i ! j) k = None"
proof -
  from assms(1) obtain a b c where abc: "peerMap i = [a, b, c]" by (rule root_ok_maps)
  with assms(2) show ?thesis
    using less_3_cases [OF assms(3)] by (auto simp: root_view_triple [OF abc] map_add_None)
qed

lemma activeMap_inv: "root_ok M minv i \<Longrightarrow> minv (activeMap i)"
  by (auto simp: root_ok_def activeMap_def list_all_length)

lemma Root_LoadOrStore_new:
  assumes "root_ok M minv i" and "root_view M i k = None"
  shows "Root_LoadOrStore M i k p = (Root_Store M i k p, p, False)"
proof -
  from assms have "sm_Load M (activeMap i) k = None"
    unfolding activeMap_def by (intro root_view_None_maps) (simp_all add: root_ok_def)
  with activeMap_inv [OF assms(1)] show ?thesis
    by (simp add: Root_LoadOrStore_def Root_Store_def LoadOrStore_new)
qed

text \<open>Rotating: the peers of the oldest map go, all others stay.\<close>

lemma Root_rotate_spec:
  assumes ok: "root_ok M minv i"
  shows Root_rotate_ok: "root_ok M minv (Root_rotate M cfg i)"
    and Root_rotate_view: "root_view M (Root_rotate M cfg i) =
      (if rotates M cfg i then root_view M i |` (- dom (sm_Load M (oldestMap i))) else root_view M i)"
proof -
  from ok obtain a b c where abc: "peerMap i = [a, b, c]" and m: "minv a" "minv b" "minv c"
    and disj: "dom (sm_Load M a) \<inter> dom (sm_Load M b) = {}" "dom (sm_Load M a) \<inter> dom (sm_Load M c) = {}"
      "dom (sm_Load M b) \<inter> dom (sm_Load M c) = {}" by (rule root_ok_maps)
  let ?n = "currentActive i"
  from ok have n: "?n < 3" by (simp add: root_ok_def)
  define r where "r = i\<lparr>currentActive := (?n + 1) mod 3, peerMap := (peerMap i)[(?n + 2) mod 3 := sm_New M]\<rparr>"
  let ?w = "\<lambda>j m. if (?n + 2) mod 3 = j then sm_New M else m"
  have maps: "peerMap r = [?w 0 a, ?w 1 b, ?w 2 c]"
    using less_3_cases [OF n] by (auto simp: r_def abc)
  have act: "currentActive r = (?n + 1) mod 3" by (simp add: r_def)
  have view: "root_view M r = root_view M i |` (- dom (sm_Load M (oldestMap i)))"
    using less_3_cases [OF n] disj
    by (auto simp: root_view_triple [OF abc] root_view_triple [OF maps] Load_New map_add_def fun_eq_iff
        oldestMap_def abc restrict_map_def split: option.splits)
  have spare: "sm_Load M ([?w 0 a, ?w 1 b, ?w 2 c] ! (((?n + 1) mod 3 + 1) mod 3)) = Map.empty"
    using less_3_cases [OF n] by (auto simp: Load_New)
  have "root_ok M minv r"
    unfolding root_ok_triple [OF maps] act
    using spare ok m disj
    by (auto simp: root_ok_triple [OF abc] view Load_New minv_New restrict_map_def split: if_splits)
  with view show "root_ok M minv (Root_rotate M cfg i)"
    and "root_view M (Root_rotate M cfg i) =
      (if rotates M cfg i then root_view M i |` (- dom (sm_Load M (oldestMap i))) else root_view M i)"
    using ok by (simp_all add: Root_rotate_def rotates_def r_def Let_def)
qed

text \<open>Iteration visits every peer once.\<close>

lemma root_entries_triple:
  "peerMap i = [a, b, c] \<Longrightarrow> root_entries M i = sm_Range M a @ sm_Range M b @ sm_Range M c"
  by (simp add: root_entries_def)

lemma root_entries_view:
  assumes ok: "root_ok M minv i"
  shows root_entries_distinct: "distinct (map fst (root_entries M i))"
    and root_entries_map_of: "map_of (root_entries M i) = root_view M i"
proof -
  from ok obtain a b c where abc: "peerMap i = [a, b, c]" and m: "minv a" "minv b" "minv c"
    and disj: "dom (sm_Load M a) \<inter> dom (sm_Load M b) = {}" "dom (sm_Load M a) \<inter> dom (sm_Load M c) = {}"
      "dom (sm_Load M b) \<inter> dom (sm_Load M c) = {}" by (rule root_ok_maps)
  show "distinct (map fst (root_entries M i))"
    using disj m by (auto simp: root_entries_triple [OF abc] Range_distinct dom_Load [symmetric])
  show "map_of (root_entries M i) = root_view M i"
    using m by (simp add: root_entries_triple [OF abc] root_view_triple [OF abc] Range_Load)
qed

lemma root_entries_iff:
  "root_ok M minv i \<Longrightarrow> (k, p) \<in> set (root_entries M i) \<longleftrightarrow> root_view M i k = Some p"
  by (metis root_entries_view map_of_eq_Some_iff)

lemma Root_Range_fold:
  assumes "\<And>s x. snd (f s x)"
  shows "Root_Range M f i s = foldl (\<lambda>s x. fst (f s x)) s (root_entries M i)"
proof -
  have "foldl (\<lambda>s m. go_range f (sm_Range M m) s) s ms =
      foldl (\<lambda>s x. fst (f s x)) s (concat (map (sm_Range M) ms))" for ms
    by (induction ms arbitrary: s) (simp_all add: go_range_always assms)
  then show ?thesis by (simp add: Root_Range_def root_entries_def)
qed

lemma Root_Range_invariant:
  assumes "P s" and "\<And>s x. P s \<Longrightarrow> x \<in> set (root_entries M i) \<Longrightarrow> P (fst (f s x))"
  shows "P (Root_Range M f i s)"
proof -
  have "P (foldl (\<lambda>s m. go_range f (sm_Range M m) s) s ms)"
    if "set ms \<subseteq> set (peerMap i)" "P s" for ms s
    using that
  proof (induction ms arbitrary: s)
    case (Cons m ms)
    have "P (go_range f (sm_Range M m) s)"
      by (rule go_range_invariant) (use Cons.prems assms(2) in \<open>auto simp: root_entries_def\<close>)
    with Cons show ?case by simp
  qed simp
  then show ?thesis using assms(1) by (simp add: Root_Range_def)
qed

end

interpretation syncroot: root_maps MapOps map_ok
  by unfold_locales

end
