(* ===== verification/Cache.thy ===== *)
theory Cache
  imports Prelude
begin

text \<open>
  The cache helpers of \<^verbatim>\<open>service/cache/utils.go\<close> over a Redis client and the msgpack codec, both
  parameters: a client is a record of its commands on the server's state, a codec a pair of
  functions. What the tracker relies on is \<open>redis_laws\<close>: a value read back after a
  successful write is the value written.
\<close>

datatype redis_reply = RedisNil | RedisErr error | RedisVal string

record 'c RedisClient =
  rc_Get :: "'c \<Rightarrow> string \<Rightarrow> redis_reply"
  rc_Set :: "'c \<Rightarrow> string \<Rightarrow> string \<Rightarrow> int64 \<Rightarrow> 'c \<times> error option"
  rc_Del :: "'c \<Rightarrow> string \<Rightarrow> 'c \<times> error option"

record 'a Codec =
  co_Marshal :: "'a \<Rightarrow> string result"
  co_Unmarshal :: "string \<Rightarrow> 'a result"

definition cache_Get :: "'c RedisClient \<Rightarrow> 'a Codec \<Rightarrow> 'c \<Rightarrow> string \<Rightarrow> 'a option" where
  "cache_Get Client codec c key =
     (case rc_Get Client c key of
        RedisNil \<Rightarrow> None
      | RedisErr e \<Rightarrow> None
      | RedisVal str \<Rightarrow>
          if str = [] then None
          else (case co_Unmarshal codec str of Inl e \<Rightarrow> None | Inr value \<Rightarrow> Some value))"

text \<open>
  \<^verbatim>\<open>GetList\<close> ignores the client's error: \<^verbatim>\<open>Val()\<close> of a failed command is the empty string.
\<close>

definition cache_GetList :: "'c RedisClient \<Rightarrow> 'a list Codec \<Rightarrow> 'c \<Rightarrow> string \<Rightarrow> 'a list option" where
  "cache_GetList Client codec c key =
     (let str = (case rc_Get Client c key of RedisVal s \<Rightarrow> s | _ \<Rightarrow> []) in
      if str = [] then None
      else (case co_Unmarshal codec str of Inl e \<Rightarrow> None | Inr value \<Rightarrow> Some value))"

definition cache_Del :: "'c RedisClient \<Rightarrow> 'c \<Rightarrow> string \<Rightarrow> 'c \<times> error option" where
  "cache_Del Client c key = rc_Del Client c key"

definition cache_Set ::
  "'c RedisClient \<Rightarrow> 'a Codec \<Rightarrow> 'c \<Rightarrow> string \<Rightarrow> 'a \<Rightarrow> int64 \<Rightarrow> 'c \<times> error option" where
  "cache_Set Client codec c key value expired =
     (case co_Marshal codec value of
        Inl e \<Rightarrow> (c, Some e)
      | Inr str \<Rightarrow> rc_Set Client c key str expired)"

text \<open>What the documentation of Redis and msgpack promises.\<close>

definition redis_laws :: "'c RedisClient \<Rightarrow> 'a Codec \<Rightarrow> bool" where
  "redis_laws Client codec \<longleftrightarrow>
     (\<forall>c key str ex c'. rc_Set Client c key str ex = (c', None) \<longrightarrow>
        rc_Get Client c' key = RedisVal str \<and>
        (\<forall>key'. key' \<noteq> key \<longrightarrow> rc_Get Client c' key' = rc_Get Client c key')) \<and>
     (\<forall>v str. co_Marshal codec v = Inr str \<longrightarrow> str \<noteq> [] \<and> co_Unmarshal codec str = Inr v)"

lemma cache_Get_Set:
  assumes "redis_laws Client codec" and "cache_Set Client codec c key v ex = (c', None)"
  shows "cache_Get Client codec c' key = Some v"
proof -
  from assms(2) obtain str where m: "co_Marshal codec v = Inr str"
    and s: "rc_Set Client c key str ex = (c', None)"
    by (auto simp: cache_Set_def split: sum.splits)
  from assms(1) m have "str \<noteq> []" "co_Unmarshal codec str = Inr v"
    by (auto simp: redis_laws_def)
  moreover from assms(1) s have "rc_Get Client c' key = RedisVal str"
    by (simp add: redis_laws_def)
  ultimately show ?thesis by (simp add: cache_Get_def)
qed

lemma cache_Get_Set_other:
  assumes "redis_laws Client codec" and "cache_Set Client codec c key v ex = (c', None)" and "key' \<noteq> key"
  shows "cache_Get Client codec c' key' = cache_Get Client codec c key'"
proof -
  from assms(2) obtain str where "rc_Set Client c key str ex = (c', None)"
    by (auto simp: cache_Set_def split: sum.splits)
  with assms(1,3) have "rc_Get Client c' key' = rc_Get Client c key'"
    by (simp add: redis_laws_def)
  then show ?thesis by (simp add: cache_Get_def)
qed

text \<open>
  A client that never reaches its server, and one over a map: the contract can be met. The first
  is the behaviour of the helpers while Redis is down.
\<close>

definition downClient :: "unit RedisClient" where
  "downClient = \<lparr>rc_Get = (\<lambda>_ _. RedisErr ''connection refused''),
     rc_Set = (\<lambda>c _ _ _. (c, Some ''connection refused'')),
     rc_Del = (\<lambda>c _. (c, Some ''connection refused''))\<rparr>"

definition mapClient :: "(string \<rightharpoonup> string) RedisClient" where
  "mapClient = \<lparr>rc_Get = (\<lambda>c k. case c k of None \<Rightarrow> RedisNil | Some s \<Rightarrow> RedisVal s),
     rc_Set = (\<lambda>c k s _. (c(k \<mapsto> s), None)), rc_Del = (\<lambda>c k. (c(k := None), None))\<rparr>"

lemma cache_Get_down: "cache_Get downClient codec c key = None"
  by (simp add: cache_Get_def downClient_def)

end
