(* ===== verification/Local_Manager.thy ===== *)
theory Local_Manager
  imports Local_Root Cache
begin

text \<open>
  The in-memory peer manager: \<^verbatim>\<open>biz/services/peer/local/local.go\<close> and \<^verbatim>\<open>clean.go\<close>. Its state is
  the map from info hashes to roots. The map holds pointers, and a closure that outlives a request
  keeps the pointer it captured, so roots live in a heap and are named by address. Calls of
  \<^verbatim>\<open>producer.SendPeerEvent\<close> are collected in an outbox. Websocket connections are named by number;
  of each the closed flag and the registered close callback matter here.

  \<^verbatim>\<open>HandleAnnouncePeer\<close> starts goroutines: one that records the announcing peer, one that deletes
  expired peers. Each is a definition of its own (\<open>upsert_peer\<close>, \<open>delete_expired\<close>), and the
  handler takes the order in which the scheduler runs them relative to its own remaining work.
\<close>

section \<open>State\<close>

type_synonym root_ptr = nat

text \<open>The two kinds of string map the manager is built from (made by \<^verbatim>\<open>mapx.NewSkipMap\<close>).\<close>

record ('rm, 'pm) maps =
  rootOps :: "('rm, root_ptr) SyncStringMap"
  peerOps :: "('pm, Peer) SyncStringMap"

record ConnState =
  cn_closed :: bool
  cn_callback :: "(root_ptr \<times> string) option"

record ('rm, 'pm) Manager =
  infoHashMap :: 'rm
  heap :: "root_ptr \<Rightarrow> 'pm InfoHashRoot"
  nextRoot :: root_ptr
  conns :: "conn_id \<Rightarrow> ConnState"
  outbox :: "(string \<times> Peer) list"

definition NewLocalManger :: "('rm, 'pm) maps \<Rightarrow> ('rm, 'pm) Manager" where
  "NewLocalManger D =
     \<lparr>infoHashMap = sm_New (rootOps D), heap = (\<lambda>_. NewInfoHashRoot (peerOps D) 0 []), nextRoot = 0,
      conns = (\<lambda>_. \<lparr>cn_closed = False, cn_callback = None\<rparr>), outbox = []\<rparr>"

definition set_root :: "root_ptr \<Rightarrow> 'pm InfoHashRoot \<Rightarrow> ('rm, 'pm) Manager \<Rightarrow> ('rm, 'pm) Manager" where
  "set_root ptr r m = m\<lparr>heap := (heap m)(ptr := r)\<rparr>"

definition send_event :: "string \<Rightarrow> Peer \<Rightarrow> ('rm, 'pm) Manager \<Rightarrow> ('rm, 'pm) Manager" where
  "send_event ih peer m = m\<lparr>outbox := outbox m @ [(ih, peer)]\<rparr>"

text \<open>
  \<^verbatim>\<open>m.infoHashMap.LoadOrStoreLazy(infoHash, func() ... NewInfoHashRoot(infoHash))\<close>: the pointer,
  and whether the torrent was known.
\<close>

definition load_or_new_root ::
  "('rm, 'pm) maps \<Rightarrow> gotime \<Rightarrow> string \<Rightarrow> ('rm, 'pm) Manager \<Rightarrow> ('rm, 'pm) Manager \<times> root_ptr \<times> bool" where
  "load_or_new_root D now ih m =
     (case sm_LoadOrStoreLazy (rootOps D) (infoHashMap m) ih (\<lambda>_. nextRoot m) of
        (im, ptr, loaded) \<Rightarrow>
          (if loaded then m\<lparr>infoHashMap := im\<rparr>
           else m\<lparr>infoHashMap := im,
                  heap := (heap m)(nextRoot m := NewInfoHashRoot (peerOps D) now ih),
                  nextRoot := Suc (nextRoot m)\<rparr>, ptr, loaded))"

section \<open>Announcing\<close>

definition newPeer :: "AnnounceRequest \<Rightarrow> gotime \<Rightarrow> Peer" where
  "newPeer req now = \<lparr>
     p_IP = ParseIP (r_IP req),
     p_IPv4 = ParseIP (r_IPv4 req),
     p_IPv6 = ParseIP (r_IPv6 req),
     p_ClientIP = r_ClientIP req,
     p_LastSeen = now,
     p_Offers = r_Offers req,
     p_ID = r_PeerID req,
     p_UserAgent = r_UserAgent req,
     p_Port = r_Port req,
     p_Left = (if sint (r_Left req) \<ge> 0 then r_Left req else - 1),
     p_Uploaded = (if sint (r_Uploaded req) \<ge> 0 then r_Uploaded req else 0),
     p_Downloaded = (if sint (r_Downloaded req) \<ge> 0 then r_Downloaded req else 0),
     p_Conn = r_Conn req,
     p_Type = r_Type req,
     p_Event = ParsePeerEvent (r_Event req),
     p_Source = r_Source req\<rparr>"

definition valid_addresses :: "Peer \<Rightarrow> bool" where
  "valid_addresses peer \<longleftrightarrow>
     \<not> (p_IPv4 peer \<noteq> None \<and> To4 (p_IPv4 peer) = None) \<and>
     \<not> (p_IPv6 peer \<noteq> None \<and> To4 (p_IPv6 peer) \<noteq> None)"

text \<open>A websocket peer's connection removes the peer from this root when it closes.\<close>

definition register_callback ::
  "AnnounceRequest \<Rightarrow> Peer \<Rightarrow> root_ptr \<Rightarrow> ('rm, 'pm) Manager \<Rightarrow> ('rm, 'pm) Manager" where
  "register_callback req peer ptr m =
     (case r_Conn req of
        Some c \<Rightarrow>
          if p_Type peer = PeerTypeWebtorrent
          then m\<lparr>conns := (conns m)(c := (conns m c)\<lparr>cn_callback := Some (ptr, r_PeerID req)\<rparr>)\<rparr>
          else m
      | None \<Rightarrow> m)"

text \<open>The part of the handler up to the first goroutine: it ends the request or goes on with a root.\<close>

datatype announce_next = Finished "Peer list" | Proceed root_ptr Peer

definition announce_enter ::
  "('rm, 'pm) maps \<Rightarrow> Config \<Rightarrow> gotime \<Rightarrow> AnnounceRequest \<Rightarrow> ('rm, 'pm) Manager \<Rightarrow>
   announce_next result \<times> ('rm, 'pm) Manager" where
  "announce_enter D cfg now req m =
     (let peer = newPeer req now in
      if \<not> valid_addresses peer then (Inl ''invalid address'', m)
      else case load_or_new_root D now (r_InfoHash req) m of
        (m, ptr, ok) \<Rightarrow>
          (let m = register_callback req peer ptr m in
           if \<not> ok then
             (let m = (if IsPeerConnectable cfg peer \<and> p_Event peer \<noteq> PeerEvent_Stopped
                       then set_root ptr (fst (Root_LoadOrStore (peerOps D) (heap m ptr) (GetKey peer) peer)) m
                       else m)
              in (Inr (Finished []), send_event (r_InfoHash req) peer m))
           else if p_Event peer = PeerEvent_Stopped then
             (Inr (Finished []),
              set_root ptr (fst (Root_LoadAndDelete (peerOps D) (heap m ptr) (GetKey peer))) m)
           else (Inr (Proceed ptr peer), m)))"

text \<open>The goroutine that records the peer.\<close>

definition refresh_peer :: "Peer \<Rightarrow> Peer \<Rightarrow> Peer" where
  "refresh_peer knownPeer peer = knownPeer\<lparr>
     p_Uploaded := p_Uploaded peer, p_Downloaded := p_Downloaded peer, p_LastSeen := p_LastSeen peer,
     p_Event := p_Event peer, p_Left := p_Left peer\<rparr>"

definition upsert_peer ::
  "('rm, 'pm) maps \<Rightarrow> Config \<Rightarrow> string \<Rightarrow> root_ptr \<Rightarrow> Peer \<Rightarrow> ('rm, 'pm) Manager \<Rightarrow> ('rm, 'pm) Manager" where
  "upsert_peer D cfg ih ptr peer m =
     (case Root_LoadAndDelete (peerOps D) (heap m ptr) (GetKey peer) of
        (root, Some knownPeer) \<Rightarrow>
          (let m = (if (p_Left knownPeer \<noteq> 0 \<and> p_Left peer = 0) \<or> p_Event knownPeer \<noteq> p_Event peer
                    then send_event ih peer m else m);
               knownPeer = refresh_peer knownPeer peer
           in set_root ptr (Root_Store (peerOps D) root (GetKey knownPeer) knownPeer) m)
      | (root, None) \<Rightarrow>
          if IsPeerConnectable cfg peer
          then send_event ih peer
                 (set_root ptr (fst (Root_LoadOrStore (peerOps D) root (GetKey peer) peer)) m)
          else set_root ptr root m)"

text \<open>
  Picking the peers of the answer: the callback appends to the expired keys or to the answer, and
  stops the iteration of the current map once the answer is full.
\<close>

definition collect_step ::
  "gotime \<Rightarrow> AnnounceRequest \<Rightarrow> Peer \<Rightarrow> string list \<times> Peer list \<Rightarrow> string \<times> Peer \<Rightarrow>
   (string list \<times> Peer list) \<times> bool" where
  "collect_step expire req peer s kv =
     (case (s, kv) of
        ((expiredPeer, resp), (k, value)) \<Rightarrow>
          if expire > p_LastSeen value then ((expiredPeer @ [k], resp), True)
          else if p_Type value \<noteq> p_Type peer then (s, True)
          else if p_Type value = PeerTypeWebtorrent \<and> p_Conn value = None then (s, True)
          else if p_Event value = PeerEvent_Stopped then (s, True)
          else if int (length resp) \<ge> r_NumWant req then (s, False)
          else if p_ID value = p_ID peer then (s, True)
          else ((expiredPeer, resp @ [value]), True))"

definition announce_collect ::
  "('rm, 'pm) maps \<Rightarrow> Config \<Rightarrow> gotime \<Rightarrow> AnnounceRequest \<Rightarrow> Peer \<Rightarrow> 'pm InfoHashRoot \<Rightarrow>
   string list \<times> Peer list" where
  "announce_collect D cfg now req peer root =
     Root_Range (peerOps D) (collect_step (expireTime cfg now) req peer) root ([], [])"

text \<open>The goroutine that clears the expired peers.\<close>

definition delete_expired ::
  "('rm, 'pm) maps \<Rightarrow> root_ptr \<Rightarrow> string list \<Rightarrow> ('rm, 'pm) Manager \<Rightarrow> ('rm, 'pm) Manager" where
  "delete_expired D ptr expiredPeer m =
     foldl (\<lambda>m k. set_root ptr (fst (Root_Delete (peerOps D) (heap m ptr) k)) m) m expiredPeer"

definition announce_rotate ::
  "('rm, 'pm) maps \<Rightarrow> Config \<Rightarrow> root_ptr \<Rightarrow> ('rm, 'pm) Manager \<Rightarrow> ('rm, 'pm) Manager" where
  "announce_rotate D cfg ptr m = set_root ptr (Root_rotate (peerOps D) cfg (heap m ptr)) m"

text \<open>
  The rest of an announce as its four pieces of work. The handler itself collects and then rotates;
  the upsert may run at any time, the deletion at any time after the collection.
\<close>

datatype action = Upsert | Collect | Delete | Rotate

fun run_actions ::
  "('rm, 'pm) maps \<Rightarrow> Config \<Rightarrow> gotime \<Rightarrow> AnnounceRequest \<Rightarrow> root_ptr \<Rightarrow> Peer \<Rightarrow> action list \<Rightarrow>
   string list \<times> Peer list \<Rightarrow> ('rm, 'pm) Manager \<Rightarrow> Peer list \<times> ('rm, 'pm) Manager" where
  "run_actions D cfg now req ptr peer [] (expiredPeer, resp) m = (resp, m)"
| "run_actions D cfg now req ptr peer (a # as) (expiredPeer, resp) m =
     (case a of
        Upsert \<Rightarrow>
          run_actions D cfg now req ptr peer as (expiredPeer, resp) (upsert_peer D cfg (r_InfoHash req) ptr peer m)
      | Collect \<Rightarrow>
          run_actions D cfg now req ptr peer as (announce_collect D cfg now req peer (heap m ptr)) m
      | Delete \<Rightarrow>
          run_actions D cfg now req ptr peer as (expiredPeer, resp) (delete_expired D ptr expiredPeer m)
      | Rotate \<Rightarrow>
          run_actions D cfg now req ptr peer as (expiredPeer, resp) (announce_rotate D cfg ptr m))"

definition schedules :: "action list list" where
  "schedules =
     [[Upsert, Collect, Delete, Rotate], [Upsert, Collect, Rotate, Delete],
      [Collect, Upsert, Delete, Rotate], [Collect, Upsert, Rotate, Delete],
      [Collect, Delete, Upsert, Rotate], [Collect, Delete, Rotate, Upsert],
      [Collect, Rotate, Upsert, Delete], [Collect, Rotate, Delete, Upsert]]"

text \<open>
  What the outside world decides for one request: the two readings of the clock and the schedule.
\<close>

record announce_env =
  now_seen :: gotime
  now_expire :: gotime
  schedule :: "action list"

definition HandleAnnouncePeer ::
  "('rm, 'pm) maps \<Rightarrow> Config \<Rightarrow> announce_env \<Rightarrow> AnnounceRequest \<Rightarrow> ('rm, 'pm) Manager \<Rightarrow>
   Peer list result \<times> ('rm, 'pm) Manager" where
  "HandleAnnouncePeer D cfg env req m =
     (case announce_enter D cfg (now_seen env) req m of
        (Inl e, m') \<Rightarrow> (Inl e, m')
      | (Inr (Finished ps), m') \<Rightarrow> (Inr ps, m')
      | (Inr (Proceed ptr peer), m') \<Rightarrow>
          (case run_actions D cfg (now_expire env) req ptr peer (schedule env) ([], []) m' of
             (resp, m'') \<Rightarrow> (Inr resp, m'')))"

section \<open>Scraping and statistics\<close>

text \<open>The four counters of a scrape, and the keys of expired peers met on the way.\<close>

record counters =
  n_complete :: int
  n_incomplete :: int
  n_downloaded :: int
  n_seeder :: int

definition count_peer :: "counters \<Rightarrow> Peer \<Rightarrow> counters" where
  "count_peer n value =
     (if p_Left value = 0 then
        (let n = n\<lparr>n_downloaded := n_downloaded n + 1, n_complete := n_complete n + 1\<rparr> in
         if p_Event value \<noteq> PeerEvent_Stopped then n\<lparr>n_seeder := n_seeder n + 1\<rparr> else n)
      else if p_Event value = PeerEvent_Completed then n\<lparr>n_complete := n_complete n + 1\<rparr>
      else n\<lparr>n_incomplete := n_incomplete n + 1\<rparr>)"

definition scrape_step ::
  "gotime \<Rightarrow> string list \<times> counters \<Rightarrow> string \<times> Peer \<Rightarrow> (string list \<times> counters) \<times> bool" where
  "scrape_step expire s kv =
     (case (s, kv) of
        ((expiredPeer, n), (k, value)) \<Rightarrow>
          if expire > p_LastSeen value then ((expiredPeer @ [k], n), True)
          else ((expiredPeer, count_peer n value), True))"

definition zeroCounters :: counters where
  "zeroCounters = \<lparr>n_complete = 0, n_incomplete = 0, n_downloaded = 0, n_seeder = 0\<rparr>"

definition scrapeFile_of :: "counters \<Rightarrow> ScrapeFile" where
  "scrapeFile_of n = \<lparr>sf_Seeder = n_seeder n, sf_Complete = n_complete n,
     sf_Incomplete = n_incomplete n, sf_Downloaded = n_downloaded n\<rparr>"

definition emptyScrapeFile :: ScrapeFile where
  "emptyScrapeFile = \<lparr>sf_Seeder = 0, sf_Complete = 0, sf_Incomplete = 0, sf_Downloaded = 0\<rparr>"

definition Scrape ::
  "('rm, 'pm) maps \<Rightarrow> Config \<Rightarrow> 'c RedisClient \<Rightarrow> ScrapeFile Codec \<Rightarrow> gotime \<Rightarrow> string \<Rightarrow>
   ('rm, 'pm) Manager \<times> 'c \<Rightarrow> ScrapeFile \<times> ('rm, 'pm) Manager \<times> 'c" where
  "Scrape D cfg Client codec now ih st =
     (case st of (m, c) \<Rightarrow>
       (case sm_Load (rootOps D) (infoHashMap m) ih of
          None \<Rightarrow> (emptyScrapeFile, m, c)
        | Some ptr \<Rightarrow>
            (let cached = (if redis_Enable (c_Cache cfg)
                           then cache_Get Client codec c (''scrape_'' @ ih) else None)
             in case cached of
                  Some v \<Rightarrow> (v, m, c)
                | None \<Rightarrow>
                    (case Root_Range (peerOps D) (scrape_step (expireTime cfg now)) (heap m ptr) ([], zeroCounters) of
                       (expiredPeer, n) \<Rightarrow>
                         (let ret = scrapeFile_of n;
                              c' = (if redis_Enable (c_Cache cfg)
                                    then fst (cache_Set Client codec c (''scrape_'' @ ih) ret (duration_seconds 300))
                                    else c)
                          in (ret, delete_expired D ptr expiredPeer m, c'))))))"

datatype StatisticInfo =
  StatisticInfo (TotalPeers: uint64) (TotalTorrents: uint64) (Shards: "(string \<times> StatisticInfo) list")

definition GetStatistic :: "('rm, 'pm) maps \<Rightarrow> ('rm, 'pm) Manager \<Rightarrow> StatisticInfo" where
  "GetStatistic D m =
     (let peerCount = go_range (\<lambda>n (k, ptr). (n + Root_Len (peerOps D) (heap m ptr), True))
                        (sm_Range (rootOps D) (infoHashMap m)) 0
      in StatisticInfo (of_int peerCount) (of_int (sm_Len (rootOps D) (infoHashMap m))) [])"

section \<open>Administration\<close>

definition RangeMap ::
  "('rm, 'pm) maps \<Rightarrow> ('s \<Rightarrow> string \<times> root_ptr \<Rightarrow> 's \<times> bool) \<Rightarrow> ('rm, 'pm) Manager \<Rightarrow> 's \<Rightarrow> 's" where
  "RangeMap D f m s = go_range f (sm_Range (rootOps D) (infoHashMap m)) s"

definition DirectStore ::
  "('rm, 'pm) maps \<Rightarrow> gotime \<Rightarrow> string \<Rightarrow> Peer \<Rightarrow> ('rm, 'pm) Manager \<Rightarrow> ('rm, 'pm) Manager" where
  "DirectStore D now ih peer m =
     (case load_or_new_root D now ih m of
        (m, ptr, _) \<Rightarrow> set_root ptr (Root_Store (peerOps D) (heap m ptr) (GetKey peer) peer) m)"

definition local_DeleteInfoHash ::
  "('rm, 'pm) maps \<Rightarrow> string \<Rightarrow> ('rm, 'pm) Manager \<Rightarrow> ('rm, 'pm) Manager" where
  "local_DeleteInfoHash D ih m =
     m\<lparr>infoHashMap := fst (sm_Delete (rootOps D) (infoHashMap m) ih)\<rparr>"

text \<open>\<^verbatim>\<open>BanInfoHash\<close> only forgets the torrent: the ban itself is kept by the sharded manager.\<close>

definition local_BanInfoHash ::
  "('rm, 'pm) maps \<Rightarrow> string \<Rightarrow> ('rm, 'pm) Manager \<Rightarrow> ('rm, 'pm) Manager" where
  "local_BanInfoHash D ih m =
     m\<lparr>infoHashMap := fst (sm_Delete (rootOps D) (infoHashMap m) ih)\<rparr>"

text \<open>
  Snapshots and bans of peers are the business of the sharded manager: here the former panic and the latter do nothing.
\<close>

definition local_StoreToPersist :: "('rm, 'pm) Manager \<Rightarrow> unit result" where
  "local_StoreToPersist m = Inl ''please use mux to persist''"

definition local_LoadFromPersist :: "('rm, 'pm) Manager \<Rightarrow> ('rm, 'pm) Manager result" where
  "local_LoadFromPersist m = Inl ''please use mux to persist''"

definition local_BanPeer :: "string \<Rightarrow> ('rm, 'pm) Manager \<Rightarrow> unit result \<times> ('rm, 'pm) Manager" where
  "local_BanPeer peerID m = (Inr (), m)"

definition local_ClearBanInfoHash :: "('rm, 'pm) Manager \<Rightarrow> ('rm, 'pm) Manager" where
  "local_ClearBanInfoHash m = m"

definition local_ClearBanPeer :: "('rm, 'pm) Manager \<Rightarrow> ('rm, 'pm) Manager" where
  "local_ClearBanPeer m = m"

definition SkipMapToSlice :: "('pm, Peer) SyncStringMap \<Rightarrow> 'pm InfoHashRoot \<Rightarrow> Peer list" where
  "SkipMapToSlice M r = Root_Range M (\<lambda>res (k, value). (res @ [value], True)) r []"

definition local_GetPeers :: "('rm, 'pm) maps \<Rightarrow> string \<Rightarrow> ('rm, 'pm) Manager \<Rightarrow> Peer list" where
  "local_GetPeers D ih m =
     (case sm_Load (rootOps D) (infoHashMap m) ih of
        None \<Rightarrow> []
      | Some ptr \<Rightarrow> SkipMapToSlice (peerOps D) (heap m ptr))"

section \<open>Cleaning\<close>

text \<open>
  \<^verbatim>\<open>Conn.Close\<close> of \<^verbatim>\<open>biz/model/ws.go\<close>: the first call runs the callback, which removes the peer
  from the root it was registered with, and marks the connection closed.
\<close>

definition Conn_Close :: "('rm, 'pm) maps \<Rightarrow> conn_id \<Rightarrow> ('rm, 'pm) Manager \<Rightarrow> ('rm, 'pm) Manager" where
  "Conn_Close D c m =
     (if cn_closed (conns m c) then m
      else
        (let m = (case cn_callback (conns m c) of
                    None \<Rightarrow> m
                  | Some (ptr, peerID) \<Rightarrow>
                      set_root ptr (fst (Root_LoadAndDelete (peerOps D) (heap m ptr) peerID)) m)
         in m\<lparr>conns := (conns m)(c := (conns m c)\<lparr>cn_closed := True\<rparr>)\<rparr>))"

definition clean_step ::
  "('rm, 'pm) maps \<Rightarrow> gotime \<Rightarrow> ('rm, 'pm) Manager \<times> string list \<Rightarrow> string \<times> Peer \<Rightarrow>
   (('rm, 'pm) Manager \<times> string list) \<times> bool" where
  "clean_step D expire s kv =
     (case (s, kv) of
        ((m, toClean), (key, value)) \<Rightarrow>
          if expire > p_LastSeen value then
            ((case p_Conn value of
                Some c \<Rightarrow> if p_Type value = PeerTypeWebtorrent then Conn_Close D c m else m
              | None \<Rightarrow> m, toClean @ [key]), True)
          else (s, True))"

definition cleanUp ::
  "('rm, 'pm) maps \<Rightarrow> Config \<Rightarrow> gotime \<Rightarrow> root_ptr \<Rightarrow> ('rm, 'pm) Manager \<Rightarrow> int \<times> ('rm, 'pm) Manager" where
  "cleanUp D cfg now ptr m =
     (if time_Add (lastClean (heap m ptr)) (duration_seconds (t_TTL (c_Tracker cfg))) > now then (0, m)
      else
        (case Root_Range (peerOps D) (clean_step D (expireTime cfg now)) (heap m ptr) (m, []) of
           (m, toClean) \<Rightarrow>
             (let m = foldl (\<lambda>m key. set_root ptr (fst (Root_LoadAndDelete (peerOps D) (heap m ptr) key)) m) m toClean;
                  m = set_root ptr ((heap m ptr)\<lparr>lastClean := now\<rparr>) m;
                  m = (if Root_Len (peerOps D) (heap m ptr) = 0
                       then m\<lparr>infoHashMap := fst (sm_Delete (rootOps D) (infoHashMap m) (infoHash (heap m ptr)))\<rparr>
                       else m)
              in (int (length toClean), m))))"

definition Clean ::
  "('rm, 'pm) maps \<Rightarrow> Config \<Rightarrow> gotime \<Rightarrow> ('rm, 'pm) Manager \<Rightarrow> int \<times> ('rm, 'pm) Manager" where
  "Clean D cfg now m =
     go_range (\<lambda>(count, m) (key, ptr). (case cleanUp D cfg now ptr m of (n, m') \<Rightarrow> ((count + n, m'), True)))
       (sm_Range (rootOps D) (infoHashMap m)) (0, m)"

end
