(* ===== verification/Local_Correct.thy ===== *)
theory Local_Correct
  imports Local_Manager "HOL-Library.Sublist"
begin

text \<open>
  Correctness of the in-memory manager. The invariant \<open>mgr_ok\<close> says that every root is well formed
  and sits under its own info hash; \<open>mgr_view\<close> is the abstract state, a map from info hashes to
  swarms, a swarm being a map from peer identifiers to peers. The operations are first described by
  what they do to the one root they touch, then on the abstract state. The lemmas are proved once,
  in the locale \<open>local_maps\<close>, for any implementation of the two string maps.
\<close>

section \<open>Invariant and abstract state\<close>

type_synonym swarm = "string \<rightharpoonup> Peer"

definition mgr_ok :: "('rm, 'pm) maps \<Rightarrow> ('rm \<Rightarrow> bool) \<Rightarrow> ('pm \<Rightarrow> bool) \<Rightarrow> ('rm, 'pm) Manager \<Rightarrow> bool" where
  "mgr_ok D rinv pinv m \<longleftrightarrow>
     rinv (infoHashMap m) \<and> (\<forall>ptr. root_ok (peerOps D) pinv (heap m ptr)) \<and>
     (\<forall>ih ptr. sm_Load (rootOps D) (infoHashMap m) ih = Some ptr \<longrightarrow>
        ptr < nextRoot m \<and> infoHash (heap m ptr) = ih)"

definition mgr_view :: "('rm, 'pm) maps \<Rightarrow> ('rm, 'pm) Manager \<Rightarrow> (string \<rightharpoonup> swarm)" where
  "mgr_view D m ih =
     map_option (\<lambda>ptr. root_view (peerOps D) (heap m ptr)) (sm_Load (rootOps D) (infoHashMap m) ih)"

text \<open>The peer a manager holds under an info hash and a peer identifier.\<close>

definition mgr_peer :: "('rm, 'pm) maps \<Rightarrow> ('rm, 'pm) Manager \<Rightarrow> string \<Rightarrow> string \<Rightarrow> Peer option" where
  "mgr_peer D m ih k = (case mgr_view D m ih of None \<Rightarrow> None | Some sw \<Rightarrow> sw k)"

section \<open>The operations on a single root\<close>

definition upsert_root :: "('pm, Peer) SyncStringMap \<Rightarrow> Config \<Rightarrow> Peer \<Rightarrow> 'pm InfoHashRoot \<Rightarrow> 'pm InfoHashRoot" where
  "upsert_root M cfg peer r =
     (case Root_LoadAndDelete M r (GetKey peer) of
        (root, Some known) \<Rightarrow>
          Root_Store M root (GetKey (refresh_peer known peer)) (refresh_peer known peer)
      | (root, None) \<Rightarrow>
          if IsPeerConnectable cfg peer then fst (Root_LoadOrStore M root (GetKey peer) peer) else root)"

definition delete_root :: "('pm, Peer) SyncStringMap \<Rightarrow> string list \<Rightarrow> 'pm InfoHashRoot \<Rightarrow> 'pm InfoHashRoot" where
  "delete_root M ks r = foldl (\<lambda>r k. fst (Root_Delete M r k)) r ks"

definition upsert_swarm :: "Config \<Rightarrow> Peer \<Rightarrow> swarm \<Rightarrow> swarm" where
  "upsert_swarm cfg peer sw =
     (case sw (p_ID peer) of
        Some known \<Rightarrow> sw(p_ID peer \<mapsto> refresh_peer known peer)
      | None \<Rightarrow> if IsPeerConnectable cfg peer then sw(p_ID peer \<mapsto> peer) else sw)"

lemma infoHash_ops [simp]:
  "infoHash (fst (Root_LoadAndDelete M r k)) = infoHash r"
  "infoHash (fst (Root_Delete M r k)) = infoHash r"
  "infoHash (Root_Store M r k p) = infoHash r"
  "infoHash (fst (Root_LoadOrStore M r k p)) = infoHash r"
  "infoHash (Root_rotate M cfg r) = infoHash r"
  "infoHash (NewInfoHashRoot M now ih) = ih"
  by (simp_all add: Root_LoadAndDelete_def Root_Delete_def Root_Store_def Root_LoadOrStore_def
      Root_rotate_def NewInfoHashRoot_def set_activeMap_def prod.case_eq_if Let_def)

lemma infoHash_upsert [simp]: "infoHash (upsert_root M cfg peer r) = infoHash r"
  by (simp add: upsert_root_def split: prod.splits option.splits) (metis fst_conv infoHash_ops(1))

lemma infoHash_delete [simp]: "infoHash (delete_root M ks r) = infoHash r"
  by (induction ks arbitrary: r) (simp_all add: delete_root_def)

lemma set_root_simps [simp]:
  "heap (set_root ptr r m) = (heap m)(ptr := r)" "infoHashMap (set_root ptr r m) = infoHashMap m"
  "nextRoot (set_root ptr r m) = nextRoot m" "conns (set_root ptr r m) = conns m"
  "outbox (set_root ptr r m) = outbox m"
  by (simp_all add: set_root_def)

lemma send_event_simps [simp]:
  "heap (send_event ih p m) = heap m" "infoHashMap (send_event ih p m) = infoHashMap m"
  "nextRoot (send_event ih p m) = nextRoot m" "conns (send_event ih p m) = conns m"
  "outbox (send_event ih p m) = outbox m @ [(ih, p)]"
  by (simp_all add: send_event_def)

text \<open>Two managers that differ at most in one root and in the outbox.\<close>

definition same_but :: "root_ptr \<Rightarrow> 'pm InfoHashRoot \<Rightarrow> ('rm, 'pm) Manager \<Rightarrow> ('rm, 'pm) Manager \<Rightarrow> bool" where
  "same_but ptr r m m' \<longleftrightarrow>
     heap m' = (heap m)(ptr := r) \<and> infoHashMap m' = infoHashMap m \<and> nextRoot m' = nextRoot m \<and>
     conns m' = conns m"

lemma same_but_refl: "same_but ptr (heap m ptr) m m"
  by (simp add: same_but_def)

lemma same_but_trans: "same_but ptr r m m' \<Longrightarrow> same_but ptr r' m' m'' \<Longrightarrow> same_but ptr r' m m''"
  by (simp add: same_but_def)

lemma upsert_peer_same_but:
  "same_but ptr (upsert_root (peerOps D) cfg peer (heap m ptr)) m (upsert_peer D cfg ih ptr peer m)"
  by (auto simp: upsert_peer_def upsert_root_def same_but_def Let_def split: prod.splits option.splits)

lemma delete_expired_same_but:
  "same_but ptr (delete_root (peerOps D) ks (heap m ptr)) m (delete_expired D ptr ks m)"
proof (induction ks arbitrary: m)
  case Nil
  then show ?case by (simp add: delete_expired_def delete_root_def same_but_refl)
next
  case (Cons k ks)
  let ?m = "set_root ptr (fst (Root_Delete (peerOps D) (heap m ptr) k)) m"
  have "same_but ptr (delete_root (peerOps D) ks (heap ?m ptr)) ?m (delete_expired D ptr ks ?m)"
    by (rule Cons.IH)
  then show ?case by (simp add: delete_expired_def delete_root_def same_but_def)
qed

lemma announce_rotate_same_but:
  "same_but ptr (Root_rotate (peerOps D) cfg (heap m ptr)) m (announce_rotate D cfg ptr m)"
  by (simp add: announce_rotate_def same_but_def)

text \<open>The pieces of an announce, as they act on the one root they touch.\<close>

fun run_root ::
  "('rm, 'pm) maps \<Rightarrow> Config \<Rightarrow> gotime \<Rightarrow> AnnounceRequest \<Rightarrow> Peer \<Rightarrow> action list \<Rightarrow> string list \<Rightarrow>
   'pm InfoHashRoot \<Rightarrow> 'pm InfoHashRoot" where
  "run_root D cfg now req peer [] ks r = r"
| "run_root D cfg now req peer (a # as) ks r =
     (case a of
        Upsert \<Rightarrow> run_root D cfg now req peer as ks (upsert_root (peerOps D) cfg peer r)
      | Collect \<Rightarrow> run_root D cfg now req peer as (fst (announce_collect D cfg now req peer r)) r
      | Delete \<Rightarrow> run_root D cfg now req peer as ks (delete_root (peerOps D) ks r)
      | Rotate \<Rightarrow> run_root D cfg now req peer as ks (Root_rotate (peerOps D) cfg r))"

lemma run_actions_root:
  "same_but ptr (run_root D cfg now req peer as (fst acc) (heap m ptr)) m
     (snd (run_actions D cfg now req ptr peer as acc m))"
proof (induction as arbitrary: acc m)
  case Nil
  then show ?case by (cases acc) (simp add: same_but_refl)
next
  case (Cons a as)
  obtain e resp where acc: "acc = (e, resp)" by (cases acc)
  have step: "same_but ptr (run_root D cfg now req peer as (fst acc') r) m
      (snd (run_actions D cfg now req ptr peer as acc' m'))" if "same_but ptr r m m'" for acc' r m'
  proof -
    from that have "heap m' ptr = r" by (simp add: same_but_def)
    with same_but_trans [OF that Cons.IH [where m = m' and acc = acc']] show ?thesis by simp
  qed
  show ?case
    using step [OF upsert_peer_same_but, of "(e, resp)"] step [OF same_but_refl]
      step [OF delete_expired_same_but, of "(e, resp)"] step [OF announce_rotate_same_but, of "(e, resp)"]
    by (cases a) (simp_all add: acc)
qed

text \<open>The peers an announce may answer with.\<close>

definition eligible :: "gotime \<Rightarrow> Peer \<Rightarrow> Peer \<Rightarrow> bool" where
  "eligible expire peer v \<longleftrightarrow>
     \<not> expire > p_LastSeen v \<and> p_Type v = p_Type peer \<and>
     \<not> (p_Type v = PeerTypeWebtorrent \<and> p_Conn v = None) \<and> p_Event v \<noteq> PeerEvent_Stopped \<and>
     p_ID v \<noteq> p_ID peer"

text \<open>The stored peer carries what the announce reports.\<close>

definition announced :: "Peer \<Rightarrow> Peer \<Rightarrow> bool" where
  "announced peer p \<longleftrightarrow>
     p_ID p = p_ID peer \<and> p_LastSeen p = p_LastSeen peer \<and> p_Event p = p_Event peer \<and>
     p_Left p = p_Left peer \<and> p_Uploaded p = p_Uploaded peer \<and> p_Downloaded p = p_Downloaded peer"

text \<open>
  The schedules in which the deletion works on a collection that the upsert has overtaken.
\<close>

definition overtaken :: "action list \<Rightarrow> bool" where
  "overtaken as \<longleftrightarrow> subseq [Collect, Upsert, Delete] as"

text \<open>At most \<open>a\<close> peers in the active map and \<open>b\<close> in the read-only one.\<close>

definition bounded :: "('pm, Peer) SyncStringMap \<Rightarrow> int \<Rightarrow> int \<Rightarrow> 'pm InfoHashRoot \<Rightarrow> bool" where
  "bounded M a b r \<longleftrightarrow> sm_Len M (activeMap r) \<le> a \<and> sm_Len M (oldestMap r) \<le> b"

definition half_limit :: "Config \<Rightarrow> int" where
  "half_limit cfg = go_div (mem_MaxPeersPerTorrent (t_Memory (c_Tracker cfg))) 2"

definition eligibles :: "gotime \<Rightarrow> Peer \<Rightarrow> swarm \<Rightarrow> Peer set" where
  "eligibles expire peer sw = {p. \<exists>k. sw k = Some p \<and> eligible expire peer p}"

section \<open>Any two lawful maps\<close>

locale local_maps = R: sync_map "rootOps D" rinv + P: root_maps "peerOps D" pinv
  for D :: "('rm, 'pm) maps" and rinv :: "'rm \<Rightarrow> bool" and pinv :: "'pm \<Rightarrow> bool"
begin

abbreviation rok :: "'pm InfoHashRoot \<Rightarrow> bool" where
  "rok \<equiv> root_ok (peerOps D) pinv"

abbreviation rview :: "'pm InfoHashRoot \<Rightarrow> swarm" where
  "rview \<equiv> root_view (peerOps D)"

abbreviation mok :: "('rm, 'pm) Manager \<Rightarrow> bool" where
  "mok \<equiv> mgr_ok D rinv pinv"

abbreviation rootAt :: "('rm, 'pm) Manager \<Rightarrow> string \<rightharpoonup> root_ptr" where
  "rootAt m \<equiv> sm_Load (rootOps D) (infoHashMap m)"

subsection \<open>Roots\<close>

lemma GetKey_refresh [simp]: "GetKey (refresh_peer known peer) = GetKey known"
  by (simp add: GetKey_def refresh_peer_def)

lemma upsert_root_spec:
  assumes ok: "rok r"
  shows upsert_root_ok: "rok (upsert_root (peerOps D) cfg peer r)"
    and upsert_root_view: "rview (upsert_root (peerOps D) cfg peer r) = upsert_swarm cfg peer (rview r)"
proof -
  let ?k = "GetKey peer" and ?M = "peerOps D"
  obtain r' f where ld: "Root_LoadAndDelete ?M r ?k = (r', f)" by (cases "Root_LoadAndDelete ?M r ?k")
  from P.Root_LoadAndDelete_spec [OF ok, of ?k] ld
  have r': "rok r'" "rview r' = (rview r)(?k := None)" and f: "f = rview r ?k" by simp_all
  have free: "sm_Load ?M (peerMap r' ! j) ?k = None" if "j < 3" for j
    using P.root_view_None_maps [OF r'(1) _ that] by (simp add: r'(2))
  have los: "Root_LoadOrStore ?M r' ?k peer = (Root_Store ?M r' ?k peer, peer, False)"
    by (rule P.Root_LoadOrStore_new) (simp_all add: r')
  have key: "GetKey known = ?k" if "f = Some known" for known
    using P.root_ok_key [OF ok, of ?k known] f that by (simp add: GetKey_def)
  show "rok (upsert_root ?M cfg peer r)"
    using r' free key by (auto simp: upsert_root_def ld los split: option.splits intro!: P.Root_Store_ok)
  show "rview (upsert_root ?M cfg peer r) = upsert_swarm cfg peer (rview r)"
  proof (cases f)
    case None
    with f have "rview r (p_ID peer) = None" by (simp add: GetKey_def)
    with None r' free show ?thesis
      by (simp add: upsert_root_def upsert_swarm_def ld los P.Root_Store_view)
        (simp add: GetKey_def fun_upd_idem)
  next
    case (Some known)
    with f have "rview r (p_ID peer) = Some known" by (simp add: GetKey_def)
    with Some r' free key [OF Some] show ?thesis
      by (simp add: upsert_root_def upsert_swarm_def ld P.Root_Store_view) (simp add: GetKey_def)
  qed
qed

lemma delete_root_spec:
  assumes "rok r"
  shows delete_root_ok: "rok (delete_root (peerOps D) ks r)"
    and delete_root_view: "rview (delete_root (peerOps D) ks r) = rview r |` (- set ks)"
proof -
  have "rok (delete_root (peerOps D) ks r) \<and> rview (delete_root (peerOps D) ks r) = rview r |` (- set ks)"
    using assms
  proof (induction ks arbitrary: r)
    case Nil
    then show ?case by (simp add: delete_root_def)
  next
    case (Cons k ks)
    have "rok (fst (Root_Delete (peerOps D) r k))" using Cons.prems by (rule P.Root_Delete_ok)
    from Cons.IH [OF this] P.Root_Delete_view [OF Cons.prems, of k] show ?case
      by (auto simp: delete_root_def restrict_map_def fun_eq_iff)
  qed
  then show "rok (delete_root (peerOps D) ks r)"
    and "rview (delete_root (peerOps D) ks r) = rview r |` (- set ks)" by simp_all
qed

subsection \<open>Managers\<close>

lemma mok_New: "mok (NewLocalManger D)"
  by (simp add: mgr_ok_def NewLocalManger_def R.minv_New R.Load_New P.root_ok_New)

lemma mgr_view_New: "mgr_view D (NewLocalManger D) = Map.empty"
  by (simp add: mgr_view_def NewLocalManger_def R.Load_New fun_eq_iff)

lemma mok_rootD:
  "mok m \<Longrightarrow> rok (heap m ptr)"
  "mok m \<Longrightarrow> rinv (infoHashMap m)"
  "mok m \<Longrightarrow> rootAt m ih = Some ptr \<Longrightarrow> infoHash (heap m ptr) = ih"
  "mok m \<Longrightarrow> rootAt m ih = Some ptr \<Longrightarrow> ptr < nextRoot m"
  by (simp_all add: mgr_ok_def)

lemma rootAt_inject: "mok m \<Longrightarrow> rootAt m ih = Some ptr \<Longrightarrow> rootAt m ih' = Some ptr \<longleftrightarrow> ih' = ih"
  using mok_rootD(3) by blast

lemma mok_same_but:
  "mok m \<Longrightarrow> same_but ptr r m m' \<Longrightarrow> rok r \<Longrightarrow> infoHash r = infoHash (heap m ptr) \<Longrightarrow> mok m'"
  by (auto simp: mgr_ok_def same_but_def)

lemma mgr_view_same_but:
  assumes "mok m" and "same_but ptr r m m'" and "rootAt m ih = Some ptr"
  shows "mgr_view D m' = (mgr_view D m)(ih \<mapsto> rview r)"
proof
  fix ih'
  show "mgr_view D m' ih' = ((mgr_view D m)(ih \<mapsto> rview r)) ih'"
    using assms rootAt_inject [OF assms(1,3), of ih'] by (auto simp: mgr_view_def same_but_def map_option_case
        split: option.splits)
qed

lemma mgr_view_root: "rootAt m ih = Some ptr \<Longrightarrow> mgr_view D m ih = Some (rview (heap m ptr))"
  by (simp add: mgr_view_def)

lemma mgr_view_conns [simp]: "mgr_view D (m\<lparr>conns := c\<rparr>) = mgr_view D m"
  by (simp add: mgr_view_def fun_eq_iff)

lemma mok_conns [simp]: "mok (m\<lparr>conns := c\<rparr>) \<longleftrightarrow> mok m"
  by (simp add: mgr_ok_def)

lemma mgr_view_send [simp]: "mgr_view D (send_event ih p m) = mgr_view D m"
  by (simp add: mgr_view_def fun_eq_iff)

lemma mok_send [simp]: "mok (send_event ih p m) \<longleftrightarrow> mok m"
  by (simp add: mgr_ok_def)

lemma load_or_new_root_known:
  assumes "mok m" and "rootAt m ih = Some ptr"
  shows "load_or_new_root D now ih m = (m, ptr, True)"
proof -
  have "sm_LoadOrStoreLazy (rootOps D) (infoHashMap m) ih (\<lambda>_. nextRoot m) = (infoHashMap m, ptr, True)"
    using assms by (simp add: R.LoadOrStoreLazy R.LoadOrStore_old mok_rootD)
  then show ?thesis by (simp add: load_or_new_root_def)
qed

lemma load_or_new_root_new:
  assumes ok: "mok m" and "rootAt m ih = None"
  obtains m' where "load_or_new_root D now ih m = (m', nextRoot m, False)" and "mok m'"
    and "rootAt m' = (rootAt m)(ih \<mapsto> nextRoot m)" and "mgr_view D m' = (mgr_view D m)(ih \<mapsto> Map.empty)"
    and "heap m' = (heap m)(nextRoot m := NewInfoHashRoot (peerOps D) now ih)"
    and "outbox m' = outbox m" and "conns m' = conns m" and "nextRoot m' = Suc (nextRoot m)"
proof -
  let ?im = "sm_Store (rootOps D) (infoHashMap m) ih (nextRoot m)"
  define m' where "m' = m\<lparr>infoHashMap := ?im,
     heap := (heap m)(nextRoot m := NewInfoHashRoot (peerOps D) now ih), nextRoot := Suc (nextRoot m)\<rparr>"
  have "sm_LoadOrStoreLazy (rootOps D) (infoHashMap m) ih (\<lambda>_. nextRoot m) = (?im, nextRoot m, False)"
    using assms by (simp add: R.LoadOrStoreLazy R.LoadOrStore_new mok_rootD)
  then have eq: "load_or_new_root D now ih m = (m', nextRoot m, False)"
    by (simp add: load_or_new_root_def m'_def)
  have at: "rootAt m' = (rootAt m)(ih \<mapsto> nextRoot m)"
    using mok_rootD(2) [OF ok] by (simp add: m'_def R.Load_Store)
  have fresh: "rootAt m ih' = Some p \<Longrightarrow> p < nextRoot m" for ih' p
    using ok by (rule mok_rootD)
  have "rinv ?im" using ok by (simp add: mok_rootD R.minv_Store)
  with ok have "mok m'"
    unfolding mgr_ok_def at by (auto simp: m'_def P.root_ok_New less_Suc_eq dest: fresh)
  moreover have "mgr_view D m' = (mgr_view D m)(ih \<mapsto> Map.empty)"
    unfolding mgr_view_def at by (auto simp: m'_def P.root_view_New fun_eq_iff map_option_case
        dest: fresh split: option.splits)
  ultimately show ?thesis using eq at by (intro that [of m']) (simp_all add: m'_def)
qed

subsection \<open>The peers of the answer\<close>

lemma collect_gen:
  assumes n: "n = nat (r_NumWant req)"
  shows "snd (foldl (\<lambda>s m. go_range (collect_step ex req peer) (sm_Range M m) s) (e, take n xs) ms) =
    take n (xs @ map snd (filter (\<lambda>kv. eligible ex peer (snd kv)) (concat (map (sm_Range M) ms))))"
proof -
  let ?f = "\<lambda>ys. map snd (filter (\<lambda>kv. eligible ex peer (snd kv)) ys)"
  have one: "\<exists>e'. go_range (collect_step ex req peer) ys (e, take n xs) = (e', take n (xs @ ?f ys))" for ys e xs
  proof (induction ys arbitrary: e xs)
    case Nil
    then show ?case by simp
  next
    case (Cons kv ys)
    obtain k v where kv: "kv = (k, v)" by (cases kv)
    show ?case
    proof (cases "int (length (take n xs)) \<ge> r_NumWant req")
      case True
      then have full: "length xs \<ge> n" using n by auto
      then have tk: "take n (xs @ zs) = take n xs" for zs by simp
      have "snd (fst (collect_step ex req peer (e, take n xs) kv)) = take n xs"
        using True by (simp add: collect_step_def kv)
      then show ?thesis using Cons.IH [of _ xs] full
        by (cases "collect_step ex req peer (e, take n xs) kv") (fastforce simp: kv)
    next
      case False
      then have lt: "length xs < n" using n by auto
      from False have "collect_step ex req peer (e, take n xs) kv =
          ((if ex > p_LastSeen v then e @ [k] else e, take n (xs @ ?f [kv])), True)"
        using lt by (auto simp: collect_step_def kv eligible_def)
      moreover have "xs @ ?f (kv # ys) = (xs @ ?f [kv]) @ ?f ys" by simp
      ultimately show ?thesis using Cons.IH [of _ "xs @ ?f [kv]"]
        by (simp del: take_append append_assoc filter.simps list.map)
    qed
  qed
  show ?thesis
  proof (induction ms arbitrary: e xs)
    case Nil
    then show ?case by simp
  next
    case (Cons m ms)
    obtain e' where "go_range (collect_step ex req peer) (sm_Range M m) (e, take n xs) = (e', take n (xs @ ?f (sm_Range M m)))"
      using one by blast
    with Cons.IH show ?case by (simp del: take_append)
  qed
qed

lemma announce_collect_resp:
  "snd (announce_collect D cfg now req peer r) =
   take (nat (r_NumWant req))
     (map snd (filter (\<lambda>kv. eligible (expireTime cfg now) peer (snd kv)) (root_entries (peerOps D) r)))"
  using collect_gen [OF refl, of _ req peer "peerOps D" "[]" "[]"]
  by (simp add: announce_collect_def Root_Range_def root_entries_def)

text \<open>The keys handed to the deleting goroutine belong to expired peers of the root.\<close>

lemma announce_collect_expired:
  assumes "k \<in> set (fst (announce_collect D cfg now req peer r))"
  shows "\<exists>p. (k, p) \<in> set (root_entries (peerOps D) r) \<and> expireTime cfg now > p_LastSeen p"
proof -
  let ?P = "\<lambda>s :: string list \<times> Peer list. \<forall>k \<in> set (fst s). \<exists>p. (k, p) \<in> set (root_entries (peerOps D) r) \<and> expireTime cfg now > p_LastSeen p"
  have "?P (announce_collect D cfg now req peer r)"
    unfolding announce_collect_def
    by (rule P.Root_Range_invariant) (auto simp: collect_step_def split: prod.splits if_splits)
  with assms show ?thesis by blast
qed

lemma announce_collect_spec:
  fixes cfg now req peer
  assumes ok: "rok r"
  defines "ps \<equiv> snd (announce_collect D cfg now req peer r)"
    and "el \<equiv> eligibles (expireTime cfg now) peer (rview r)"
  shows "set ps \<subseteq> el" and "distinct (map p_ID ps)" and "length ps = min (nat (r_NumWant req)) (card el)"
proof -
  let ?es = "filter (\<lambda>kv. eligible (expireTime cfg now) peer (snd kv)) (root_entries (peerOps D) r)"
  have key: "p_ID p = k" if "(k, p) \<in> set (root_entries (peerOps D) r)" for k p
    using that by (simp add: P.root_entries_iff [OF ok] P.root_ok_key [OF ok])
  have ps: "ps = take (nat (r_NumWant req)) (map snd ?es)"
    by (simp add: ps_def announce_collect_resp)
  have el: "el = set (map snd ?es)"
    by (auto simp: el_def eligibles_def P.root_entries_iff [OF ok, symmetric] image_iff)
  have "map p_ID (map snd ?es) = map fst ?es"
    using key by auto
  moreover have "distinct (map fst ?es)"
    by (rule distinct_map_filter) (rule P.root_entries_distinct [OF ok])
  ultimately have d: "distinct (map p_ID (map snd ?es))" by (rule ssubst)
  then have "distinct (map snd ?es)" by (metis distinct_map)
  then have "card el = length ?es" unfolding el by (metis distinct_card length_map)
  then show "length ps = min (nat (r_NumWant req)) (card el)" by (simp add: ps)
  show "set ps \<subseteq> el" unfolding ps el by (rule set_take_subset)
  from d show "distinct (map p_ID ps)" unfolding ps by (metis distinct_take take_map)
qed

lemma eligibles_upsert:
  assumes "\<And>k p. sw k = Some p \<Longrightarrow> p_ID p = k"
  shows "eligibles ex peer (upsert_swarm cfg peer sw) = eligibles ex peer sw"
  using assms
  by (fastforce simp: eligibles_def eligible_def upsert_swarm_def refresh_peer_def split: option.splits if_splits)

lemma run_actions_collected:
  "Collect \<notin> set as \<Longrightarrow> fst (run_actions D cfg now req ptr peer as (e, resp) m) = resp"
  by (induction as arbitrary: e m) (auto split: action.splits)

lemma heap_upsert_peer: "heap (upsert_peer D cfg ih ptr peer m) ptr = upsert_root (peerOps D) cfg peer (heap m ptr)"
  using upsert_peer_same_but [of ptr D cfg peer m ih] by (simp add: same_but_def)

lemma run_actions_resp:
  assumes "as \<in> set schedules"
  shows "\<exists>r. (r = heap m ptr \<or> r = upsert_root (peerOps D) cfg peer (heap m ptr)) \<and>
    fst (run_actions D cfg now req ptr peer as acc m) = snd (announce_collect D cfg now req peer r)"
proof -
  obtain as' where as: "as = Upsert # Collect # as' \<or> as = Collect # as'" and n: "Collect \<notin> set as'"
    using assms by (auto simp: schedules_def)
  have "fst (run_actions D cfg now req ptr peer (Collect # as') acc' m') =
      snd (announce_collect D cfg now req peer (heap m' ptr))" for acc' m'
    using run_actions_collected [OF n]
    by (cases acc'; cases "announce_collect D cfg now req peer (heap m' ptr)") simp
  note collect = this
  obtain e resp where acc: "acc = (e, resp)" by (cases acc)
  have "fst (run_actions D cfg now req ptr peer (Upsert # Collect # as') acc m) =
      snd (announce_collect D cfg now req peer (upsert_root (peerOps D) cfg peer (heap m ptr)))"
    unfolding acc run_actions.simps(2) [of _ _ _ _ _ _ Upsert] action.case collect heap_upsert_peer ..
  with as collect show ?thesis by blast
qed

lemma response_spec:
  fixes cfg now req peer acc
  assumes ok: "rok (heap m ptr)" and "as \<in> set schedules"
  defines "ps \<equiv> fst (run_actions D cfg now req ptr peer as acc m)"
    and "el \<equiv> eligibles (expireTime cfg now) peer (rview (heap m ptr))"
  shows "set ps \<subseteq> el" and "distinct (map p_ID ps)" and "length ps = min (nat (r_NumWant req)) (card el)"
proof -
  obtain r where r: "r = heap m ptr \<or> r = upsert_root (peerOps D) cfg peer (heap m ptr)"
    and ps: "ps = snd (announce_collect D cfg now req peer r)"
    using run_actions_resp [OF assms(2), of m ptr cfg peer now req acc] unfolding ps_def by (elim exE conjE)
  have rok: "rok r" using r ok upsert_root_ok by blast
  have "eligibles (expireTime cfg now) peer (rview r) = el"
    using r eligibles_upsert [OF P.root_ok_key [OF ok]] by (auto simp: el_def upsert_root_view [OF ok])
  with announce_collect_spec [OF rok, of cfg now req peer]
  show "set ps \<subseteq> el" "distinct (map p_ID ps)" "length ps = min (nat (r_NumWant req)) (card el)"
    by (simp_all add: ps)
qed

subsection \<open>The peer table after an announce\<close>

lemma run_root_invariant:
  assumes "P r" and "\<And>r. P r \<Longrightarrow> P (upsert_root (peerOps D) cfg peer r)"
    and "\<And>r ks. P r \<Longrightarrow> P (delete_root (peerOps D) ks r)"
    and "\<And>r. P r \<Longrightarrow> P (Root_rotate (peerOps D) cfg r)"
  shows "P (run_root D cfg now req peer as ks r)"
  using assms(1) by (induction as arbitrary: ks r) (auto split: action.splits intro: assms(2-4))

lemma run_root_ok: "rok r \<Longrightarrow> rok (run_root D cfg now req peer as ks r)"
  by (rule run_root_invariant) (auto intro: upsert_root_ok delete_root_ok P.Root_rotate_ok)

lemma run_root_infoHash [simp]: "infoHash (run_root D cfg now req peer as ks r) = infoHash r"
  by (rule run_root_invariant [where P = "\<lambda>r'. infoHash r' = infoHash r"]) simp_all

text \<open>Where a peer sits, and what the pieces of an announce do to it there.\<close>

lemma active_view:
  assumes "rok r" and "sm_Load (peerOps D) (activeMap r) k = Some p"
  shows "rview r k = Some p"
proof -
  let ?n = "currentActive r"
  from assms(1) obtain a b c where abc: "peerMap r = [a, b, c]"
    and disj: "dom (sm_Load (peerOps D) a) \<inter> dom (sm_Load (peerOps D) b) = {}"
      "dom (sm_Load (peerOps D) a) \<inter> dom (sm_Load (peerOps D) c) = {}"
      "dom (sm_Load (peerOps D) b) \<inter> dom (sm_Load (peerOps D) c) = {}" by (rule P.root_ok_maps)
  from assms(1) have n: "?n < 3" by (simp add: root_ok_def)
  show ?thesis using P.less_3_cases [OF n] disj assms(2)
    by (auto simp: P.root_view_triple [OF abc] activeMap_def abc map_add_def split: option.splits)
qed

lemma upsert_root_active:
  assumes ok: "rok r" and con: "IsPeerConnectable cfg peer"
  shows "\<exists>p. sm_Load (peerOps D) (activeMap (upsert_root (peerOps D) cfg peer r)) (p_ID peer) = Some p \<and>
    announced peer p"
proof -
  let ?k = "GetKey peer" and ?M = "peerOps D"
  obtain r' f where ld: "Root_LoadAndDelete ?M r ?k = (r', f)" by (cases "Root_LoadAndDelete ?M r ?k")
  from P.Root_LoadAndDelete_spec [OF ok, of ?k] ld
  have r': "rok r'" "rview r' = (rview r)(?k := None)" and f: "f = rview r ?k" by simp_all
  have los: "Root_LoadOrStore ?M r' ?k peer = (Root_Store ?M r' ?k peer, peer, False)"
    by (rule P.Root_LoadOrStore_new) (simp_all add: r')
  have act: "sm_Load ?M (activeMap (Root_Store ?M r' ?k p)) (p_ID peer) = Some p" for p
    using r'(1) P.activeMap_inv [OF r'(1)]
    by (simp add: Root_Store_def activeMap_def set_activeMap_def P.Load_Store root_ok_def GetKey_def)
  have "GetKey known = ?k" if "f = Some known" for known
    using P.root_ok_key [OF ok, of ?k known] f that by (simp add: GetKey_def)
  moreover have "announced peer (refresh_peer known peer)" if "GetKey known = ?k" for known
    using that by (simp add: announced_def refresh_peer_def GetKey_def)
  moreover have "announced peer peer" by (simp add: announced_def)
  ultimately show ?thesis using con
    by (cases f) (simp_all add: upsert_root_def ld los act)
qed

lemma delete_root_active:
  assumes "rok r" and "k \<notin> set ks"
  shows "sm_Load (peerOps D) (activeMap (delete_root (peerOps D) ks r)) k = sm_Load (peerOps D) (activeMap r) k"
  using assms
proof (induction ks arbitrary: r)
  case Nil
  then show ?case by (simp add: delete_root_def)
next
  case (Cons d ks)
  let ?r = "fst (Root_Delete (peerOps D) r d)"
  from Cons.prems(1) obtain a b c where abc: "peerMap r = [a, b, c]" and m: "pinv a" "pinv b" "pinv c"
    by (rule P.root_ok_maps)
  have n: "currentActive r < 3" using Cons.prems(1) by (simp add: root_ok_def)
  have "sm_Load (peerOps D) (activeMap ?r) k = sm_Load (peerOps D) (activeMap r) k"
    using P.less_3_cases [OF n] Cons.prems(2) m
    by (auto simp: Root_Delete_def activeMap_def abc P.Load_Delete prod.case_eq_if)
  moreover have "rok ?r" using Cons.prems(1) by (rule P.Root_Delete_ok)
  ultimately show ?case using Cons.IH [of ?r] Cons.prems(2) by (simp add: delete_root_def)
qed

lemma rotate_keeps_active:
  assumes ok: "rok r" and p: "sm_Load (peerOps D) (activeMap r) k = Some p"
  shows "rview (Root_rotate (peerOps D) cfg r) k = Some p"
proof -
  let ?n = "currentActive r"
  from ok have n: "?n < 3" by (simp add: root_ok_def)
  have "dom (sm_Load (peerOps D) (activeMap r)) \<inter> dom (sm_Load (peerOps D) (oldestMap r)) = {}"
    unfolding activeMap_def oldestMap_def
    by (rule P.root_ok_disjoint [OF ok n]) (use P.less_3_cases [OF n] in auto)
  then have "k \<notin> dom (sm_Load (peerOps D) (oldestMap r))" using p by auto
  with active_view [OF ok p] show ?thesis
    by (simp add: P.Root_rotate_view [OF ok])
qed

lemma delete_root_keeps: "rok r \<Longrightarrow> k \<notin> set ks \<Longrightarrow> rview (delete_root (peerOps D) ks r) k = rview r k"
  by (simp add: delete_root_view)

lemma collect_not_expired:
  assumes ok: "rok r" and "\<And>p. rview r k = Some p \<Longrightarrow> expireTime cfg now \<le> p_LastSeen p"
  shows "k \<notin> set (fst (announce_collect D cfg now req peer r))"
  using announce_collect_expired [of k cfg now req peer r] assms P.root_entries_iff [OF ok] by force

lemma run_root_stores:
  assumes ok: "rok r" and con: "IsPeerConnectable cfg peer" and as: "as \<in> set schedules"
    and fresh: "expireTime cfg now \<le> p_LastSeen peer"
    and race: "overtaken as \<Longrightarrow> \<forall>p. rview r (p_ID peer) = Some p \<longrightarrow> expireTime cfg now \<le> p_LastSeen p"
  shows "\<exists>p. rview (run_root D cfg now req peer as ks r) (p_ID peer) = Some p \<and> announced peer p"
proof -
  let ?k = "p_ID peer" and ?M = "peerOps D"
  let ?U = "upsert_root ?M cfg peer" and ?R = "Root_rotate ?M cfg" and ?X = "delete_root ?M"
  let ?c = "\<lambda>r. fst (announce_collect D cfg now req peer r)"
  define act where "act r \<longleftrightarrow> rok r \<and> (\<exists>p. sm_Load ?M (activeMap r) ?k = Some p \<and> announced peer p)" for r
  define view where "view r \<longleftrightarrow> rok r \<and> (\<exists>p. rview r ?k = Some p \<and> announced peer p)" for r
  have U: "act (?U r)" if "rok r" for r
    using upsert_root_active [OF that con] upsert_root_ok [OF that] by (simp add: act_def)
  have R: "view (?R r)" if "act r" for r
    using that rotate_keeps_active P.Root_rotate_ok unfolding act_def view_def by metis
  have AV: "view r" if "act r" for r
    using that active_view unfolding act_def view_def by metis
  have XA: "act (?X ks r)" if "act r" "?k \<notin> set ks" for r ks
    using that delete_root_active delete_root_ok unfolding act_def by metis
  have XV: "view (?X ks r)" if "view r" "?k \<notin> set ks" for r ks
    using that delete_root_keeps delete_root_ok unfolding view_def by metis
  have C1: "?k \<notin> set (?c (?U r))"
  proof (rule collect_not_expired)
    show "rok (?U r)" using ok by (rule upsert_root_ok)
    fix p assume "rview (?U r) ?k = Some p"
    moreover obtain p' where "rview (?U r) ?k = Some p'" "announced peer p'"
      using AV [OF U [OF ok]] unfolding view_def by blast
    ultimately show "expireTime cfg now \<le> p_LastSeen p" using fresh by (simp add: announced_def)
  qed
  have C2: "?k \<notin> set (?c r)" if "overtaken as"
    by (rule collect_not_expired [OF ok]) (use race [OF that] in blast)
  have oks: "rok (?X ks r)" "rok (?R r)" if "rok r" for ks r
    using that by (auto intro: delete_root_ok P.Root_rotate_ok)
  consider "as = [Upsert, Collect, Delete, Rotate]" | "as = [Upsert, Collect, Rotate, Delete]"
    | "overtaken as" "as = [Collect, Upsert, Delete, Rotate]" | "overtaken as" "as = [Collect, Upsert, Rotate, Delete]"
    | "as = [Collect, Delete, Upsert, Rotate]" | "as = [Collect, Delete, Rotate, Upsert]"
    | "overtaken as" "as = [Collect, Rotate, Upsert, Delete]" | "as = [Collect, Rotate, Delete, Upsert]"
    using as by (auto simp: schedules_def overtaken_def)
  then have "view (run_root D cfg now req peer as ks r)"
  proof cases
    case 1 then show ?thesis using C1 by (simp add: R XA U ok)
  next
    case 2 then show ?thesis using C1 by (simp add: XV R U ok)
  next
    case 3 then show ?thesis using C2 by (simp add: R XA U ok)
  next
    case 4 then show ?thesis using C2 by (simp add: XV R U ok)
  next
    case 5 then show ?thesis by (simp add: R U oks ok)
  next
    case 6 then show ?thesis by (simp add: AV U oks ok)
  next
    case 7 then show ?thesis using C2 by (simp add: XV AV U oks ok)
  next
    case 8 then show ?thesis by (simp add: AV U oks ok)
  qed
  then show ?thesis by (simp add: view_def)
qed

subsection \<open>The size of a peer table\<close>

lemma maps_inv:
  assumes "rok r"
  shows "pinv (activeMap r)" and "pinv (oldestMap r)"
    and "Root_Len (peerOps D) r = sm_Len (peerOps D) (activeMap r) + sm_Len (peerOps D) (oldestMap r)"
proof -
  from assms obtain a b c where abc: "peerMap r = [a, b, c]" and m: "pinv a" "pinv b" "pinv c"
    by (rule P.root_ok_maps)
  from assms have n: "currentActive r < 3" and e: "sm_Load (peerOps D) ([a, b, c] ! ((currentActive r + 1) mod 3)) = Map.empty"
    by (simp_all add: root_ok_def abc)
  show "pinv (activeMap r)" and "pinv (oldestMap r)"
    and "Root_Len (peerOps D) r = sm_Len (peerOps D) (activeMap r) + sm_Len (peerOps D) (oldestMap r)"
    using P.less_3_cases [OF n] m e
    by (auto simp: activeMap_def oldestMap_def abc Root_Len_def P.Len_eq_0_iff)
qed

lemma bounded_New: "0 \<le> a \<Longrightarrow> 0 \<le> b \<Longrightarrow> bounded (peerOps D) a b (NewInfoHashRoot (peerOps D) now ih)"
  by (simp add: bounded_def activeMap_def oldestMap_def NewInfoHashRoot_def)

lemma bounded_mono: "bounded M a b r \<Longrightarrow> a \<le> a' \<Longrightarrow> b \<le> b' \<Longrightarrow> bounded M a' b' r"
  by (simp add: bounded_def)

lemma bounded_Store:
  assumes "rok r" and "bounded (peerOps D) a b r"
  shows "bounded (peerOps D) (a + 1) b (Root_Store (peerOps D) r k p)"
proof -
  from assms(1) have n: "currentActive r < 3" and l: "length (peerMap r) = 3" by (simp_all add: root_ok_def)
  have "(currentActive r + 2) mod 3 \<noteq> currentActive r" using P.less_3_cases [OF n] by auto
  then show ?thesis
    using assms(2) n l P.Len_Store_le [OF maps_inv(1) [OF assms(1)], of k p]
    by (simp add: bounded_def Root_Store_def activeMap_def oldestMap_def set_activeMap_def)
qed

lemma bounded_shrink:
  assumes ok: "rok r" and b: "bounded (peerOps D) a b r" and "currentActive r' = currentActive r"
    and "list_all2 (\<lambda>x y. sm_Len (peerOps D) y \<le> sm_Len (peerOps D) x) (peerMap r) (peerMap r')"
  shows "bounded (peerOps D) a b r'"
proof -
  have "length (peerMap r) = 3" "currentActive r < 3" using ok by (simp_all add: root_ok_def)
  with assms(4) have "sm_Len (peerOps D) (peerMap r' ! j) \<le> sm_Len (peerOps D) (peerMap r ! j)" if "j < 3" for j
    using that by (simp add: list_all2_conv_all_nth)
  from this [of "currentActive r"] this [of "(currentActive r + 2) mod 3"] b show ?thesis
    using assms(3) \<open>currentActive r < 3\<close> by (simp add: bounded_def activeMap_def oldestMap_def)
qed

lemma bounded_LoadAndDelete:
  assumes "rok r" and "bounded (peerOps D) a b r"
  shows "bounded (peerOps D) a b (fst (Root_LoadAndDelete (peerOps D) r k))"
proof (rule bounded_shrink [OF assms])
  show "currentActive (fst (Root_LoadAndDelete (peerOps D) r k)) = currentActive r"
    by (simp add: Root_LoadAndDelete_def prod.case_eq_if)
  from assms(1) have "\<forall>m \<in> set (peerMap r). pinv m" by (simp add: root_ok_def list_all_iff)
  then show "list_all2 (\<lambda>x y. sm_Len (peerOps D) y \<le> sm_Len (peerOps D) x) (peerMap r)
      (peerMap (fst (Root_LoadAndDelete (peerOps D) r k)))"
    by (auto simp: Root_LoadAndDelete_def prod.case_eq_if P.fst_LoadAndDelete_loop list_all2_conv_all_nth
        P.LoadAndDelete_fst P.Len_Delete_le)
qed

lemma bounded_Delete:
  assumes "rok r" and "bounded (peerOps D) a b r"
  shows "bounded (peerOps D) a b (fst (Root_Delete (peerOps D) r k))"
proof (rule bounded_shrink [OF assms])
  show "currentActive (fst (Root_Delete (peerOps D) r k)) = currentActive r"
    by (simp add: Root_Delete_def prod.case_eq_if)
  have "list_all2 (\<lambda>x y. sm_Len (peerOps D) y \<le> sm_Len (peerOps D) x) ms (fst (Delete_loop (peerOps D) ms k f))"
    if "list_all pinv ms" for ms f
    using that by (induction ms arbitrary: f) (auto simp: prod.case_eq_if P.Len_Delete_le)
  with assms(1) show "list_all2 (\<lambda>x y. sm_Len (peerOps D) y \<le> sm_Len (peerOps D) x) (peerMap r)
      (peerMap (fst (Root_Delete (peerOps D) r k)))"
    by (simp add: Root_Delete_def prod.case_eq_if root_ok_def)
qed

lemma bounded_delete_root:
  "rok r \<Longrightarrow> bounded (peerOps D) a b r \<Longrightarrow> bounded (peerOps D) a b (delete_root (peerOps D) ks r)"
  by (induction ks arbitrary: r) (simp_all add: delete_root_def bounded_Delete P.Root_Delete_ok)

lemma bounded_upsert:
  assumes ok: "rok r" and b: "bounded (peerOps D) a b r"
  shows "bounded (peerOps D) (a + 1) b (upsert_root (peerOps D) cfg peer r)"
proof -
  let ?k = "GetKey peer" and ?M = "peerOps D"
  obtain r' f where ld: "Root_LoadAndDelete ?M r ?k = (r', f)" by (cases "Root_LoadAndDelete ?M r ?k")
  from P.Root_LoadAndDelete_spec [OF ok, of ?k] ld
  have r': "rok r'" "rview r' = (rview r)(?k := None)" by simp_all
  have b': "bounded ?M a b r'" using bounded_LoadAndDelete [OF ok b, of ?k] by (simp add: ld)
  have los: "Root_LoadOrStore ?M r' ?k peer = (Root_Store ?M r' ?k peer, peer, False)"
    by (rule P.Root_LoadOrStore_new) (simp_all add: r')
  show ?thesis using bounded_Store [OF r'(1) b'] b'
    by (auto simp: upsert_root_def ld los split: option.splits intro: bounded_mono)
qed

lemma bounded_rotate:
  assumes ok: "rok r" and b: "bounded (peerOps D) a b r" and h: "0 \<le> half_limit cfg" and "a \<le> b"
  shows "bounded (peerOps D) (half_limit cfg) b (Root_rotate (peerOps D) cfg r)"
proof -
  from ok obtain x y z where xyz: "peerMap r = [x, y, z]" and m: "pinv x" "pinv y" "pinv z"
    by (rule P.root_ok_maps)
  from ok have n: "currentActive r < 3"
    and "sm_Load (peerOps D) ([x, y, z] ! ((currentActive r + 1) mod 3)) = Map.empty"
    by (simp_all add: root_ok_def xyz)
  then have "sm_Len (peerOps D) ([x, y, z] ! ((currentActive r + 1) mod 3)) = 0"
    using P.less_3_cases [OF n] m by (auto simp: P.Len_eq_0_iff)
  then show ?thesis
    using P.less_3_cases [OF n] b h \<open>a \<le> b\<close>
    by (auto simp: bounded_def Root_rotate_def activeMap_def oldestMap_def half_limit_def Let_def xyz)
qed

lemma run_root_bounded:
  assumes ok: "rok r" and b: "bounded (peerOps D) (half_limit cfg + 1) (half_limit cfg + 2) r"
    and h: "0 \<le> half_limit cfg" and as: "as \<in> set schedules"
  shows "bounded (peerOps D) (half_limit cfg + 1) (half_limit cfg + 2) (run_root D cfg now req peer as ks r)"
proof -
  let ?M = "peerOps D" and ?h = "half_limit cfg"
  let ?U = "upsert_root ?M cfg peer" and ?R = "Root_rotate ?M cfg" and ?X = "delete_root ?M"
  define low where "low r \<longleftrightarrow> rok r \<and> bounded ?M ?h (?h + 2) r" for r
  define mid where "mid r \<longleftrightarrow> rok r \<and> bounded ?M (?h + 1) (?h + 2) r" for r
  define high where "high r \<longleftrightarrow> rok r \<and> bounded ?M (?h + 2) (?h + 2) r" for r
  have U: "mid (?U r)" if "low r" for r
    using that by (simp add: low_def mid_def upsert_root_ok bounded_upsert)
  have U': "high (?U r)" if "mid r" for r
    using that bounded_upsert [of r "?h + 1" "?h + 2"] by (simp add: mid_def high_def upsert_root_ok add.commute)
  have R: "low (?R r)" if "high r" for r
    using that bounded_rotate [OF _ _ h, of r "?h + 2"] by (simp add: high_def low_def P.Root_rotate_ok)
  have R': "low (?R r)" if "mid r" for r
    using that bounded_rotate [OF _ _ h, of r "?h + 1"] by (simp add: mid_def low_def P.Root_rotate_ok)
  have X: "low (?X ks r)" if "low r" for ks r
    using that by (simp add: low_def delete_root_ok bounded_delete_root)
  have X': "mid (?X ks r)" if "mid r" for ks r
    using that by (simp add: mid_def delete_root_ok bounded_delete_root)
  have X'': "high (?X ks r)" if "high r" for ks r
    using that by (simp add: high_def delete_root_ok bounded_delete_root)
  have lm: "mid r" if "low r" for r using that by (auto simp: low_def mid_def intro: bounded_mono)
  have m: "mid r" using ok b by (simp add: mid_def)
  have "mid (run_root D cfg now req peer as ks r)"
    using as m by (auto simp: schedules_def lm R R' X X' X'' U U')
  then show ?thesis by (simp add: mid_def)
qed

end

end
