(* ===== verification/Local_Ops.thy ===== *)
theory Local_Ops
  imports Local_Correct
begin

text \<open>
  The operations of the in-memory manager on its abstract state: what an announce, a scrape, a
  cleaning run and the administrative operations do to the map from info hashes to swarms. The
  manager is then seen as a state machine, with an invariant of its reachable states.
\<close>

section \<open>Steps that only forget\<close>

text \<open>Steps that only remove: of peers from a root, and of whole torrents.\<close>

inductive root_shrink :: "('pm, Peer) SyncStringMap \<Rightarrow> 'pm InfoHashRoot \<Rightarrow> 'pm InfoHashRoot \<Rightarrow> bool"
  for M :: "('pm, Peer) SyncStringMap" where
  "root_shrink M r (fst (Root_LoadAndDelete M r k))"
| "root_shrink M r (fst (Root_Delete M r k))"
| "root_shrink M r (r\<lparr>lastClean := t\<rparr>)"

definition root_shrinks :: "('pm, Peer) SyncStringMap \<Rightarrow> 'pm InfoHashRoot \<Rightarrow> 'pm InfoHashRoot \<Rightarrow> bool" where
  "root_shrinks M = (root_shrink M)\<^sup>*\<^sup>*"

definition shrinks :: "('rm, 'pm) maps \<Rightarrow> ('rm, 'pm) Manager \<Rightarrow> ('rm, 'pm) Manager \<Rightarrow> bool" where
  "shrinks D m m' \<longleftrightarrow>
     (\<forall>ptr. root_shrinks (peerOps D) (heap m ptr) (heap m' ptr)) \<and>
     (\<lambda>x y. \<exists>ih. y = fst (sm_Delete (rootOps D) x ih))\<^sup>*\<^sup>* (infoHashMap m) (infoHashMap m') \<and>
     nextRoot m' = nextRoot m \<and> outbox m' = outbox m"

text \<open>
  What a scrape reports of a swarm: the peers not expired, counted by what they have.
\<close>

definition swarm_count :: "gotime \<Rightarrow> (Peer \<Rightarrow> bool) \<Rightarrow> swarm \<Rightarrow> nat" where
  "swarm_count ex Q sw = card {k. \<exists>p. sw k = Some p \<and> \<not> ex > p_LastSeen p \<and> Q p}"

definition scrape_of :: "gotime \<Rightarrow> swarm \<Rightarrow> ScrapeFile" where
  "scrape_of ex sw = \<lparr>
     sf_Seeder = int (swarm_count ex (\<lambda>p. p_Left p = 0 \<and> p_Event p \<noteq> PeerEvent_Stopped) sw),
     sf_Complete = int (swarm_count ex (\<lambda>p. p_Left p = 0 \<or> p_Event p = PeerEvent_Completed) sw),
     sf_Incomplete = int (swarm_count ex (\<lambda>p. p_Left p \<noteq> 0 \<and> p_Event p \<noteq> PeerEvent_Completed) sw),
     sf_Downloaded = int (swarm_count ex (\<lambda>p. p_Left p = 0) sw)\<rparr>"

text \<open>A swarm without its expired peers.\<close>

definition live :: "gotime \<Rightarrow> swarm \<Rightarrow> swarm" where
  "live ex sw k = (case sw k of Some p \<Rightarrow> if ex > p_LastSeen p then None else Some p | None \<Rightarrow> None)"

text \<open>
  The manager and the cache it scrapes through as one state machine: announces with any schedule,
  scrapes, cleaning runs, deletions, closed connections, and changes of the cache from outside.
\<close>

inductive local_step ::
  "('rm, 'pm) maps \<Rightarrow> Config \<Rightarrow> 'c RedisClient \<Rightarrow> ScrapeFile Codec \<Rightarrow>
   ('rm, 'pm) Manager \<times> 'c \<Rightarrow> ('rm, 'pm) Manager \<times> 'c \<Rightarrow> bool"
  for D :: "('rm, 'pm) maps" and cfg :: Config and Client :: "'c RedisClient" and codec :: "ScrapeFile Codec" where
  step_announce: "schedule env \<in> set schedules \<Longrightarrow>
    local_step D cfg Client codec (m, c) (snd (HandleAnnouncePeer D cfg env req m), c)"
| step_scrape: "local_step D cfg Client codec (m, c) (snd (Scrape D cfg Client codec now ih (m, c)))"
| step_clean: "local_step D cfg Client codec (m, c) (snd (Clean D cfg now m), c)"
| step_delete: "local_step D cfg Client codec (m, c) (local_DeleteInfoHash D ih m, c)"
| step_ban: "local_step D cfg Client codec (m, c) (local_BanInfoHash D ih m, c)"
| step_close: "local_step D cfg Client codec (m, c) (Conn_Close D conn m, c)"
| step_cache: "local_step D cfg Client codec (m, c) (m, c')"

inductive local_reachable ::
  "('rm, 'pm) maps \<Rightarrow> Config \<Rightarrow> 'c RedisClient \<Rightarrow> ScrapeFile Codec \<Rightarrow> ('rm, 'pm) Manager \<times> 'c \<Rightarrow> bool"
  for D :: "('rm, 'pm) maps" and cfg :: Config and Client :: "'c RedisClient" and codec :: "ScrapeFile Codec" where
  reach_init: "local_reachable D cfg Client codec (NewLocalManger D, c)"
| reach_step: "local_reachable D cfg Client codec s \<Longrightarrow> local_step D cfg Client codec s s' \<Longrightarrow>
    local_reachable D cfg Client codec s'"

text \<open>No peer of the swarm has announced that it stopped.\<close>

definition running :: "swarm \<Rightarrow> bool" where
  "running sw \<longleftrightarrow> (\<forall>k p. sw k = Some p \<longrightarrow> p_Event p \<noteq> PeerEvent_Stopped)"

definition mgr_inv ::
  "('rm, 'pm) maps \<Rightarrow> ('rm \<Rightarrow> bool) \<Rightarrow> ('pm \<Rightarrow> bool) \<Rightarrow> Config \<Rightarrow> ('rm, 'pm) Manager \<Rightarrow> bool" where
  "mgr_inv D rinv pinv cfg m \<longleftrightarrow> mgr_ok D rinv pinv m \<and>
     (\<forall>ptr. bounded (peerOps D) (half_limit cfg + 1) (half_limit cfg + 2) (heap m ptr) \<and>
            running (root_view (peerOps D) (heap m ptr)))"

text \<open>What a cleaning run makes of one torrent.\<close>

definition cleaned_recently :: "Config \<Rightarrow> gotime \<Rightarrow> 'pm InfoHashRoot \<Rightarrow> bool" where
  "cleaned_recently cfg now r \<longleftrightarrow>
     time_Add (lastClean r) (duration_seconds (t_TTL (c_Tracker cfg))) > now"

definition websocket_peer :: "Peer \<Rightarrow> bool" where
  "websocket_peer p \<longleftrightarrow> p_Type p = PeerTypeWebtorrent \<and> p_Conn p \<noteq> None"

definition clean_torrent ::
  "('rm, 'pm) maps \<Rightarrow> Config \<Rightarrow> gotime \<Rightarrow> ('rm, 'pm) Manager \<Rightarrow> string \<Rightarrow> swarm option" where
  "clean_torrent D cfg now m ih =
     (case sm_Load (rootOps D) (infoHashMap m) ih of
        None \<Rightarrow> None
      | Some ptr \<Rightarrow>
          (let sw = root_view (peerOps D) (heap m ptr) in
           if cleaned_recently cfg now (heap m ptr) then Some sw
           else if live (expireTime cfg now) sw = Map.empty then None
           else Some (live (expireTime cfg now) sw)))"

context local_maps
begin

subsection \<open>Operations that only forget peers\<close>

text \<open>
  Scraping, cleaning, closing connections and deleting torrents remove peers and torrents and touch
  nothing else. \<open>root_shrinks\<close> and \<open>shrinks\<close> say so; what such steps keep is proved once.
\<close>

lemma root_shrinks_trans: "root_shrinks M r r' \<Longrightarrow> root_shrinks M r' r'' \<Longrightarrow> root_shrinks M r r''"
  by (simp add: root_shrinks_def)

lemma root_shrinks_refl: "root_shrinks M r r"
  by (simp add: root_shrinks_def)

lemma root_shrinks_LoadAndDelete: "root_shrinks M r (fst (Root_LoadAndDelete M r k))"
  by (simp add: root_shrinks_def root_shrink.intros r_into_rtranclp)

lemma root_shrinks_lastClean: "root_shrinks M r (r\<lparr>lastClean := t\<rparr>)"
  by (simp add: root_shrinks_def root_shrink.intros r_into_rtranclp)

lemma root_shrinks_delete: "root_shrinks M r (delete_root M ks r)"
proof (induction ks arbitrary: r)
  case Nil
  then show ?case by (simp add: delete_root_def root_shrinks_refl)
next
  case (Cons k ks)
  have "root_shrinks M r (fst (Root_Delete M r k))"
    by (simp add: root_shrinks_def root_shrink.intros r_into_rtranclp)
  from root_shrinks_trans [OF this Cons.IH] show ?case by (simp add: delete_root_def)
qed

lemma root_lastClean [simp]:
  "root_view M (r\<lparr>lastClean := t\<rparr>) = root_view M r"
  "root_ok M i (r\<lparr>lastClean := t\<rparr>) = root_ok M i r"
  "bounded M a b (r\<lparr>lastClean := t\<rparr>) = bounded M a b r"
  by (simp_all add: root_view_def Root_Load_def fun_eq_iff root_ok_def bounded_def activeMap_def oldestMap_def)

lemma root_shrinks_spec:
  assumes "root_shrinks (peerOps D) r r'" and "rok r"
  shows "rok r' \<and> rview r' \<subseteq>\<^sub>m rview r \<and> infoHash r' = infoHash r \<and>
    (\<forall>a b. bounded (peerOps D) a b r \<longrightarrow> bounded (peerOps D) a b r')"
  using assms unfolding root_shrinks_def
proof (induction rule: rtranclp_induct)
  case base
  then show ?case by simp
next
  case (step r1 r2)
  then have ok: "rok r1" by simp
  from step.hyps(2) have "rok r2 \<and> rview r2 \<subseteq>\<^sub>m rview r1 \<and> infoHash r2 = infoHash r1 \<and>
    (\<forall>a b. bounded (peerOps D) a b r1 \<longrightarrow> bounded (peerOps D) a b r2)"
    using ok by cases (auto simp: P.Root_LoadAndDelete_ok P.Root_LoadAndDelete_view P.Root_Delete_ok
        P.Root_Delete_view bounded_LoadAndDelete bounded_Delete map_le_def)
  with step.IH [OF step.prems] show ?case by (auto intro: map_le_trans)
qed

lemma shrinks_refl: "shrinks D m m"
  by (simp add: shrinks_def root_shrinks_refl)

lemma shrinks_trans:
  assumes "shrinks D m m'" and "shrinks D m' m''"
  shows "shrinks D m m''"
proof -
  have "root_shrinks (peerOps D) (heap m ptr) (heap m'' ptr)" for ptr
    by (rule root_shrinks_trans [of _ _ "heap m' ptr"]) (use assms in \<open>simp_all add: shrinks_def\<close>)
  moreover have "(\<lambda>x y. \<exists>ih. y = fst (sm_Delete (rootOps D) x ih))\<^sup>*\<^sup>* (infoHashMap m) (infoHashMap m'')"
    by (rule rtranclp_trans [of _ _ "infoHashMap m'"]) (use assms in \<open>simp_all add: shrinks_def\<close>)
  ultimately show ?thesis using assms by (simp add: shrinks_def)
qed

lemma shrinks_set_root:
  "root_shrinks (peerOps D) (heap m ptr) r \<Longrightarrow> shrinks D m (set_root ptr r m)"
  by (simp add: shrinks_def root_shrinks_refl)

lemma shrinks_deleteTorrent:
  "shrinks D m (m\<lparr>infoHashMap := fst (sm_Delete (rootOps D) (infoHashMap m) ih)\<rparr>)"
  by (auto simp: shrinks_def root_shrinks_refl intro!: r_into_rtranclp)

lemma shrinks_conns: "shrinks D m (m\<lparr>conns := c\<rparr>)"
  by (simp add: shrinks_def root_shrinks_refl)

lemma index_shrinks:
  assumes "(\<lambda>x y. \<exists>ih. y = fst (sm_Delete (rootOps D) x ih))\<^sup>*\<^sup>* im im'" and "rinv im"
  shows "rinv im' \<and> sm_Load (rootOps D) im' \<subseteq>\<^sub>m sm_Load (rootOps D) im"
  using assms
proof (induction rule: rtranclp_induct)
  case (step y z)
  then show ?case by (auto simp: R.minv_Delete R.Load_Delete map_le_def dom_def split: if_splits)
qed simp

lemma shrinks_mok:
  assumes "shrinks D m m'" and ok: "mok m"
  shows "mok m'"
proof -
  from assms have im: "rinv (infoHashMap m') \<and> rootAt m' \<subseteq>\<^sub>m rootAt m"
    using index_shrinks [of "infoHashMap m" "infoHashMap m'"] mok_rootD(2) [OF ok] by (simp add: shrinks_def)
  have "rok (heap m' ptr) \<and> infoHash (heap m' ptr) = infoHash (heap m ptr)" for ptr
    using assms root_shrinks_spec [of "heap m ptr" "heap m' ptr"] mok_rootD(1) [OF ok] by (simp add: shrinks_def)
  with im ok assms show ?thesis by (auto simp: mgr_ok_def map_le_def dom_def shrinks_def)
qed

lemma shrinks_view:
  assumes "shrinks D m m'" and ok: "mok m" and v: "mgr_view D m' ih = Some sw'"
  obtains sw where "mgr_view D m ih = Some sw" and "sw' \<subseteq>\<^sub>m sw"
proof -
  from v obtain ptr where p: "rootAt m' ih = Some ptr" and sw': "sw' = rview (heap m' ptr)"
    by (auto simp: mgr_view_def)
  from assms have "rootAt m' \<subseteq>\<^sub>m rootAt m"
    using index_shrinks [of "infoHashMap m" "infoHashMap m'"] mok_rootD(2) [OF ok] by (simp add: shrinks_def)
  with p have "rootAt m ih = Some ptr" by (auto simp: map_le_def dom_def)
  moreover have "rview (heap m' ptr) \<subseteq>\<^sub>m rview (heap m ptr)"
    using assms root_shrinks_spec [of "heap m ptr" "heap m' ptr"] mok_rootD(1) [OF ok] by (simp add: shrinks_def)
  ultimately show ?thesis by (intro that) (simp_all add: mgr_view_def sw')
qed

subsection \<open>Announcing\<close>

lemma register_callback_simps [simp]:
  "heap (register_callback req peer ptr m) = heap m"
  "infoHashMap (register_callback req peer ptr m) = infoHashMap m"
  "nextRoot (register_callback req peer ptr m) = nextRoot m"
  "outbox (register_callback req peer ptr m) = outbox m"
  by (simp_all add: register_callback_def split: option.splits)

lemma mgr_view_register [simp]: "mgr_view D (register_callback req peer ptr m) = mgr_view D m"
  by (simp add: mgr_view_def fun_eq_iff)

lemma mok_register [simp]: "mok (register_callback req peer ptr m) \<longleftrightarrow> mok m"
  by (simp add: mgr_ok_def)

lemma newPeer_ID [simp]: "p_ID (newPeer req now) = r_PeerID req" "p_LastSeen (newPeer req now) = now"
  "p_Event (newPeer req now) = ParsePeerEvent (r_Event req)"
  by (simp_all add: newPeer_def)

lemma announce_invalid:
  "\<not> valid_addresses (newPeer req (now_seen env)) \<Longrightarrow>
   HandleAnnouncePeer D cfg env req m = (Inl ''invalid address'', m)"
  by (simp add: HandleAnnouncePeer_def announce_enter_def Let_def)

lemma announce_first:
  fixes env req
  defines "peer \<equiv> newPeer req (now_seen env)" and "ih \<equiv> r_InfoHash req"
  assumes ok: "mok m" and v: "valid_addresses peer" and n: "mgr_view D m ih = None"
  obtains m' where "HandleAnnouncePeer D cfg env req m = (Inr [], m')" and "mok m'"
    and "mgr_view D m' = (mgr_view D m)(ih \<mapsto>
      (if IsPeerConnectable cfg peer \<and> p_Event peer \<noteq> PeerEvent_Stopped then [p_ID peer \<mapsto> peer] else Map.empty))"
    and "outbox m' = outbox m @ [(ih, peer)]"
    and "\<exists>r. heap m' = (heap m)(nextRoot m := r) \<and> (r = NewInfoHashRoot (peerOps D) (now_seen env) ih \<or>
      p_Event peer \<noteq> PeerEvent_Stopped \<and>
      r = Root_Store (peerOps D) (NewInfoHashRoot (peerOps D) (now_seen env) ih) (GetKey peer) peer)"
    and "rootAt m' = (rootAt m)(ih \<mapsto> nextRoot m)" and "nextRoot m' = Suc (nextRoot m)"
proof -
  let ?store = "IsPeerConnectable cfg peer \<and> p_Event peer \<noteq> PeerEvent_Stopped"
  let ?r = "NewInfoHashRoot (peerOps D) (now_seen env) ih"
  from n have "rootAt m ih = None" by (simp add: mgr_view_def)
  then obtain m1 where new: "load_or_new_root D (now_seen env) ih m = (m1, nextRoot m, False)" and ok1: "mok m1"
    and at: "rootAt m1 = (rootAt m)(ih \<mapsto> nextRoot m)"
    and view: "mgr_view D m1 = (mgr_view D m)(ih \<mapsto> Map.empty)" and h: "heap m1 = (heap m)(nextRoot m := ?r)"
    and out: "outbox m1 = outbox m" and nr: "nextRoot m1 = Suc (nextRoot m)"
    using load_or_new_root_new [OF ok] by metis
  let ?m2 = "register_callback req peer (nextRoot m) m1"
  let ?los = "Root_LoadOrStore (peerOps D) ?r (GetKey peer) peer"
  define m3 where "m3 = (if ?store then set_root (nextRoot m) (fst ?los) ?m2 else ?m2)"
  have rok: "rok ?r" by (rule P.root_ok_New)
  have los: "fst ?los = Root_Store (peerOps D) ?r (GetKey peer) peer"
    by (simp add: P.Root_LoadOrStore_new [OF rok] P.root_view_New)
  have free: "sm_Load (peerOps D) (peerMap ?r ! j) (GetKey peer) = None" if "j < 3" for j
    using P.root_view_None_maps [OF rok _ that, of "GetKey peer"] by (simp add: P.root_view_New)
  have st: "rok (fst ?los)" "rview (fst ?los) = [p_ID peer \<mapsto> peer]"
    unfolding los using P.Root_Store_spec [OF rok refl free] by (simp_all add: P.root_view_New GetKey_def)
  have same: "same_but (nextRoot m) (fst ?los) ?m2 (set_root (nextRoot m) (fst ?los) ?m2)"
    by (simp add: same_but_def)
  have "mok m3" using ok1 mok_same_but [OF _ same] st(1) by (simp add: m3_def h)
  moreover have "mgr_view D m3 = (mgr_view D m)(ih \<mapsto> if ?store then [p_ID peer \<mapsto> peer] else Map.empty)"
    using mgr_view_same_but [OF _ same, of ih] ok1 at st(2) view by (simp add: m3_def)
  moreover have "HandleAnnouncePeer D cfg env req m = (Inr [], send_event ih peer m3)"
    using v new h by (simp add: HandleAnnouncePeer_def announce_enter_def m3_def peer_def [symmetric] ih_def [symmetric] Let_def)
  moreover have "heap m3 = (heap m)(nextRoot m := if ?store then fst ?los else ?r)"
    by (simp add: m3_def h)
  ultimately show ?thesis
    by (intro that [of "send_event ih peer m3"]) (auto simp: m3_def out los at nr)
qed

lemma announce_stopped:
  fixes env req
  defines "peer \<equiv> newPeer req (now_seen env)" and "ih \<equiv> r_InfoHash req"
  assumes ok: "mok m" and v: "valid_addresses peer" and sw: "mgr_view D m ih = Some sw"
    and st: "p_Event peer = PeerEvent_Stopped"
  obtains m' where "HandleAnnouncePeer D cfg env req m = (Inr [], m')" and "shrinks D m m'"
    and "mgr_view D m' = (mgr_view D m)(ih \<mapsto> sw(p_ID peer := None))"
    and "\<And>ptr. rootAt m ih \<noteq> Some ptr \<Longrightarrow> heap m' ptr = heap m ptr" and "infoHashMap m' = infoHashMap m"
proof -
  from sw obtain ptr where p: "rootAt m ih = Some ptr" and sw': "sw = rview (heap m ptr)"
    by (auto simp: mgr_view_def)
  let ?r = "fst (Root_LoadAndDelete (peerOps D) (heap m ptr) (GetKey peer))"
  let ?m1 = "register_callback req peer ptr m"
  have same: "same_but ptr ?r ?m1 (set_root ptr ?r ?m1)" by (simp add: same_but_def)
  have rv: "rview ?r = sw(p_ID peer := None)"
    using P.Root_LoadAndDelete_view mok_rootD(1) [OF ok] by (simp add: sw' GetKey_def)
  have "shrinks D m ?m1" by (auto simp: shrinks_def root_shrinks_refl)
  then have "shrinks D m (set_root ptr ?r ?m1)"
    by (rule shrinks_trans) (rule shrinks_set_root, simp add: root_shrinks_LoadAndDelete)
  moreover have "mgr_view D (set_root ptr ?r ?m1) = (mgr_view D m)(ih \<mapsto> sw(p_ID peer := None))"
    using mgr_view_same_but [OF _ same, of ih] ok p rv by simp
  moreover have "HandleAnnouncePeer D cfg env req m = (Inr [], set_root ptr ?r ?m1)"
    using v load_or_new_root_known [OF ok p, of "now_seen env"] st
    by (simp add: HandleAnnouncePeer_def announce_enter_def peer_def [symmetric] ih_def [symmetric] Let_def)
  ultimately show ?thesis using p by (intro that [of "set_root ptr ?r ?m1"]) auto
qed

lemma announce_known:
  fixes env req cfg
  defines "peer \<equiv> newPeer req (now_seen env)" and "ih \<equiv> r_InfoHash req"
  assumes ok: "mok m" and v: "valid_addresses peer" and p: "rootAt m ih = Some ptr"
    and st: "p_Event peer \<noteq> PeerEvent_Stopped"
  defines "r \<equiv> run_root D cfg (now_expire env) req peer (schedule env) [] (heap m ptr)"
  obtains m' where "HandleAnnouncePeer D cfg env req m = (Inr (fst (run_actions D cfg (now_expire env) req ptr peer
        (schedule env) ([], []) (register_callback req peer ptr m))), m')"
    and "mok m'" and "mgr_view D m' = (mgr_view D m)(ih \<mapsto> rview r)"
    and "heap m' = (heap m)(ptr := r)" and "infoHashMap m' = infoHashMap m" and "nextRoot m' = nextRoot m"
proof -
  let ?m1 = "register_callback req peer ptr m"
  let ?run = "run_actions D cfg (now_expire env) req ptr peer (schedule env) ([], []) ?m1"
  have same: "same_but ptr r ?m1 (snd ?run)"
    using run_actions_root [of ptr D cfg "now_expire env" req peer "schedule env" "([], [])" ?m1] by (simp add: r_def)
  have "rok r" unfolding r_def using mok_rootD(1) [OF ok] by (rule run_root_ok)
  with ok mok_same_but [OF _ same] have "mok (snd ?run)" by (simp add: r_def)
  moreover have "mgr_view D (snd ?run) = (mgr_view D m)(ih \<mapsto> rview r)"
    using mgr_view_same_but [OF _ same, of ih] ok p by simp
  moreover have "HandleAnnouncePeer D cfg env req m = (Inr (fst ?run), snd ?run)"
    using v load_or_new_root_known [OF ok p, of "now_seen env"] st
    by (simp add: HandleAnnouncePeer_def announce_enter_def peer_def [symmetric] ih_def [symmetric] Let_def
        prod.case_eq_if)
  ultimately show ?thesis using same by (intro that [of "snd ?run"]) (simp_all add: same_but_def)
qed

text \<open>What an announce leaves alone: other roots, and the entries of other torrents.\<close>

lemma announce_frame:
  fixes env req cfg
  assumes ok: "mok m"
  defines "m' \<equiv> snd (HandleAnnouncePeer D cfg env req m)"
  shows "mok m' \<and> nextRoot m \<le> nextRoot m' \<and>
    (\<forall>ptr < nextRoot m. infoHash (heap m' ptr) = infoHash (heap m ptr) \<and>
       (rootAt m (r_InfoHash req) \<noteq> Some ptr \<longrightarrow> heap m' ptr = heap m ptr)) \<and>
    (\<forall>ih. ih \<noteq> r_InfoHash req \<longrightarrow> rootAt m' ih = rootAt m ih)"
proof -
  let ?peer = "newPeer req (now_seen env)" and ?ih = "r_InfoHash req"
  consider "\<not> valid_addresses ?peer" | "valid_addresses ?peer" "mgr_view D m ?ih = None"
    | sw where "valid_addresses ?peer" "mgr_view D m ?ih = Some sw" "p_Event ?peer = PeerEvent_Stopped"
    | ptr where "valid_addresses ?peer" "rootAt m ?ih = Some ptr" "p_Event ?peer \<noteq> PeerEvent_Stopped"
    by (cases "rootAt m ?ih") (auto simp: mgr_view_def)
  then show ?thesis
  proof cases
    case 1
    then show ?thesis using ok by (simp add: m'_def announce_invalid)
  next
    case 2
    show ?thesis by (rule announce_first [OF ok 2, of cfg]) (auto simp: m'_def)
  next
    case 3
    show ?thesis
    proof (rule announce_stopped [OF ok 3, of cfg])
      fix m1
      assume a: "HandleAnnouncePeer D cfg env req m = (Inr [], m1)" "shrinks D m m1"
        "\<And>ptr. rootAt m ?ih \<noteq> Some ptr \<Longrightarrow> heap m1 ptr = heap m ptr" "infoHashMap m1 = infoHashMap m"
      have "infoHash (heap m1 ptr) = infoHash (heap m ptr)" for ptr
        using a(2) root_shrinks_spec [of "heap m ptr" "heap m1 ptr"] mok_rootD(1) [OF ok] by (simp add: shrinks_def)
      with a shrinks_mok [OF a(2) ok] show ?thesis by (simp add: m'_def shrinks_def)
    qed
  next
    case 4
    show ?thesis by (rule announce_known [OF ok 4, of cfg]) (use 4 in \<open>auto simp: m'_def\<close>)
  qed
qed

subsection \<open>Forgetting expired peers\<close>

lemma delete_expired_shrinks: "shrinks D m (delete_expired D ptr ks m)"
proof (induction ks arbitrary: m)
  case Nil
  then show ?case by (simp add: delete_expired_def shrinks_refl)
next
  case (Cons k ks)
  have "root_shrinks (peerOps D) (heap m ptr) (fst (Root_Delete (peerOps D) (heap m ptr) k))"
    using root_shrinks_delete [of "peerOps D" "heap m ptr" "[k]"] by (simp add: delete_root_def)
  from shrinks_trans [OF shrinks_set_root [OF this] Cons.IH] show ?case by (simp add: delete_expired_def)
qed

lemma Conn_Close_shrinks: "shrinks D m (Conn_Close D c m)"
proof -
  have "shrinks D m (case cn_callback (conns m c) of None \<Rightarrow> m
      | Some (ptr, peerID) \<Rightarrow> set_root ptr (fst (Root_LoadAndDelete (peerOps D) (heap m ptr) peerID)) m)"
    by (auto split: option.split intro: shrinks_set_root root_shrinks_LoadAndDelete shrinks_refl)
  from shrinks_trans [OF this shrinks_conns] show ?thesis
    by (simp add: Conn_Close_def Let_def shrinks_refl)
qed

lemma go_range_shrinks:
  assumes "\<And>s x. shrinks D (get s) (get (fst (f s x)))"
  shows "shrinks D (get s) (get (go_range f xs s))"
  by (rule go_range_invariant [where P = "\<lambda>s'. shrinks D (get s) (get s')"])
    (auto intro: shrinks_refl shrinks_trans assms)

lemma foldl_shrinks:
  assumes "\<And>m x. shrinks D m (f m x)"
  shows "shrinks D m (foldl f m xs)"
  by (induction xs arbitrary: m) (auto intro: shrinks_refl shrinks_trans assms)

lemma cleanUp_shrinks: "shrinks D m (snd (cleanUp D cfg now ptr m))"
proof (cases "time_Add (lastClean (heap m ptr)) (duration_seconds (t_TTL (c_Tracker cfg))) > now")
  case True
  then show ?thesis by (simp add: cleanUp_def shrinks_refl)
next
  case False
  obtain m1 ks where run: "Root_Range (peerOps D) (clean_step D (expireTime cfg now)) (heap m ptr) (m, []) = (m1, ks)"
    by (cases "Root_Range (peerOps D) (clean_step D (expireTime cfg now)) (heap m ptr) (m, [])")
  have "shrinks D m (fst (Root_Range (peerOps D) (clean_step D (expireTime cfg now)) (heap m ptr) (m, [])))"
    by (rule P.Root_Range_invariant [where P = "\<lambda>s. shrinks D m (fst s)"])
      (auto simp: clean_step_def shrinks_refl split: prod.splits option.splits
        intro: shrinks_trans Conn_Close_shrinks)
  then have s1: "shrinks D m m1" by (simp add: run)
  define m2 where "m2 = foldl (\<lambda>m key. set_root ptr (fst (Root_LoadAndDelete (peerOps D) (heap m ptr) key)) m) m1 ks"
  define m3 where "m3 = set_root ptr ((heap m2 ptr)\<lparr>lastClean := now\<rparr>) m2"
  have s2: "shrinks D m1 m2" unfolding m2_def
    by (rule foldl_shrinks) (rule shrinks_set_root, rule root_shrinks_LoadAndDelete)
  have s3: "shrinks D m2 m3" unfolding m3_def by (rule shrinks_set_root, rule root_shrinks_lastClean)
  have "snd (cleanUp D cfg now ptr m) =
      (if Root_Len (peerOps D) (heap m3 ptr) = 0
       then m3\<lparr>infoHashMap := fst (sm_Delete (rootOps D) (infoHashMap m3) (infoHash (heap m3 ptr)))\<rparr> else m3)"
    using False by (simp add: cleanUp_def run Let_def m2_def m3_def)
  then have "shrinks D m3 (snd (cleanUp D cfg now ptr m))"
    by (simp add: shrinks_refl shrinks_deleteTorrent)
  with s1 s2 s3 show ?thesis by (blast intro: shrinks_trans)
qed

lemma Clean_shrinks: "shrinks D m (snd (Clean D cfg now m))"
proof -
  have "shrinks D m (snd s) \<Longrightarrow> shrinks D m (snd (fst ((\<lambda>(count, m) (key, ptr).
      (case cleanUp D cfg now ptr m of (n, m') \<Rightarrow> ((count + n, m'), True))) s x)))" for s and x :: "string \<times> root_ptr"
    using cleanUp_shrinks [of "snd s" cfg now "snd x"]
    by (auto simp: prod.case_eq_if intro: shrinks_trans)
  then show ?thesis unfolding Clean_def
    by (intro go_range_invariant [where P = "\<lambda>s. shrinks D m (snd s)"]) (simp_all only: snd_conv shrinks_refl)
qed

lemma Scrape_shrinks: "shrinks D m (fst (snd (Scrape D cfg Client codec now ih (m, c))))"
  by (simp add: Scrape_def Let_def shrinks_refl delete_expired_shrinks prod.case_eq_if split: option.split)

lemma DeleteInfoHash_shrinks: "shrinks D m (local_DeleteInfoHash D ih m)" "shrinks D m (local_BanInfoHash D ih m)"
  by (simp_all add: local_DeleteInfoHash_def local_BanInfoHash_def shrinks_deleteTorrent)

subsection \<open>Scraping\<close>

lemma scrape_fold:
  "foldl (\<lambda>s x. fst (scrape_step ex s x)) (ks, n) xs =
   (ks @ map fst (filter (\<lambda>kv. ex > p_LastSeen (snd kv)) xs),
    foldl count_peer n (map snd (filter (\<lambda>kv. \<not> ex > p_LastSeen (snd kv)) xs)))"
  by (induction xs arbitrary: ks n) (auto simp: scrape_step_def)

lemma count_fold:
  "foldl count_peer n ps =
   \<lparr>n_complete = n_complete n + int (length (filter (\<lambda>p. p_Left p = 0 \<or> p_Event p = PeerEvent_Completed) ps)),
    n_incomplete = n_incomplete n + int (length (filter (\<lambda>p. p_Left p \<noteq> 0 \<and> p_Event p \<noteq> PeerEvent_Completed) ps)),
    n_downloaded = n_downloaded n + int (length (filter (\<lambda>p. p_Left p = 0) ps)),
    n_seeder = n_seeder n + int (length (filter (\<lambda>p. p_Left p = 0 \<and> p_Event p \<noteq> PeerEvent_Stopped) ps))\<rparr>"
  by (induction ps arbitrary: n) (simp_all add: count_peer_def Let_def)

lemma card_entries:
  assumes ok: "rok r"
  shows "card {k. \<exists>p. rview r k = Some p \<and> Q p} = length (filter (\<lambda>kv. Q (snd kv)) (root_entries (peerOps D) r))"
proof -
  let ?es = "filter (\<lambda>kv. Q (snd kv)) (root_entries (peerOps D) r)"
  have "{k. \<exists>p. rview r k = Some p \<and> Q p} = set (map fst ?es)"
    by (force simp: P.root_entries_iff [OF ok, symmetric])
  moreover have "distinct (map fst ?es)"
    by (rule distinct_map_filter) (rule P.root_entries_distinct [OF ok])
  ultimately show ?thesis by (metis distinct_card length_map)
qed

lemma scrape_range:
  assumes ok: "rok r"
  shows "Root_Range (peerOps D) (scrape_step ex) r ([], zeroCounters) =
    (map fst (filter (\<lambda>kv. ex > p_LastSeen (snd kv)) (root_entries (peerOps D) r)),
     \<lparr>n_complete = int (swarm_count ex (\<lambda>p. p_Left p = 0 \<or> p_Event p = PeerEvent_Completed) (rview r)),
      n_incomplete = int (swarm_count ex (\<lambda>p. p_Left p \<noteq> 0 \<and> p_Event p \<noteq> PeerEvent_Completed) (rview r)),
      n_downloaded = int (swarm_count ex (\<lambda>p. p_Left p = 0) (rview r)),
      n_seeder = int (swarm_count ex (\<lambda>p. p_Left p = 0 \<and> p_Event p \<noteq> PeerEvent_Stopped) (rview r))\<rparr>)"
proof -
  have "Root_Range (peerOps D) (scrape_step ex) r s =
      foldl (\<lambda>s x. fst (scrape_step ex s x)) s (root_entries (peerOps D) r)" for s
    by (rule P.Root_Range_fold) (simp add: scrape_step_def split: prod.split)
  then show ?thesis
    by (simp add: scrape_fold count_fold swarm_count_def card_entries [OF ok] zeroCounters_def filter_map comp_def
        conj_commute)
qed

lemma Scrape_uncached:
  assumes ok: "mok m" and sw: "mgr_view D m ih = Some sw" and c: "\<not> redis_Enable (c_Cache cfg)"
  shows "fst (Scrape D cfg Client codec now ih (m, st)) = scrape_of (expireTime cfg now) sw"
    and "mgr_view D (fst (snd (Scrape D cfg Client codec now ih (m, st)))) =
      (mgr_view D m)(ih \<mapsto> live (expireTime cfg now) sw)"
proof -
  from sw obtain ptr where p: "rootAt m ih = Some ptr" and sw': "sw = rview (heap m ptr)"
    by (auto simp: mgr_view_def)
  have rok: "rok (heap m ptr)" using ok by (rule mok_rootD)
  let ?ex = "expireTime cfg now"
  let ?ks = "map fst (filter (\<lambda>kv. ?ex > p_LastSeen (snd kv)) (root_entries (peerOps D) (heap m ptr)))"
  show "fst (Scrape D cfg Client codec now ih (m, st)) = scrape_of ?ex sw"
    using p c by (simp add: Scrape_def Let_def scrape_range [OF rok] scrapeFile_of_def scrape_of_def sw')
  have "rview (delete_root (peerOps D) ?ks (heap m ptr)) = live ?ex sw"
    unfolding delete_root_view [OF rok] live_def sw'
    by (force simp: restrict_map_def fun_eq_iff P.root_entries_iff [OF rok] image_iff split: option.splits)
  then show "mgr_view D (fst (snd (Scrape D cfg Client codec now ih (m, st)))) =
      (mgr_view D m)(ih \<mapsto> live ?ex sw)"
    using mgr_view_same_but [OF ok delete_expired_same_but p, where ks1 = ?ks] p c
    by (simp add: Scrape_def Let_def scrape_range [OF rok])
qed

subsection \<open>The manager as a state machine\<close>

lemma running_ops:
  assumes "rok r" and "running (rview r)"
  shows "p_Event peer \<noteq> PeerEvent_Stopped \<Longrightarrow> running (rview (upsert_root (peerOps D) cfg peer r))"
    and "running (rview (delete_root (peerOps D) ks r))"
    and "running (rview (Root_rotate (peerOps D) cfg r))"
  using assms
  by (auto simp: running_def upsert_root_view delete_root_view P.Root_rotate_view upsert_swarm_def
      restrict_map_def refresh_peer_def split: if_splits option.splits)

lemma run_root_running:
  assumes "rok r" and "running (rview r)" and "p_Event peer \<noteq> PeerEvent_Stopped"
  shows "running (rview (run_root D cfg now req peer as ks r))"
proof -
  have "rok (run_root D cfg now req peer as ks r) \<and> running (rview (run_root D cfg now req peer as ks r))"
    by (rule run_root_invariant) (use assms in \<open>auto intro: upsert_root_ok delete_root_ok P.Root_rotate_ok running_ops\<close>)
  then show ?thesis ..
qed

lemma mgr_inv_New: "0 \<le> half_limit cfg \<Longrightarrow> mgr_inv D rinv pinv cfg (NewLocalManger D)"
  by (simp add: mgr_inv_def mok_New) (simp add: NewLocalManger_def bounded_New P.root_view_New running_def)

lemma mgr_inv_shrinks:
  assumes "shrinks D m m'" and inv: "mgr_inv D rinv pinv cfg m"
  shows "mgr_inv D rinv pinv cfg m'"
proof -
  from inv have ok: "mok m" by (simp add: mgr_inv_def)
  have "bounded (peerOps D) (half_limit cfg + 1) (half_limit cfg + 2) (heap m' ptr) \<and> running (rview (heap m' ptr))" for ptr
  proof -
    from assms(1) have "root_shrinks (peerOps D) (heap m ptr) (heap m' ptr)" by (simp add: shrinks_def)
    from root_shrinks_spec [OF this mok_rootD(1) [OF ok]] inv show ?thesis
      by (auto simp: mgr_inv_def running_def map_le_def dom_def)
  qed
  with shrinks_mok [OF assms(1) ok] show ?thesis by (simp add: mgr_inv_def)
qed

lemma mgr_inv_update:
  assumes "mgr_inv D rinv pinv cfg m" and "mok m'" and "heap m' = (heap m)(ptr := r)"
    and "bounded (peerOps D) (half_limit cfg + 1) (half_limit cfg + 2) r" and "running (rview r)"
  shows "mgr_inv D rinv pinv cfg m'"
  using assms by (simp add: mgr_inv_def)

lemma mgr_inv_announce:
  assumes inv: "mgr_inv D rinv pinv cfg m" and h: "0 \<le> half_limit cfg" and as: "schedule env \<in> set schedules"
  shows "mgr_inv D rinv pinv cfg (snd (HandleAnnouncePeer D cfg env req m))"
proof -
  let ?peer = "newPeer req (now_seen env)" and ?ih = "r_InfoHash req"
  from inv have ok: "mok m" by (simp add: mgr_inv_def)
  have all: "bounded (peerOps D) (half_limit cfg + 1) (half_limit cfg + 2) (heap m ptr)" "running (rview (heap m ptr))" for ptr
    using inv by (simp_all add: mgr_inv_def)
  consider "\<not> valid_addresses ?peer" | "valid_addresses ?peer" "mgr_view D m ?ih = None"
    | sw where "valid_addresses ?peer" "mgr_view D m ?ih = Some sw" "p_Event ?peer = PeerEvent_Stopped"
    | ptr where "valid_addresses ?peer" "rootAt m ?ih = Some ptr" "p_Event ?peer \<noteq> PeerEvent_Stopped"
    by (cases "rootAt m ?ih") (auto simp: mgr_view_def)
  then show ?thesis
  proof cases
    case 1
    then show ?thesis using inv by (simp add: announce_invalid)
  next
    case 2
    let ?r0 = "NewInfoHashRoot (peerOps D) (now_seen env) ?ih"
    obtain m' r where a: "HandleAnnouncePeer D cfg env req m = (Inr [], m')" and ok': "mok m'"
      and hp: "heap m' = (heap m)(nextRoot m := r)"
      and r: "r = ?r0 \<or> p_Event ?peer \<noteq> PeerEvent_Stopped \<and> r = Root_Store (peerOps D) ?r0 (GetKey ?peer) ?peer"
      using announce_first [OF ok 2] by metis
    have free: "sm_Load (peerOps D) (peerMap ?r0 ! j) (GetKey ?peer) = None" if "j < 3" for j
      using P.root_view_None_maps [OF P.root_ok_New _ that] by (simp add: P.root_view_New)
    have "bounded (peerOps D) (half_limit cfg + 1) (half_limit cfg + 2) r \<and> running (rview r)"
      using r h bounded_New [of "half_limit cfg" "half_limit cfg + 2"]
        bounded_New [of "half_limit cfg + 1" "half_limit cfg + 2"] P.Root_Store_view [OF P.root_ok_New refl free]
      by (auto simp: P.root_view_New running_def bounded_Store P.root_ok_New split: if_splits)
    then show ?thesis using mgr_inv_update [OF inv ok' hp] by (simp add: a)
  next
    case 3
    then obtain m' where "HandleAnnouncePeer D cfg env req m = (Inr [], m')" "shrinks D m m'"
      using announce_stopped [OF ok] by metis
    then show ?thesis using mgr_inv_shrinks inv by simp
  next
    case 4
    let ?r = "run_root D cfg (now_expire env) req ?peer (schedule env) [] (heap m ptr)"
    obtain m' where a: "snd (HandleAnnouncePeer D cfg env req m) = m'" and ok': "mok m'"
      and hp: "heap m' = (heap m)(ptr := ?r)"
      using announce_known [OF ok 4, of cfg] by (metis snd_conv)
    have "bounded (peerOps D) (half_limit cfg + 1) (half_limit cfg + 2) ?r" "running (rview ?r)"
      using all mok_rootD(1) [OF ok] h as 4(3) by (simp_all add: run_root_bounded run_root_running)
    then show ?thesis using mgr_inv_update [OF inv ok' hp] by (simp add: a)
  qed
qed

lemma mgr_inv_step:
  "local_step D cfg Client codec s s' \<Longrightarrow> 0 \<le> half_limit cfg \<Longrightarrow>
   mgr_inv D rinv pinv cfg (fst s) \<Longrightarrow> mgr_inv D rinv pinv cfg (fst s')"
  by (induction rule: local_step.induct)
    (auto intro: mgr_inv_announce mgr_inv_shrinks Scrape_shrinks Clean_shrinks DeleteInfoHash_shrinks Conn_Close_shrinks)

lemma mgr_inv_reachable:
  assumes "local_reachable D cfg Client codec s" and "0 \<le> half_limit cfg"
  shows "mgr_inv D rinv pinv cfg (fst s)"
  using assms by (induction rule: local_reachable.induct) (auto intro: mgr_inv_New mgr_inv_step)

lemma mgr_inv_view:
  assumes inv: "mgr_inv D rinv pinv cfg m" and "mgr_view D m ih = Some sw"
  shows "finite (dom sw)" and "int (card (dom sw)) \<le> 2 * half_limit cfg + 3"
    and "running sw" and "sw k = Some p \<Longrightarrow> p_ID p = k"
proof -
  from inv have ok: "mok m" by (simp add: mgr_inv_def)
  from assms(2) obtain ptr where sw: "sw = rview (heap m ptr)" by (auto simp: mgr_view_def)
  have rok: "rok (heap m ptr)" using ok by (rule mok_rootD)
  from rok show "finite (dom sw)" by (simp add: sw)
  show "sw k = Some p \<Longrightarrow> p_ID p = k" using P.root_ok_key [OF rok] by (simp add: sw)
  show "running sw" using inv by (simp add: mgr_inv_def sw)
  have "bounded (peerOps D) (half_limit cfg + 1) (half_limit cfg + 2) (heap m ptr)"
    using inv by (simp add: mgr_inv_def)
  then show "int (card (dom sw)) \<le> 2 * half_limit cfg + 3"
    using maps_inv(3) [OF rok] P.Root_Len_card [OF rok] by (simp add: bounded_def sw)
qed

subsection \<open>Cleaning\<close>

lemma clean_fold:
  assumes "\<And>kv. kv \<in> set xs \<Longrightarrow> ex > p_LastSeen (snd kv) \<Longrightarrow> \<not> websocket_peer (snd kv)"
  shows "foldl (\<lambda>s x. fst (clean_step D ex s x)) (m, ks) xs =
    (m, ks @ map fst (filter (\<lambda>kv. ex > p_LastSeen (snd kv)) xs))"
  using assms
proof (induction xs arbitrary: ks)
  case Nil
  then show ?case by simp
next
  case (Cons kv xs)
  have "fst (clean_step D ex (m, ks) kv) = (m, if ex > p_LastSeen (snd kv) then ks @ [fst kv] else ks)"
    using Cons.prems [of kv]
    by (cases kv) (auto simp: clean_step_def websocket_peer_def split: option.splits)
  with Cons.IH Cons.prems show ?case by simp
qed

lemma set_root_twice [simp]: "set_root ptr r' (set_root ptr r m) = set_root ptr r' m"
  by (simp add: set_root_def)

lemma LoadAndDelete_fold:
  fixes ks
  assumes "rok r"
  defines "r' \<equiv> foldl (\<lambda>r k. fst (Root_LoadAndDelete (peerOps D) r k)) r ks"
  shows "rok r' \<and> rview r' = rview r |` (- set ks) \<and> infoHash r' = infoHash r"
  using assms(1) unfolding r'_def
proof (induction ks arbitrary: r)
  case Nil
  then show ?case by simp
next
  case (Cons k ks)
  have "rok (fst (Root_LoadAndDelete (peerOps D) r k))" using Cons.prems by (rule P.Root_LoadAndDelete_ok)
  from Cons.IH [OF this] P.Root_LoadAndDelete_view [OF Cons.prems, of k] show ?case
    by (auto simp: restrict_map_def fun_eq_iff)
qed

lemma foldl_set_root:
  "foldl (\<lambda>m k. set_root ptr (f (heap m ptr) k) m) m ks = set_root ptr (foldl f (heap m ptr) ks) m"
proof (induction ks arbitrary: m)
  case Nil
  then show ?case by (simp add: set_root_def)
next
  case (Cons k ks)
  then show ?case by (simp add: set_root_def)
qed

lemma cleanUp_spec:
  assumes ok: "mok m" and p: "rootAt m ih = Some ptr" and due: "\<not> cleaned_recently cfg now (heap m ptr)"
    and ws: "\<And>k p. rview (heap m ptr) k = Some p \<Longrightarrow> expireTime cfg now > p_LastSeen p \<Longrightarrow> \<not> websocket_peer p"
  obtains m' r where
    "cleanUp D cfg now ptr m = (int (card {k. \<exists>p. rview (heap m ptr) k = Some p \<and> expireTime cfg now > p_LastSeen p}), m')"
    and "heap m' = (heap m)(ptr := r)" and "rview r = live (expireTime cfg now) (rview (heap m ptr))"
    and "rootAt m' = (if rview r = Map.empty then (rootAt m)(ih := None) else rootAt m)"
proof -
  let ?ex = "expireTime cfg now" and ?es = "root_entries (peerOps D) (heap m ptr)"
  let ?ks = "map fst (filter (\<lambda>kv. ?ex > p_LastSeen (snd kv)) ?es)"
  have rok: "rok (heap m ptr)" using ok by (rule mok_rootD)
  have "Root_Range (peerOps D) (clean_step D ?ex) (heap m ptr) s =
      foldl (\<lambda>s x. fst (clean_step D ?ex s x)) s ?es" for s
    by (rule P.Root_Range_fold) (simp add: clean_step_def split: prod.split)
  moreover have "foldl (\<lambda>s x. fst (clean_step D ?ex s x)) (m, []) ?es = (m, ?ks)"
    by (subst clean_fold) (use ws in \<open>auto simp: P.root_entries_iff [OF rok]\<close>)
  ultimately have range: "Root_Range (peerOps D) (clean_step D ?ex) (heap m ptr) (m, []) = (m, ?ks)" by simp
  define r0 where "r0 = foldl (\<lambda>r k. fst (Root_LoadAndDelete (peerOps D) r k)) (heap m ptr) ?ks"
  have fold: "foldl (\<lambda>m key. set_root ptr (fst (Root_LoadAndDelete (peerOps D) (heap m ptr) key)) m) m ?ks = set_root ptr r0 m"
    unfolding r0_def by (rule foldl_set_root)
  define r where "r = r0\<lparr>lastClean := now\<rparr>"
  have r0: "rok r0" "rview r0 = rview (heap m ptr) |` (- set ?ks)" "infoHash r0 = ih"
    using LoadAndDelete_fold [OF rok, of ?ks] mok_rootD(3) [OF ok p] by (simp_all add: r0_def)
  have rv: "rview r = live ?ex (rview (heap m ptr))"
    unfolding r_def root_lastClean r0(2) live_def
    by (force simp: restrict_map_def fun_eq_iff P.root_entries_iff [OF rok] image_iff split: option.splits)
  define m1 where "m1 = set_root ptr r m"
  define m' where "m' = (if Root_Len (peerOps D) r = 0
      then m1\<lparr>infoHashMap := fst (sm_Delete (rootOps D) (infoHashMap m1) (infoHash r))\<rparr> else m1)"
  have "cleanUp D cfg now ptr m = (int (length ?ks), m')"
    using due by (simp add: cleaned_recently_def cleanUp_def range fold Let_def m'_def m1_def r_def)
  moreover have "length ?ks = card {k. \<exists>p. rview (heap m ptr) k = Some p \<and> ?ex > p_LastSeen p}"
    by (simp add: card_entries [OF rok])
  moreover have "heap m' = (heap m)(ptr := r)" by (simp add: m'_def m1_def)
  moreover have "Root_Len (peerOps D) r = 0 \<longleftrightarrow> rview r = Map.empty"
    using r0(1) by (simp add: P.Root_Len_card r_def)
  then have "rootAt m' = (if rview r = Map.empty then (rootAt m)(ih := None) else rootAt m)"
    using mok_rootD(2) [OF ok] r0(3) by (simp add: m'_def m1_def R.Load_Delete r_def)
  ultimately show ?thesis using rv by (intro that [of m' r]) simp_all
qed

lemma clean_loop:
  assumes "mok m" and "distinct (map fst xs)" and "\<And>ih ptr. (ih, ptr) \<in> set xs \<Longrightarrow> rootAt m ih = Some ptr"
    and "\<And>ih ptr k p. (ih, ptr) \<in> set xs \<Longrightarrow> rview (heap m ptr) k = Some p \<Longrightarrow>
      expireTime cfg now > p_LastSeen p \<Longrightarrow> \<not> websocket_peer p"
  shows "mgr_view D (snd (foldl (\<lambda>(count, m) (key, ptr). (case cleanUp D cfg now ptr m of (n, m') \<Rightarrow> (count + n, m'))) (c, m) xs)) ih =
    (if ih \<in> fst ` set xs then clean_torrent D cfg now m ih else mgr_view D m ih)"
  using assms
proof (induction xs arbitrary: m c)
  case Nil
  then show ?case by simp
next
  case (Cons x xs)
  obtain ih0 ptr where x: "x = (ih0, ptr)" by (cases x)
  obtain n m' where cu: "cleanUp D cfg now ptr m = (n, m')" by (cases "cleanUp D cfg now ptr m")
  have p: "rootAt m ih0 = Some ptr" using Cons.prems(3) by (simp add: x)
  have ok': "mok m'" using shrinks_mok [OF cleanUp_shrinks Cons.prems(1), of cfg now ptr] by (simp add: cu)
  have here: "mgr_view D m' ih0 = clean_torrent D cfg now m ih0"
    and others: "ih' \<noteq> ih0 \<Longrightarrow> rootAt m' ih' = rootAt m ih'" "ptr' \<noteq> ptr \<Longrightarrow> heap m' ptr' = heap m ptr'" for ih' ptr'
  proof -
    have "(mgr_view D m' ih0 = clean_torrent D cfg now m ih0) \<and>
        (\<forall>ih'. ih' \<noteq> ih0 \<longrightarrow> rootAt m' ih' = rootAt m ih') \<and> (\<forall>ptr'. ptr' \<noteq> ptr \<longrightarrow> heap m' ptr' = heap m ptr')"
    proof (cases "cleaned_recently cfg now (heap m ptr)")
      case True
      then have "m' = m" using cu by (simp add: cleanUp_def cleaned_recently_def)
      with True p show ?thesis by (simp add: clean_torrent_def mgr_view_def)
    next
      case False
      have ws: "\<not> websocket_peer q" if "rview (heap m ptr) k = Some q" "expireTime cfg now > p_LastSeen q" for k q
        by (rule Cons.prems(4) [of ih0 ptr, OF _ that]) (simp add: x)
      obtain r where "heap m' = (heap m)(ptr := r)" "rview r = live (expireTime cfg now) (rview (heap m ptr))"
        "rootAt m' = (if rview r = Map.empty then (rootAt m)(ih0 := None) else rootAt m)"
        by (rule cleanUp_spec [OF Cons.prems(1) p False ws]) (auto simp: cu)
      with False p show ?thesis by (auto simp: clean_torrent_def mgr_view_def)
    qed
    then show "mgr_view D m' ih0 = clean_torrent D cfg now m ih0"
      "ih' \<noteq> ih0 \<Longrightarrow> rootAt m' ih' = rootAt m ih'" "ptr' \<noteq> ptr \<Longrightarrow> heap m' ptr' = heap m ptr'" by auto
  qed
  have at: "rootAt m' ih' = Some ptr' \<and> heap m' ptr' = heap m ptr' \<and> ih' \<noteq> ih0" if "(ih', ptr') \<in> set xs" for ih' ptr'
  proof -
    have "ih' \<noteq> ih0" using that Cons.prems(2) by (force simp: x)
    moreover have "rootAt m ih' = Some ptr'" using that Cons.prems(3) by simp
    moreover from this have "ptr' \<noteq> ptr" using \<open>ih' \<noteq> ih0\<close> rootAt_inject [OF Cons.prems(1) p] by blast
    ultimately show ?thesis using others by simp
  qed
  have "mgr_view D (snd (foldl (\<lambda>(count, m) (key, ptr). (case cleanUp D cfg now ptr m of (n, m') \<Rightarrow> (count + n, m'))) (c + n, m') xs)) ih =
    (if ih \<in> fst ` set xs then clean_torrent D cfg now m' ih else mgr_view D m' ih)"
    by (rule Cons.IH [OF ok']) (use Cons.prems(2,4) at in \<open>auto simp: x\<close>)
  moreover have "clean_torrent D cfg now m' ih = clean_torrent D cfg now m ih" if "ih \<in> fst ` set xs"
    using that at Cons.prems(3) by (fastforce simp: clean_torrent_def)
  moreover have "mgr_view D m' ih = mgr_view D m ih" if "ih \<noteq> ih0"
  proof (cases "rootAt m ih")
    case (Some ptr')
    then have "ptr' \<noteq> ptr" using that rootAt_inject [OF Cons.prems(1) p] by blast
    with that Some show ?thesis by (simp add: mgr_view_def others)
  qed (simp add: mgr_view_def others that)
  moreover have "ih0 \<notin> fst ` set xs" using Cons.prems(2) by (simp add: x)
  ultimately show ?case using here by (auto simp: x cu)
qed

lemma Clean_spec:
  assumes ok: "mok m" and ws: "\<And>ih sw k p. mgr_view D m ih = Some sw \<Longrightarrow> sw k = Some p \<Longrightarrow>
    expireTime cfg now > p_LastSeen p \<Longrightarrow> \<not> websocket_peer p"
  shows "mgr_view D (snd (Clean D cfg now m)) = clean_torrent D cfg now m"
proof
  fix ih
  let ?xs = "sm_Range (rootOps D) (infoHashMap m)"
  have ri: "rinv (infoHashMap m)" using ok by (rule mok_rootD)
  have "Clean D cfg now m = foldl (\<lambda>(count, m) (key, ptr). (case cleanUp D cfg now ptr m of (n, m') \<Rightarrow> (count + n, m'))) (0, m) ?xs"
    unfolding Clean_def by (subst go_range_always) (auto simp: prod.case_eq_if intro!: foldl_cong)
  moreover have "mgr_view D (snd (foldl (\<lambda>(count, m) (key, ptr). (case cleanUp D cfg now ptr m of (n, m') \<Rightarrow> (count + n, m'))) (0, m) ?xs)) ih =
      (if ih \<in> fst ` set ?xs then clean_torrent D cfg now m ih else mgr_view D m ih)"
  proof (rule clean_loop [OF ok R.Range_distinct [OF ri]])
    show at: "rootAt m ih = Some ptr" if "(ih, ptr) \<in> set ?xs" for ih ptr
      using that by (simp add: R.set_Range [OF ri])
    show "\<not> websocket_peer p" if "(ih, ptr) \<in> set ?xs" "rview (heap m ptr) k = Some p"
      "expireTime cfg now > p_LastSeen p" for ih ptr k p
      using ws [OF mgr_view_root [OF at [OF that(1)]]] that(2,3) by blast
  qed
  moreover have "ih \<in> fst ` set ?xs \<longleftrightarrow> rootAt m ih \<noteq> None"
    using R.dom_Load [OF ri] by auto
  ultimately show "mgr_view D (snd (Clean D cfg now m)) ih = clean_torrent D cfg now m ih"
    by (auto simp: clean_torrent_def mgr_view_def)
qed

subsection \<open>Reading\<close>

lemma SkipMapToSlice_entries: "SkipMapToSlice (peerOps D) r = map snd (root_entries (peerOps D) r)"
proof -
  have "foldl (\<lambda>s x. fst (case x of (k, value) \<Rightarrow> (s @ [value], True))) acc xs = acc @ map snd xs"
    for acc and xs :: "(string \<times> Peer) list"
    by (induction xs arbitrary: acc) (simp_all add: prod.case_eq_if)
  then show ?thesis
    unfolding SkipMapToSlice_def by (subst P.Root_Range_fold) (simp_all add: prod.case_eq_if)
qed

lemma GetPeers_spec:
  assumes ok: "mok m" and sw: "mgr_view D m ih = Some sw"
  shows "set (local_GetPeers D ih m) = ran sw" and "distinct (map p_ID (local_GetPeers D ih m))"
proof -
  from sw obtain ptr where p: "rootAt m ih = Some ptr" and sw': "sw = rview (heap m ptr)"
    by (auto simp: mgr_view_def)
  have rok: "rok (heap m ptr)" using ok by (rule mok_rootD)
  let ?es = "root_entries (peerOps D) (heap m ptr)"
  have gp: "local_GetPeers D ih m = map snd ?es"
    by (simp add: local_GetPeers_def p SkipMapToSlice_entries)
  show "set (local_GetPeers D ih m) = ran sw"
    by (force simp: gp sw' ran_def P.root_entries_iff [OF rok, symmetric])
  have keys: "map p_ID (map snd ?es) = map fst ?es"
    using P.root_ok_key [OF rok] by (auto simp: P.root_entries_iff [OF rok])
  show "distinct (map p_ID (local_GetPeers D ih m))"
    unfolding gp keys by (rule P.root_entries_distinct [OF rok])
qed

lemma GetStatistic_spec:
  assumes ok: "mok m"
  shows "GetStatistic D m =
    StatisticInfo (of_nat (\<Sum>ih \<in> dom (mgr_view D m). card (dom (the (mgr_view D m ih)))))
      (of_nat (card (dom (mgr_view D m)))) []"
proof -
  let ?xs = "sm_Range (rootOps D) (infoHashMap m)"
  have ri: "rinv (infoHashMap m)" using ok by (rule mok_rootD)
  have "foldl (\<lambda>s x. fst (case x of (k, ptr) \<Rightarrow> (s + Root_Len (peerOps D) (heap m ptr), True))) acc xs =
      acc + (\<Sum>(k, ptr) \<leftarrow> xs. int (card (dom (rview (heap m ptr)))))" for acc and xs :: "(string \<times> root_ptr) list"
    by (induction xs arbitrary: acc) (simp_all add: prod.case_eq_if P.Root_Len_card mok_rootD(1) [OF ok])
  then have "go_range (\<lambda>n (k, ptr). (n + Root_Len (peerOps D) (heap m ptr), True)) ?xs 0 =
      (\<Sum>(k, ptr) \<leftarrow> ?xs. int (card (dom (rview (heap m ptr)))))"
    by (subst go_range_always) (simp_all add: prod.case_eq_if)
  also have "\<dots> = (\<Sum>(k, ptr) \<in> set ?xs. int (card (dom (rview (heap m ptr)))))"
    using R.Range_distinct [OF ri] by (simp add: sum_list_distinct_conv_sum_set distinct_map)
  also have "\<dots> = (\<Sum>x \<in> set ?xs. int (card (dom (the (mgr_view D m (fst x))))))"
    by (rule sum.cong) (auto simp: mgr_view_def R.set_Range [OF ri])
  also have "\<dots> = (\<Sum>ih \<in> fst ` set ?xs. int (card (dom (the (mgr_view D m ih)))))"
    using R.Range_distinct [OF ri] by (simp add: sum.reindex distinct_map comp_def)
  also have "fst ` set ?xs = dom (mgr_view D m)"
    using R.dom_Load [OF ri] by (auto simp: mgr_view_def dom_def)
  finally have peers: "go_range (\<lambda>n (k, ptr). (n + Root_Len (peerOps D) (heap m ptr), True)) ?xs 0 =
      int (\<Sum>ih \<in> dom (mgr_view D m). card (dom (the (mgr_view D m ih))))" by simp
  have "dom (mgr_view D m) = dom (rootAt m)" by (auto simp: mgr_view_def dom_def)
  then have "sm_Len (rootOps D) (infoHashMap m) = int (card (dom (mgr_view D m)))"
    by (simp add: R.Len_card [OF ri])
  with peers show ?thesis unfolding GetStatistic_def by (simp only: Let_def of_int_of_nat_eq)
qed

end

section \<open>The repository's own map\<close>

definition syncMaps :: "((string, root_ptr) Map, (string, Peer) Map) maps" where
  "syncMaps = \<lparr>rootOps = MapOps, peerOps = MapOps\<rparr>"

interpretation synclocal: local_maps syncMaps map_ok map_ok
  by (simp add: local_maps_def syncMaps_def syncmap.sync_map_axioms syncroot.root_maps_axioms)

end
