(* ===== verification/Ban_Item.thy ===== *)
theory Ban_Item
  imports Net_IP
begin

text \<open>
  A list of banned identifiers: \<^verbatim>\<open>biz/services/peer/mux_local/ban/item.go\<close>. The list is kept twice,
  as a Bloom filter that is asked on every announce and as a file with one hexadecimal line per
  identifier, from which the filter is rebuilt when it grows and when the program starts. The Bloom
  filter is a package outside the repository and a parameter here; \<open>bloom_laws\<close> says what it
  promises. What the operating system answers to each file operation is an argument as well.
\<close>

section \<open>The Bloom filter\<close>

record 'f bloom =
  bl_New :: "uint64 \<Rightarrow> 'f"
  bl_Add :: "'f \<Rightarrow> bytes \<Rightarrow> 'f"
  bl_Test :: "'f \<Rightarrow> bytes \<Rightarrow> bool"

text \<open>No false negatives, and an empty filter holds nothing. False positives are allowed.\<close>

definition bloom_laws :: "'f bloom \<Rightarrow> bool" where
  "bloom_laws B \<longleftrightarrow>
     (\<forall>f x. bl_Test B (bl_Add B f x) x) \<and>
     (\<forall>f x y. bl_Test B f y \<longrightarrow> bl_Test B (bl_Add B f x) y) \<and>
     (\<forall>n x. \<not> bl_Test B (bl_New B n) x)"

text \<open>A filter that remembers exactly what was added obeys the laws.\<close>

definition exactBloom :: "bytes list bloom" where
  "exactBloom = \<lparr>bl_New = (\<lambda>_. []), bl_Add = (\<lambda>f x. x # f), bl_Test = (\<lambda>f x. x \<in> set f)\<rparr>"

lemma exactBloom_laws: "bloom_laws exactBloom"
  by (simp add: bloom_laws_def exactBloom_def)

section \<open>The file\<close>

text \<open>
  The file is opened for appending: a write goes to its end. \<^verbatim>\<open>bufio.Scanner\<close> reads lines from the
  current position: a carriage return before the newline is dropped, a last line without a newline
  counts, an empty rest does not, and a line that does not fit the scanner's buffer of 64 KB ends the
  scan with an error.
\<close>

definition max_line :: nat where
  "max_line = 65535"

definition dropCR :: "string \<Rightarrow> string" where
  "dropCR s = (if s \<noteq> [] \<and> last s = CHR 0x0D then butlast s else s)"

definition newline :: char where
  "newline = CHR 0x0A"

function scan_lines :: "string \<Rightarrow> string list \<times> error option" where
  "scan_lines s =
     (if s = [] then ([], None)
      else
        (let line = takeWhile (\<lambda>c. c \<noteq> newline) s;
             rest = drop (length line + 1) s
         in if length line > max_line then ([], Some ''bufio.Scanner: token too long'')
            else case scan_lines rest of (ls, e) \<Rightarrow> (dropCR line # ls, e)))"
  by auto
termination by (relation "measure length") auto

declare scan_lines.simps [simp del]

lemma scan_lines_Nil [simp]: "scan_lines [] = ([], None)"
  by (simp add: scan_lines.simps)

lemma scan_lines_line:
  assumes "newline \<notin> set l" and "length l \<le> max_line"
  shows "scan_lines (l @ newline # s) = (case scan_lines s of (ls, e) \<Rightarrow> (dropCR l # ls, e))"
proof -
  have "takeWhile (\<lambda>c. c \<noteq> newline) (l @ newline # s) = l"
    using assms(1) by (auto simp: takeWhile_append takeWhile_eq_all_conv)
  with assms(2) show ?thesis by (subst scan_lines.simps) (simp add: Let_def)
qed

record ban_io =
  io_open :: "error option"
  io_seek :: "error option"
  io_read :: "(nat \<times> error) option" \<comment> \<open>the read fails after so many bytes\<close>
  io_write :: "(nat \<times> error) option" \<comment> \<open>only so many bytes are written\<close>
  io_sync :: "error option"
  io_trunc :: "error option"

definition io_ok :: ban_io where
  "io_ok = \<lparr>io_open = None, io_seek = None, io_read = None, io_write = None, io_sync = None, io_trunc = None\<rparr>"

definition scan_file :: "ban_io \<Rightarrow> string \<Rightarrow> string list \<times> error option" where
  "scan_file io s =
     (case io_read io of
        None \<Rightarrow> scan_lines s
      | Some (n, e) \<Rightarrow>
          (case scan_lines (take n s) of
             (ls, None) \<Rightarrow> (ls, Some e)
           | (ls, Some e') \<Rightarrow> (ls, Some e')))"

section \<open>The ban list\<close>

record 'f banItem =
  bi_filter :: 'f
  bi_cap :: uint64
  bi_count :: uint64
  bi_content :: string \<comment> \<open>the bytes of the file\<close>

definition defaultFilterCap :: uint64 where
  "defaultFilterCap = 32"

text \<open>
  Both loops over the scanned lines: a line that is not hexadecimal ends the loop, one that does not
  decode to 20 bytes is skipped.
\<close>

fun scan_keys :: "string list \<Rightarrow> bytes list" where
  "scan_keys [] = []"
| "scan_keys (raw # rest) =
     (case hex_DecodeString raw of
        (decoded, ok) \<Rightarrow>
          if \<not> ok then []
          else if length decoded = 20 then decoded # scan_keys rest
          else scan_keys rest)"

definition newBanItem :: "'f bloom \<Rightarrow> ban_io \<Rightarrow> string \<Rightarrow> 'f banItem result" where
  "newBanItem B io content =
     (case io_open io of
        Some e \<Rightarrow> Inl e
      | None \<Rightarrow>
          (let filter = foldl (bl_Add B) (bl_New B defaultFilterCap) (scan_keys (fst (scan_file io content)))
           in Inr \<lparr>bi_filter = filter, bi_cap = defaultFilterCap, bi_count = 0, bi_content = content\<rparr>))"

definition banItem_test :: "'f bloom \<Rightarrow> 'f banItem \<Rightarrow> bytes \<Rightarrow> bool" where
  "banItem_test B i target = bl_Test B (bi_filter i) target"

definition banItem_clear :: "'f bloom \<Rightarrow> ban_io \<Rightarrow> 'f banItem \<Rightarrow> 'f banItem" where
  "banItem_clear B io i = i\<lparr>bi_filter := bl_New B defaultFilterCap, bi_cap := defaultFilterCap, bi_count := 0,
     bi_content := (if io_trunc io = None then [] else bi_content i)\<rparr>"

definition readBan :: "ban_io \<Rightarrow> 'f banItem \<Rightarrow> string list result" where
  "readBan io i =
     (case io_seek io of
        Some e \<Rightarrow> Inl e
      | None \<Rightarrow>
          (case scan_file io (bi_content i) of
             (ls, Some e) \<Rightarrow> Inl e
           | (ls, None) \<Rightarrow> Inr (map UnsafeBytesToString (scan_keys ls))))"

definition ban_line :: "string \<Rightarrow> string" where
  "ban_line target = hex_EncodeToString (UnsafeStringToBytes target) @ [newline]"

text \<open>The end of \<^verbatim>\<open>add\<close>: the line is appended and the file synced.\<close>

definition store_ban :: "ban_io \<Rightarrow> string \<Rightarrow> 'f banItem \<Rightarrow> unit result \<times> 'f banItem" where
  "store_ban io target i =
     (case io_write io of
        Some (n, e) \<Rightarrow> (Inl e, i\<lparr>bi_content := bi_content i @ take n (ban_line target)\<rparr>)
      | None \<Rightarrow>
          (case io_sync io of Some e \<Rightarrow> Inl e | None \<Rightarrow> Inr (),
           i\<lparr>bi_content := bi_content i @ ban_line target\<rparr>))"

definition banItem_add :: "'f bloom \<Rightarrow> ban_io \<Rightarrow> string \<Rightarrow> 'f banItem \<Rightarrow> unit result \<times> 'f banItem" where
  "banItem_add B io target i =
     (if bi_count i + 1 \<ge> bi_cap i then
        (let i = i\<lparr>bi_cap := bi_cap i * 2\<rparr> in
         case readBan io i of
           Inl e \<Rightarrow> (Inl e, i)
         | Inr currentBanlist \<Rightarrow>
             (let newFilter = foldl (\<lambda>f v. bl_Add B f (UnsafeStringToBytes v)) (bl_New B (bi_cap i)) currentBanlist;
                  newFilter = bl_Add B newFilter (UnsafeStringToBytes target)
              in store_ban io target (i\<lparr>bi_filter := newFilter, bi_count := bi_count i + 1\<rparr>)))
      else store_ban io target
             (i\<lparr>bi_filter := bl_Add B (bi_filter i) (UnsafeStringToBytes target), bi_count := bi_count i + 1\<rparr>))"

section \<open>The list survives growth and restarts\<close>

text \<open>
  The file holds the lines of the identifiers \<open>ts\<close>, all of the length of an info hash or peer
  identifier, and the filter knows each of them.
\<close>

definition ban_ok :: "'f bloom \<Rightarrow> string list \<Rightarrow> 'f banItem \<Rightarrow> bool" where
  "ban_ok B ts i \<longleftrightarrow>
     bi_content i = concat (map ban_line ts) \<and> (\<forall>t \<in> set ts. length t = 20) \<and>
     (\<forall>t \<in> set ts. banItem_test B i (UnsafeStringToBytes t))"

lemma hex_line: "newline \<notin> set (hex_EncodeToString bs)" "dropCR (hex_EncodeToString bs) = hex_EncodeToString bs"
proof -
  have "CHR 0x0D \<notin> set (hex_EncodeToString bs)"
    using hex_encode_printable by fastforce
  then show "dropCR (hex_EncodeToString bs) = hex_EncodeToString bs"
    by (metis dropCR_def last_in_set)
  show "newline \<notin> set (hex_EncodeToString bs)"
    using hex_encode_printable by (fastforce simp: newline_def)
qed

lemma scan_ban_lines:
  assumes "\<forall>t \<in> set ts. length t = 20"
  shows "scan_lines (concat (map ban_line ts)) = (map (\<lambda>t. hex_EncodeToString (UnsafeStringToBytes t)) ts, None)"
  using assms
proof (induction ts)
  case (Cons t ts)
  have "length (hex_EncodeToString (UnsafeStringToBytes t)) \<le> max_line"
    using Cons.prems by (simp add: max_line_def)
  with Cons show ?case
    by (simp add: ban_line_def scan_lines_line hex_line)
qed simp

lemma scan_keys_hex:
  "\<forall>t \<in> set ts. length t = 20 \<Longrightarrow>
   scan_keys (map (\<lambda>t. hex_EncodeToString (UnsafeStringToBytes t)) ts) = map UnsafeStringToBytes ts"
  by (induction ts) simp_all

lemma foldl_Add_test:
  assumes "bloom_laws B"
  shows "bl_Test B f x \<or> x \<in> set xs \<Longrightarrow> bl_Test B (foldl (bl_Add B) f xs) x"
  using assms by (induction xs arbitrary: f) (auto simp: bloom_laws_def)

lemma readBan_ok:
  assumes "ban_ok B ts i" and "io_seek io = None" and "io_read io = None"
  shows "readBan io (i\<lparr>bi_cap := c\<rparr>) = Inr ts"
proof -
  have "map UnsafeBytesToString (map UnsafeStringToBytes ts) = ts" by (induction ts) simp_all
  with assms show ?thesis
    by (simp add: readBan_def scan_file_def ban_ok_def scan_ban_lines scan_keys_hex del: map_map)
qed

lemma banItem_add_spec:
  assumes B: "bloom_laws B" and ok: "ban_ok B ts i" and t: "length target = 20"
    and io: "io_seek io = None" "io_read io = None" "io_write io = None" "io_sync io = None"
  shows "fst (banItem_add B io target i) = Inr ()" and "ban_ok B (ts @ [target]) (snd (banItem_add B io target i))"
proof -
  note rd = readBan_ok [OF ok io(1,2)]
  let ?b = "UnsafeStringToBytes"
  have fold: "foldl (\<lambda>f v. bl_Add B f (?b v)) f ts = foldl (bl_Add B) f (map ?b ts)" for f
    by (simp add: foldl_map)
  have known: "bl_Test B (foldl (bl_Add B) f (map ?b ts)) (?b u)" if "u \<in> set ts" for f u
    using that by (intro foldl_Add_test [OF B]) simp
  show "fst (banItem_add B io target i) = Inr ()"
    using io by (simp add: banItem_add_def rd store_ban_def Let_def)
  show "ban_ok B (ts @ [target]) (snd (banItem_add B io target i))"
    using io t ok B known
    by (auto simp: banItem_add_def rd store_ban_def Let_def ban_ok_def banItem_test_def fold bloom_laws_def)
qed

lemma newBanItem_spec:
  assumes "bloom_laws B" and "\<forall>t \<in> set ts. length t = 20" and "io_open io = None" and "io_read io = None"
  shows "\<exists>i. newBanItem B io (concat (map ban_line ts)) = Inr i \<and> ban_ok B ts i"
  using assms
  by (simp add: newBanItem_def scan_file_def scan_ban_lines scan_keys_hex ban_ok_def banItem_test_def Let_def
      foldl_Add_test)

lemma banItem_clear_spec:
  "bloom_laws B \<Longrightarrow> io_trunc io = None \<Longrightarrow>
   ban_ok B [] (banItem_clear B io i) \<and> \<not> banItem_test B (banItem_clear B io i) t"
  by (simp add: ban_ok_def banItem_clear_def banItem_test_def bloom_laws_def)

end
