(* ===== verification/IP_Filter.thy ===== *)
theory IP_Filter
  imports Net_IP Config
begin

text \<open>
  Filtering by address: \<^verbatim>\<open>biz/services/peer/mux_local/ban/ip_filter.go\<close>, its Linux implementation
  \<^verbatim>\<open>ip_filter_xdp_linux.go\<close>, and the kernel filter's controller \<^verbatim>\<open>xdp/filter.go\<close>. The interface is a
  record of methods and its contract the locale \<open>ip_filter\<close>; the fallback filter and the XDP filter
  both satisfy it, the latter on the laws of the kernel's hash maps. Those maps, and loading and
  attaching the kernel program, belong to a package outside the repository and are parameters.
\<close>

section \<open>The interface\<close>

record IPFilterStats =
  fs_TotalIPs :: uint64
  fs_PacketsDropped :: uint64
  fs_PacketsAllowed :: uint64
  fs_IsXDP :: bool
  fs_InterfaceName :: string

record 'i IPFilter =
  if_AddIP :: "'i \<Rightarrow> IP \<Rightarrow> unit result \<times> 'i"
  if_RemoveIP :: "'i \<Rightarrow> IP \<Rightarrow> unit result \<times> 'i"
  if_TestIP :: "'i \<Rightarrow> IP \<Rightarrow> bool"
  if_Clear :: "'i \<Rightarrow> unit result \<times> 'i"
  if_Close :: "'i \<Rightarrow> unit result"
  if_Stats :: "'i \<Rightarrow> IPFilterStats"

text \<open>
  Two values of \<^verbatim>\<open>net.IP\<close> denote the same address when their 16-byte forms agree. The contract: an
  address that was added is blocked in whatever form it is asked for, and stays so until it is
  removed; a successful removal unblocks it in every form. A failed operation changes nothing.
\<close>

definition same_addr :: "IP \<Rightarrow> IP \<Rightarrow> bool" where
  "same_addr a b \<longleftrightarrow> To16 a \<noteq> None \<and> To16 a = To16 b"

locale ip_filter =
  fixes F :: "'i IPFilter"
  assumes Add_blocks: "if_AddIP F f ip = (Inr (), f') \<Longrightarrow> same_addr ip ip' \<Longrightarrow> if_TestIP F f' ip'"
    and Add_keeps: "if_AddIP F f ip = (r, f') \<Longrightarrow> if_TestIP F f ip' \<Longrightarrow> if_TestIP F f' ip'"
    and Remove_unblocks: "if_RemoveIP F f ip = (Inr (), f') \<Longrightarrow> same_addr ip ip' \<Longrightarrow> \<not> if_TestIP F f' ip'"
    and Remove_shrinks: "if_RemoveIP F f ip = (r, f') \<Longrightarrow> if_TestIP F f' ip' \<Longrightarrow> if_TestIP F f ip'"
    and Add_failed: "if_AddIP F f ip = (Inl e, f') \<Longrightarrow> if_TestIP F f' = if_TestIP F f"
    and Remove_failed: "if_RemoveIP F f ip = (Inl e, f') \<Longrightarrow> if_TestIP F f' = if_TestIP F f"

section \<open>The fallback filter\<close>

text \<open>A Go map from the address in text form to nothing, that is a set of strings.\<close>

record fallbackIPFilter =
  fb_blocked :: "string set"

definition newFallbackIPFilter :: fallbackIPFilter where
  "newFallbackIPFilter = \<lparr>fb_blocked = {}\<rparr>"

definition fallback_AddIP :: "fallbackIPFilter \<Rightarrow> IP \<Rightarrow> unit result \<times> fallbackIPFilter" where
  "fallback_AddIP f ip = (Inr (), f\<lparr>fb_blocked := insert (IP_String ip) (fb_blocked f)\<rparr>)"

definition fallback_RemoveIP :: "fallbackIPFilter \<Rightarrow> IP \<Rightarrow> unit result \<times> fallbackIPFilter" where
  "fallback_RemoveIP f ip = (Inr (), f\<lparr>fb_blocked := fb_blocked f - {IP_String ip}\<rparr>)"

definition fallback_TestIP :: "fallbackIPFilter \<Rightarrow> IP \<Rightarrow> bool" where
  "fallback_TestIP f ip \<longleftrightarrow> IP_String ip \<in> fb_blocked f"

definition fallback_Clear :: "fallbackIPFilter \<Rightarrow> unit result \<times> fallbackIPFilter" where
  "fallback_Clear f = (Inr (), f\<lparr>fb_blocked := {}\<rparr>)"

definition fallback_Close :: "fallbackIPFilter \<Rightarrow> unit result" where
  "fallback_Close f = Inr ()"

definition fallback_Stats :: "fallbackIPFilter \<Rightarrow> IPFilterStats" where
  "fallback_Stats f = \<lparr>fs_TotalIPs = of_nat (card (fb_blocked f)), fs_PacketsDropped = 0,
     fs_PacketsAllowed = 0, fs_IsXDP = False, fs_InterfaceName = []\<rparr>"

definition fallbackOps :: "fallbackIPFilter IPFilter" where
  "fallbackOps = \<lparr>if_AddIP = fallback_AddIP, if_RemoveIP = fallback_RemoveIP, if_TestIP = fallback_TestIP,
     if_Clear = fallback_Clear, if_Close = fallback_Close, if_Stats = fallback_Stats\<rparr>"

lemma same_addr_String: "same_addr a b \<Longrightarrow> IP_String a = IP_String b"
proof -
  assume "same_addr a b"
  then obtain w where w: "To16 a = Some w" "To16 b = Some w" by (cases "To16 b") (auto simp: same_addr_def)
  then have to4: "To4 a = To4 b" by (metis To4_of_To16)
  show ?thesis
  proof (cases "To4 a")
    case (Some q)
    then show ?thesis using to4 IP_String_v4 by metis
  next
    case None
    have "ip_bytes i = w" if "To16 i = Some w" "To4 i = None" for i
      using that by (auto simp: To16_def To4_def Let_def split: if_splits)
    with w None to4 have "ip_bytes a = ip_bytes b" by metis
    with None to4 show ?thesis by (simp add: IP_String_def Let_def)
  qed
qed

interpretation fallback: ip_filter fallbackOps
proof unfold_locales
  fix f ip f' ip'
  show "if_AddIP fallbackOps f ip = (Inr (), f') \<Longrightarrow> same_addr ip ip' \<Longrightarrow> if_TestIP fallbackOps f' ip'"
    by (auto simp: fallbackOps_def fallback_AddIP_def fallback_TestIP_def dest: same_addr_String)
  show "if_RemoveIP fallbackOps f ip = (Inr (), f') \<Longrightarrow> same_addr ip ip' \<Longrightarrow> \<not> if_TestIP fallbackOps f' ip'"
    by (auto simp: fallbackOps_def fallback_RemoveIP_def fallback_TestIP_def dest: same_addr_String)
qed (auto simp: fallbackOps_def fallback_AddIP_def fallback_RemoveIP_def fallback_TestIP_def split: if_splits)

section \<open>The XDP filter\<close>

text \<open>The kernel's hash maps; \<open>bpf_Iterate\<close> gives the keys in the order the iterator meets them.\<close>

record ('m, 'k) BpfMap =
  bpf_Put :: "'m \<Rightarrow> 'k \<Rightarrow> error option \<times> 'm"
  bpf_Delete :: "'m \<Rightarrow> 'k \<Rightarrow> error option \<times> 'm"
  bpf_Lookup :: "'m \<Rightarrow> 'k \<Rightarrow> error option"
  bpf_Iterate :: "'m \<Rightarrow> 'k list"

definition bpf_has :: "('m, 'k) BpfMap \<Rightarrow> 'm \<Rightarrow> 'k \<Rightarrow> bool" where
  "bpf_has M m k \<longleftrightarrow> bpf_Lookup M m k = None"

definition bpf_laws :: "('m, 'k) BpfMap \<Rightarrow> bool" where
  "bpf_laws M \<longleftrightarrow>
     (\<forall>m k m'. bpf_Put M m k = (None, m') \<longrightarrow> bpf_has M m' = (bpf_has M m)(k := True)) \<and>
     (\<forall>m k m'. bpf_Delete M m k = (None, m') \<longrightarrow> bpf_has M m' = (bpf_has M m)(k := False)) \<and>
     (\<forall>m k e m'. bpf_Put M m k = (Some e, m') \<longrightarrow> bpf_has M m' = bpf_has M m) \<and>
     (\<forall>m k e m'. bpf_Delete M m k = (Some e, m') \<longrightarrow> bpf_has M m' = bpf_has M m)"

record ('m4, 'm6) XDPFilter =
  x_BlockedIpv4 :: 'm4
  x_BlockedIpv6 :: 'm6
  x_iface :: string
  x_ipv4Count :: uint64
  x_ipv6Count :: uint64

text \<open>The kernel objects a filter works on: the two address maps, the packet counters, and closing.\<close>

record ('m4, 'm6) xdp_env =
  xe_v4 :: "('m4, uint32) BpfMap"
  xe_v6 :: "('m6, bytes) BpfMap"
  xe_stats :: "uint32 \<Rightarrow> uint64 option"
  xe_link_Close :: "error option"
  xe_objs_Close :: "error option"

definition AddIPv4 :: "('m4, 'm6) xdp_env \<Rightarrow> ('m4, 'm6) XDPFilter \<Rightarrow> IP \<Rightarrow> unit result \<times> ('m4, 'm6) XDPFilter" where
  "AddIPv4 E x ip =
     (case To4 ip of
        None \<Rightarrow> (Inl ''not a valid IPv4 address'', x)
      | Some ip4 \<Rightarrow>
          (case bpf_Put (xe_v4 E) (x_BlockedIpv4 x) (get_le32 ip4) of
             (Some e, m) \<Rightarrow> (Inl (''failed to add IPv4 to BPF map: '' @ e), x\<lparr>x_BlockedIpv4 := m\<rparr>)
           | (None, m) \<Rightarrow> (Inr (), x\<lparr>x_BlockedIpv4 := m, x_ipv4Count := x_ipv4Count x + 1\<rparr>)))"

definition AddIPv6 :: "('m4, 'm6) xdp_env \<Rightarrow> ('m4, 'm6) XDPFilter \<Rightarrow> IP \<Rightarrow> unit result \<times> ('m4, 'm6) XDPFilter" where
  "AddIPv6 E x ip =
     (case To16 ip of
        None \<Rightarrow> (Inl ''not a valid IPv6 address'', x)
      | Some ip6 \<Rightarrow>
          (case bpf_Put (xe_v6 E) (x_BlockedIpv6 x) ip6 of
             (Some e, m) \<Rightarrow> (Inl (''failed to add IPv6 to BPF map: '' @ e), x\<lparr>x_BlockedIpv6 := m\<rparr>)
           | (None, m) \<Rightarrow> (Inr (), x\<lparr>x_BlockedIpv6 := m, x_ipv6Count := x_ipv6Count x + 1\<rparr>)))"

definition RemoveIPv4 :: "('m4, 'm6) xdp_env \<Rightarrow> ('m4, 'm6) XDPFilter \<Rightarrow> IP \<Rightarrow> unit result \<times> ('m4, 'm6) XDPFilter" where
  "RemoveIPv4 E x ip =
     (case To4 ip of
        None \<Rightarrow> (Inl ''not a valid IPv4 address'', x)
      | Some ip4 \<Rightarrow>
          (case bpf_Delete (xe_v4 E) (x_BlockedIpv4 x) (get_le32 ip4) of
             (Some e, m) \<Rightarrow> (Inl (''failed to remove IPv4 from BPF map: '' @ e), x\<lparr>x_BlockedIpv4 := m\<rparr>)
           | (None, m) \<Rightarrow>
               (Inr (), x\<lparr>x_BlockedIpv4 := m,
                 x_ipv4Count := (if x_ipv4Count x > 0 then x_ipv4Count x - 1 else x_ipv4Count x)\<rparr>)))"

definition RemoveIPv6 :: "('m4, 'm6) xdp_env \<Rightarrow> ('m4, 'm6) XDPFilter \<Rightarrow> IP \<Rightarrow> unit result \<times> ('m4, 'm6) XDPFilter" where
  "RemoveIPv6 E x ip =
     (case To16 ip of
        None \<Rightarrow> (Inl ''not a valid IPv6 address'', x)
      | Some ip6 \<Rightarrow>
          (case bpf_Delete (xe_v6 E) (x_BlockedIpv6 x) ip6 of
             (Some e, m) \<Rightarrow> (Inl (''failed to remove IPv6 from BPF map: '' @ e), x\<lparr>x_BlockedIpv6 := m\<rparr>)
           | (None, m) \<Rightarrow>
               (Inr (), x\<lparr>x_BlockedIpv6 := m,
                 x_ipv6Count := (if x_ipv6Count x > 0 then x_ipv6Count x - 1 else x_ipv6Count x)\<rparr>)))"

definition TestIPv4 :: "('m4, 'm6) xdp_env \<Rightarrow> ('m4, 'm6) XDPFilter \<Rightarrow> IP \<Rightarrow> bool" where
  "TestIPv4 E x ip =
     (case To4 ip of None \<Rightarrow> False
      | Some ip4 \<Rightarrow> bpf_Lookup (xe_v4 E) (x_BlockedIpv4 x) (get_le32 ip4) = None)"

definition TestIPv6 :: "('m4, 'm6) xdp_env \<Rightarrow> ('m4, 'm6) XDPFilter \<Rightarrow> IP \<Rightarrow> bool" where
  "TestIPv6 E x ip =
     (case To16 ip of None \<Rightarrow> False
      | Some ip6 \<Rightarrow> bpf_Lookup (xe_v6 E) (x_BlockedIpv6 x) ip6 = None)"

text \<open>Deleting the keys the iterator meets, until a deletion fails.\<close>

fun clear_keys :: "('m, 'k) BpfMap \<Rightarrow> 'k list \<Rightarrow> 'm \<Rightarrow> error option \<times> 'm" where
  "clear_keys M [] m = (None, m)"
| "clear_keys M (k # ks) m =
     (case bpf_Delete M m k of (Some e, m') \<Rightarrow> (Some e, m') | (None, m') \<Rightarrow> clear_keys M ks m')"

definition XDP_Clear :: "('m4, 'm6) xdp_env \<Rightarrow> ('m4, 'm6) XDPFilter \<Rightarrow> unit result \<times> ('m4, 'm6) XDPFilter" where
  "XDP_Clear E x =
     (case clear_keys (xe_v4 E) (bpf_Iterate (xe_v4 E) (x_BlockedIpv4 x)) (x_BlockedIpv4 x) of
        (Some e, m) \<Rightarrow> (Inl (''failed to clear IPv4 map: '' @ e), x\<lparr>x_BlockedIpv4 := m\<rparr>)
      | (None, m) \<Rightarrow>
          (case clear_keys (xe_v6 E) (bpf_Iterate (xe_v6 E) (x_BlockedIpv6 x)) (x_BlockedIpv6 x) of
             (Some e, m6) \<Rightarrow> (Inl (''failed to clear IPv6 map: '' @ e), x\<lparr>x_BlockedIpv4 := m, x_BlockedIpv6 := m6\<rparr>)
           | (None, m6) \<Rightarrow> (Inr (), x\<lparr>x_BlockedIpv4 := m, x_BlockedIpv6 := m6, x_ipv4Count := 0, x_ipv6Count := 0\<rparr>)))"

definition GetStats :: "('m4, 'm6) xdp_env \<Rightarrow> uint64 \<times> uint64" where
  "GetStats E = (case xe_stats E 0 of Some v \<Rightarrow> v | None \<Rightarrow> 0, case xe_stats E 1 of Some v \<Rightarrow> v | None \<Rightarrow> 0)"

definition GetIPCount :: "('m4, 'm6) XDPFilter \<Rightarrow> uint64 \<times> uint64" where
  "GetIPCount x = (x_ipv4Count x, x_ipv6Count x)"

definition XDP_Close :: "('m4, 'm6) xdp_env \<Rightarrow> error list" where
  "XDP_Close E =
     (case xe_link_Close E of Some e \<Rightarrow> [''failed to close link: '' @ e] | None \<Rightarrow> []) @
     (case xe_objs_Close E of Some e \<Rightarrow> [''failed to close objects: '' @ e] | None \<Rightarrow> [])"

subsection \<open>As an IP filter\<close>

definition xdp_AddIP :: "('m4, 'm6) xdp_env \<Rightarrow> ('m4, 'm6) XDPFilter \<Rightarrow> IP \<Rightarrow> unit result \<times> ('m4, 'm6) XDPFilter" where
  "xdp_AddIP E x ip = (if To4 ip \<noteq> None then AddIPv4 E x ip else AddIPv6 E x ip)"

definition xdp_RemoveIP :: "('m4, 'm6) xdp_env \<Rightarrow> ('m4, 'm6) XDPFilter \<Rightarrow> IP \<Rightarrow> unit result \<times> ('m4, 'm6) XDPFilter" where
  "xdp_RemoveIP E x ip = (if To4 ip \<noteq> None then RemoveIPv4 E x ip else RemoveIPv6 E x ip)"

definition xdp_TestIP :: "('m4, 'm6) xdp_env \<Rightarrow> ('m4, 'm6) XDPFilter \<Rightarrow> IP \<Rightarrow> bool" where
  "xdp_TestIP E x ip = (if To4 ip \<noteq> None then TestIPv4 E x ip else TestIPv6 E x ip)"

definition xdp_Stats :: "('m4, 'm6) xdp_env \<Rightarrow> ('m4, 'm6) XDPFilter \<Rightarrow> IPFilterStats" where
  "xdp_Stats E x =
     (case (GetStats E, GetIPCount x) of
        ((dropped, allowed), (ipv4Count, ipv6Count)) \<Rightarrow>
          \<lparr>fs_TotalIPs = ipv4Count + ipv6Count, fs_PacketsDropped = dropped, fs_PacketsAllowed = allowed,
           fs_IsXDP = True, fs_InterfaceName = x_iface x\<rparr>)"

definition xdp_Close :: "('m4, 'm6) xdp_env \<Rightarrow> unit result" where
  "xdp_Close E =
     (if XDP_Close E \<noteq> [] then Inl (''errors during close: ['' @ join '' '' (XDP_Close E) @ '']'') else Inr ())"

definition xdpOps :: "('m4, 'm6) xdp_env \<Rightarrow> ('m4, 'm6) XDPFilter IPFilter" where
  "xdpOps E = \<lparr>if_AddIP = xdp_AddIP E, if_RemoveIP = xdp_RemoveIP E, if_TestIP = xdp_TestIP E,
     if_Clear = XDP_Clear E, if_Close = (\<lambda>_. xdp_Close E), if_Stats = xdp_Stats E\<rparr>"

text \<open>What the filter blocks, by the kind of address.\<close>

lemma xdp_TestIP_has:
  "xdp_TestIP E x ip =
     (case To4 ip of
        Some ip4 \<Rightarrow> bpf_has (xe_v4 E) (x_BlockedIpv4 x) (get_le32 ip4)
      | None \<Rightarrow> (case To16 ip of None \<Rightarrow> False | Some ip6 \<Rightarrow> bpf_has (xe_v6 E) (x_BlockedIpv6 x) ip6))"
  by (simp add: xdp_TestIP_def TestIPv4_def TestIPv6_def bpf_has_def split: option.splits)

lemma same_addr_To4: "same_addr a b \<Longrightarrow> To4 a = To4 b \<and> To16 a = To16 b"
  unfolding same_addr_def by (metis To4_of_To16 option.exhaust)

lemma bpf_lawsD:
  assumes "bpf_laws M"
  shows "bpf_Put M m k = (None, m') \<Longrightarrow> bpf_has M m' = (bpf_has M m)(k := True)"
    and "bpf_Delete M m k = (None, m') \<Longrightarrow> bpf_has M m' = (bpf_has M m)(k := False)"
    and "bpf_Put M m k = (Some e, m') \<Longrightarrow> bpf_has M m' = bpf_has M m"
    and "bpf_Delete M m k = (Some e, m') \<Longrightarrow> bpf_has M m' = bpf_has M m"
  using assms unfolding bpf_laws_def by blast+

lemma same_addr_v4: "To4 a = Some q \<Longrightarrow> same_addr a b \<longleftrightarrow> To4 b = Some q"
proof
  show "same_addr a b" if "To4 a = Some q" "To4 b = Some q"
    using that by (simp add: same_addr_def To16_of_To4)
qed (metis same_addr_To4)

lemma same_addr_v6: "To4 a = None \<Longrightarrow> To16 a = Some w \<Longrightarrow> same_addr a b \<longleftrightarrow> To4 b = None \<and> To16 b = Some w"
  using same_addr_To4 [of a b] by (metis option.distinct(1) same_addr_def)

lemma get_le32_inject:
  assumes "length a = 4" and "length b = 4"
  shows "get_le32 a = get_le32 b \<longleftrightarrow> a = b"
proof
  assume eq: "get_le32 a = get_le32 b"
  have "be_nat (rev c) < 2 ^ 32" if "length c = 4" for c :: bytes
    using be_nat_less [of "rev c"] that by simp
  with assms eq have "be_nat (rev a) = be_nat (rev b)"
    by (simp add: get_le32_def word_of_nat_eq_iff take_bit_nat_eq_self)
  with assms show "a = b" by (simp add: be_nat_inject)
qed simp

text \<open>Adding and removing, exactly.\<close>

lemma xdp_Add_has:
  assumes "bpf_laws (xe_v4 E)" and "bpf_laws (xe_v6 E)" and "xdp_AddIP E x ip = (r, x')"
  shows "xdp_TestIP E x' ip' \<longleftrightarrow> xdp_TestIP E x ip' \<or> (r = Inr () \<and> same_addr ip ip')"
proof (cases "To4 ip")
  case (Some q)
  then show ?thesis
    using assms(3)
    by (cases "bpf_Put (xe_v4 E) (x_BlockedIpv4 x) (get_le32 q)")
      (auto simp: xdp_AddIP_def AddIPv4_def xdp_TestIP_has same_addr_v4 get_le32_inject To4_length
        bpf_lawsD(1,3) [OF assms(1)] split: option.splits if_splits)
next
  case None
  then show ?thesis
    using assms(3)
    by (cases "To16 ip"; cases "bpf_Put (xe_v6 E) (x_BlockedIpv6 x) (the (To16 ip))")
      (auto simp: xdp_AddIP_def AddIPv6_def xdp_TestIP_has same_addr_v6 bpf_lawsD(1,3) [OF assms(2)] split: option.splits if_splits)
qed

lemma xdp_Remove_has:
  assumes "bpf_laws (xe_v4 E)" and "bpf_laws (xe_v6 E)" and "xdp_RemoveIP E x ip = (r, x')"
  shows "xdp_TestIP E x' ip' \<longleftrightarrow> xdp_TestIP E x ip' \<and> \<not> (r = Inr () \<and> same_addr ip ip')"
proof (cases "To4 ip")
  case (Some q)
  then show ?thesis
    using assms(3)
    by (cases "bpf_Delete (xe_v4 E) (x_BlockedIpv4 x) (get_le32 q)")
      (auto simp: xdp_RemoveIP_def RemoveIPv4_def xdp_TestIP_has same_addr_v4 get_le32_inject To4_length
        bpf_lawsD(2,4) [OF assms(1)] split: option.splits if_splits)
next
  case None
  then show ?thesis
    using assms(3)
    by (cases "To16 ip"; cases "bpf_Delete (xe_v6 E) (x_BlockedIpv6 x) (the (To16 ip))")
      (auto simp: xdp_RemoveIP_def RemoveIPv6_def xdp_TestIP_has same_addr_v6 bpf_lawsD(2,4) [OF assms(2)] split: option.splits if_splits)
qed

lemma xdp_ip_filter:
  assumes "bpf_laws (xe_v4 E)" and "bpf_laws (xe_v6 E)"
  shows "ip_filter (xdpOps E)"
  by unfold_locales
    (auto simp: xdpOps_def fun_eq_iff xdp_Add_has [OF assms] xdp_Remove_has [OF assms])

section \<open>Choosing a filter\<close>

text \<open>The port of a \<^verbatim>\<open>host:port\<close> string, and the ports of the configuration.\<close>

definition parsePort :: "string \<Rightarrow> uint16 result" where
  "parsePort hostPort =
     (let parts = split_on CHR '':'' hostPort in
      if length parts < 2 then Inl (''invalid host:port format: '' @ hostPort)
      else case ParseUint10 16 (last parts) of
             None \<Rightarrow> Inl (''invalid port number: '' @ last parts)
           | Some port \<Rightarrow> Inr (of_nat port))"

definition getFilterPorts :: "Config option \<Rightarrow> uint16 list" where
  "getFilterPorts AppConfig =
     (case AppConfig of
        None \<Rightarrow> []
      | Some cfg \<Rightarrow>
          (let t = c_Tracker cfg in
           (if t_HostPorts t \<noteq> []
            then case parsePort (t_HostPorts t) of Inr port \<Rightarrow> [port] | Inl _ \<Rightarrow> [] else []) @
           (if udp_Enable (t_UDPServer t) \<and> udp_HostPorts (t_UDPServer t) \<noteq> []
            then case parsePort (udp_HostPorts (t_UDPServer t)) of Inr port \<Rightarrow> [port] | Inl _ \<Rightarrow> [] else [])))"

text \<open>
  Starting the XDP filter. What the kernel and the loader answer is \<open>xdp_start\<close>; the compiled
  objects come as the two empty address maps.
\<close>

record ('m4, 'm6) xdp_start =
  xs_RemoveMemlock :: "error option"
  xs_loadBpfObjects :: "error + 'm4 \<times> 'm6"
  xs_PutPort :: "uint16 \<Rightarrow> error option"
  xs_InterfaceByName :: "string \<Rightarrow> error option"
  xs_AttachXDP :: "string \<Rightarrow> error option"

fun put_ports :: "(uint16 \<Rightarrow> error option) \<Rightarrow> uint16 list \<Rightarrow> (uint16 \<times> error) option" where
  "put_ports put [] = None"
| "put_ports put (p # ps) = (case put p of Some e \<Rightarrow> Some (p, e) | None \<Rightarrow> put_ports put ps)"

definition NewXDPFilter :: "('m4, 'm6) xdp_start \<Rightarrow> string \<Rightarrow> uint16 list \<Rightarrow> ('m4, 'm6) XDPFilter result" where
  "NewXDPFilter S ifaceName filterPorts =
     (case xs_RemoveMemlock S of
        Some e \<Rightarrow> Inl (''failed to remove memlock limit: '' @ e)
      | None \<Rightarrow>
          (case xs_loadBpfObjects S of
             Inl e \<Rightarrow> Inl (''failed to load XDP program: '' @ e)
           | Inr (m4, m6) \<Rightarrow>
               (case put_ports (xs_PutPort S) filterPorts of
                  Some (port, e) \<Rightarrow> Inl (''failed to add port '' @ dec_string (unat port) @ '' to filter map: '' @ e)
                | None \<Rightarrow>
                    (case xs_InterfaceByName S ifaceName of
                       Some e \<Rightarrow> Inl (''network interface not found: '' @ ifaceName @ '': '' @ e)
                     | None \<Rightarrow>
                         (case xs_AttachXDP S ifaceName of
                            Some e \<Rightarrow> Inl (''failed to attach XDP program: '' @ e)
                          | None \<Rightarrow> Inr \<lparr>x_BlockedIpv4 = m4, x_BlockedIpv6 = m6, x_iface = ifaceName,
                                          x_ipv4Count = 0, x_ipv6Count = 0\<rparr>)))))"

text \<open>The filter in use is one or the other, and calls go to the one it is.\<close>

datatype ('m4, 'm6) filter_impl = Fallback fallbackIPFilter | XDP "('m4, 'm6) XDPFilter"

definition NewIPFilter_linux :: "Config option \<Rightarrow> ('m4, 'm6) xdp_start \<Rightarrow> string \<Rightarrow> ('m4, 'm6) filter_impl" where
  "NewIPFilter_linux AppConfig S ifaceName =
     (case AppConfig of
        None \<Rightarrow> Fallback newFallbackIPFilter
      | Some cfg \<Rightarrow>
          if \<not> xdp_Enable (t_XDP (c_Tracker cfg)) then Fallback newFallbackIPFilter
          else if ifaceName = [] then Fallback newFallbackIPFilter
          else case NewXDPFilter S ifaceName (getFilterPorts AppConfig) of
                 Inl e \<Rightarrow> Fallback newFallbackIPFilter
               | Inr xdpFilter \<Rightarrow> XDP xdpFilter)"

definition NewIPFilter_other :: "string \<Rightarrow> ('m4, 'm6) filter_impl" where
  "NewIPFilter_other ifaceName = Fallback newFallbackIPFilter"

definition implOps :: "('m4, 'm6) xdp_env \<Rightarrow> ('m4, 'm6) filter_impl IPFilter" where
  "implOps E = \<lparr>
     if_AddIP = (\<lambda>f ip. case f of Fallback b \<Rightarrow> apsnd Fallback (fallback_AddIP b ip) | XDP x \<Rightarrow> apsnd XDP (xdp_AddIP E x ip)),
     if_RemoveIP = (\<lambda>f ip. case f of Fallback b \<Rightarrow> apsnd Fallback (fallback_RemoveIP b ip) | XDP x \<Rightarrow> apsnd XDP (xdp_RemoveIP E x ip)),
     if_TestIP = (\<lambda>f ip. case f of Fallback b \<Rightarrow> fallback_TestIP b ip | XDP x \<Rightarrow> xdp_TestIP E x ip),
     if_Clear = (\<lambda>f. case f of Fallback b \<Rightarrow> apsnd Fallback (fallback_Clear b) | XDP x \<Rightarrow> apsnd XDP (XDP_Clear E x)),
     if_Close = (\<lambda>f. case f of Fallback b \<Rightarrow> fallback_Close b | XDP x \<Rightarrow> xdp_Close E),
     if_Stats = (\<lambda>f. case f of Fallback b \<Rightarrow> fallback_Stats b | XDP x \<Rightarrow> xdp_Stats E x)\<rparr>"

lemma impl_ip_filter:
  assumes "bpf_laws (xe_v4 E)" and "bpf_laws (xe_v6 E)"
  shows "ip_filter (implOps E)"
proof -
  note x = xdp_Add_has [OF assms] xdp_Remove_has [OF assms]
  note fb = fallback_AddIP_def fallback_RemoveIP_def fallback_TestIP_def
  show ?thesis
    by unfold_locales
      (auto simp: implOps_def fun_eq_iff fb x apsnd_def map_prod_def dest: same_addr_String split: filter_impl.splits prod.splits if_splits)
qed

text \<open>A hash map as a set of keys obeys the laws.\<close>

definition setBpf :: "('k list, 'k) BpfMap" where
  "setBpf = \<lparr>bpf_Put = (\<lambda>m k. (None, List.insert k m)),
     bpf_Delete = (\<lambda>m k. if k \<in> set m then (None, removeAll k m) else (Some ''key does not exist'', m)),
     bpf_Lookup = (\<lambda>m k. if k \<in> set m then None else Some ''key does not exist''),
     bpf_Iterate = (\<lambda>m. m)\<rparr>"

lemma setBpf_laws: "bpf_laws setBpf"
  by (auto simp: bpf_laws_def setBpf_def bpf_has_def fun_eq_iff split: if_splits)

end
