(* ===== verification/Ban_Manager.thy ===== *)
theory Ban_Manager
  imports Ban_Item IP_Filter
begin

text \<open>
  The ban manager: \<^verbatim>\<open>biz/services/peer/mux_local/ban/manager.go\<close>. It keeps one ban list for info
  hashes, one for peer identifiers, and an address filter. The lemmas on addresses are proved for
  any filter that satisfies the contract \<open>ip_filter\<close>.
\<close>

datatype banType = BanTypePeerId | BanTypeInfoHash | BanTypeIP

record ('f, 'i) BanManager =
  bm_infoHash :: "'f banItem"
  bm_peerId :: "'f banItem"
  bm_ipFilter :: 'i

definition ErrInvalidIP :: error where
  "ErrInvalidIP = ''invalid IP address''"

text \<open>The two files and the filter are opened in turn; a failure is a panic.\<close>

definition NewBanManagerWithIP ::
  "'f bloom \<Rightarrow> ban_io \<Rightarrow> ban_io \<Rightarrow> string \<Rightarrow> string \<Rightarrow> (string \<Rightarrow> 'i result) \<Rightarrow> string \<Rightarrow> ('f, 'i) BanManager result" where
  "NewBanManagerWithIP B ioHash ioPeer hashFile peerFile NewIPFilter ifaceName =
     (case newBanItem B ioHash hashFile of
        Inl e \<Rightarrow> Inl e
      | Inr infoHash \<Rightarrow>
          (case newBanItem B ioPeer peerFile of
             Inl e \<Rightarrow> Inl e
           | Inr peerId \<Rightarrow>
               (case NewIPFilter ifaceName of
                  Inl e \<Rightarrow> Inl e
                | Inr ipFilter \<Rightarrow>
                    Inr \<lparr>bm_infoHash = infoHash, bm_peerId = peerId, bm_ipFilter = ipFilter\<rparr>)))"

definition NewBanManager ::
  "'f bloom \<Rightarrow> ban_io \<Rightarrow> ban_io \<Rightarrow> string \<Rightarrow> string \<Rightarrow> (string \<Rightarrow> 'i result) \<Rightarrow> ('f, 'i) BanManager result" where
  "NewBanManager B ioHash ioPeer hashFile peerFile NewIPFilter =
     NewBanManagerWithIP B ioHash ioPeer hashFile peerFile NewIPFilter []"

definition getItem :: "('f, 'i) BanManager \<Rightarrow> banType \<Rightarrow> 'f banItem result" where
  "getItem b targetType =
     (case targetType of
        BanTypePeerId \<Rightarrow> Inr (bm_peerId b)
      | BanTypeInfoHash \<Rightarrow> Inr (bm_infoHash b)
      | _ \<Rightarrow> Inl ''invalid ban type'')"

definition setItem :: "('f, 'i) BanManager \<Rightarrow> banType \<Rightarrow> 'f banItem \<Rightarrow> ('f, 'i) BanManager" where
  "setItem b targetType item =
     (case targetType of
        BanTypePeerId \<Rightarrow> b\<lparr>bm_peerId := item\<rparr>
      | BanTypeInfoHash \<Rightarrow> b\<lparr>bm_infoHash := item\<rparr>
      | _ \<Rightarrow> b)"

definition AddBan ::
  "'f bloom \<Rightarrow> ban_io \<Rightarrow> banType \<Rightarrow> string \<Rightarrow> ('f, 'i) BanManager \<Rightarrow> unit result \<times> ('f, 'i) BanManager" where
  "AddBan B io targetType target b =
     (case getItem b targetType of
        Inl e \<Rightarrow> (Inl e, b)
      | Inr item \<Rightarrow> apsnd (setItem b targetType) (banItem_add B io target item))"

definition ban_Test :: "'f bloom \<Rightarrow> ('f, 'i) BanManager \<Rightarrow> banType \<Rightarrow> string \<Rightarrow> bool result" where
  "ban_Test B b targetType target =
     (case getItem b targetType of
        Inl e \<Rightarrow> Inl e
      | Inr item \<Rightarrow> Inr (banItem_test B item (UnsafeStringToBytes target)))"

definition ban_Clear :: "'f bloom \<Rightarrow> ban_io \<Rightarrow> banType \<Rightarrow> ('f, 'i) BanManager \<Rightarrow> unit result \<times> ('f, 'i) BanManager" where
  "ban_Clear B io targetType b =
     (case getItem b targetType of
        Inl e \<Rightarrow> (Inl e, b)
      | Inr item \<Rightarrow> (Inr (), setItem b targetType (banItem_clear B io item)))"

definition AddIPBan :: "'i IPFilter \<Rightarrow> string \<Rightarrow> ('f, 'i) BanManager \<Rightarrow> unit result \<times> ('f, 'i) BanManager" where
  "AddIPBan F ip b =
     (case ParseIP ip of
        None \<Rightarrow> (Inl ErrInvalidIP, b)
      | Some w \<Rightarrow> apsnd (\<lambda>f. b\<lparr>bm_ipFilter := f\<rparr>) (if_AddIP F (bm_ipFilter b) (Some w)))"

definition RemoveIPBan :: "'i IPFilter \<Rightarrow> string \<Rightarrow> ('f, 'i) BanManager \<Rightarrow> unit result \<times> ('f, 'i) BanManager" where
  "RemoveIPBan F ip b =
     (case ParseIP ip of
        None \<Rightarrow> (Inl ErrInvalidIP, b)
      | Some w \<Rightarrow> apsnd (\<lambda>f. b\<lparr>bm_ipFilter := f\<rparr>) (if_RemoveIP F (bm_ipFilter b) (Some w)))"

definition ban_TestIP :: "'i IPFilter \<Rightarrow> string \<Rightarrow> ('f, 'i) BanManager \<Rightarrow> bool" where
  "ban_TestIP F ip b =
     (case ParseIP ip of None \<Rightarrow> False | Some w \<Rightarrow> if_TestIP F (bm_ipFilter b) (Some w))"

definition TestIPAddr :: "'i IPFilter \<Rightarrow> IP \<Rightarrow> ('f, 'i) BanManager \<Rightarrow> bool" where
  "TestIPAddr F ip b = if_TestIP F (bm_ipFilter b) ip"

definition ClearIPBans :: "'i IPFilter \<Rightarrow> ('f, 'i) BanManager \<Rightarrow> unit result \<times> ('f, 'i) BanManager" where
  "ClearIPBans F b = apsnd (\<lambda>f. b\<lparr>bm_ipFilter := f\<rparr>) (if_Clear F (bm_ipFilter b))"

definition GetIPFilterStats :: "'i IPFilter \<Rightarrow> ('f, 'i) BanManager \<Rightarrow> IPFilterStats" where
  "GetIPFilterStats F b = if_Stats F (bm_ipFilter b)"

definition ban_Close :: "'i IPFilter \<Rightarrow> ('f, 'i) BanManager \<Rightarrow> unit result" where
  "ban_Close F b = if_Close F (bm_ipFilter b)"

section \<open>Bans take effect\<close>

lemma getItem_setItem [simp]:
  "getItem b t = Inr i \<Longrightarrow> getItem (setItem b t j) t' = (if t' = t then Inr j else getItem b t')"
  by (cases t; cases t') (auto simp: getItem_def setItem_def)

lemma setItem_ipFilter [simp]: "bm_ipFilter (setItem b t i) = bm_ipFilter b"
  by (simp add: setItem_def split: banType.split)

text \<open>Banning an identifier of 20 bytes, with the file system working, bans it and keeps the others.\<close>

lemma AddBan_spec:
  assumes "bloom_laws B" and "getItem b t = Inr i" and "ban_ok B ts i" and "length target = 20"
    and "io_seek io = None" "io_read io = None" "io_write io = None" "io_sync io = None"
  obtains b' i' where "AddBan B io t target b = (Inr (), b')" and "getItem b' t = Inr i'"
    and "ban_ok B (ts @ [target]) i'" and "bm_ipFilter b' = bm_ipFilter b"
    and "\<And>t'. t' \<noteq> t \<Longrightarrow> getItem b' t' = getItem b t'"
proof -
  let ?r = "banItem_add B io target i"
  have "fst ?r = Inr ()" "ban_ok B (ts @ [target]) (snd ?r)" by (rule banItem_add_spec; fact)+
  moreover have "AddBan B io t target b = (fst ?r, setItem b t (snd ?r))"
    by (simp add: AddBan_def assms(2) apsnd_def map_prod_def prod.case_eq_if)
  ultimately show ?thesis
    using assms(2) by (intro that [of "setItem b t (snd ?r)" "snd ?r"]) simp_all
qed

context ip_filter
begin

lemma AddIPBan_blocks:
  "AddIPBan F s b = (Inr (), b') \<Longrightarrow> same_addr (ParseIP s) ip \<Longrightarrow> TestIPAddr F ip b'"
  by (auto simp: AddIPBan_def TestIPAddr_def apsnd_def map_prod_def prod.case_eq_if split: option.splits
      intro: Add_blocks [OF prod_eqI])

lemma RemoveIPBan_unblocks:
  "RemoveIPBan F s b = (Inr (), b') \<Longrightarrow> same_addr (ParseIP s) ip \<Longrightarrow> \<not> TestIPAddr F ip b'"
  by (auto simp: RemoveIPBan_def TestIPAddr_def apsnd_def map_prod_def prod.case_eq_if split: option.splits
      dest: Remove_unblocks [OF iffD2 [OF prod_eq_iff], rotated 1])

lemma AddIPBan_keeps: "AddIPBan F s b = (r, b') \<Longrightarrow> TestIPAddr F ip b \<Longrightarrow> TestIPAddr F ip b'"
  by (auto simp: AddIPBan_def TestIPAddr_def apsnd_def map_prod_def prod.case_eq_if split: option.splits
      intro: Add_keeps [OF prod_eqI])

end

end
