(* ===== verification/Mux_Manager.thy ===== *)
theory Mux_Manager
  imports Local_Ops Ban_Manager
begin

text \<open>
  The sharded in-memory manager, \<^verbatim>\<open>biz/services/peer/mux_local/mux_manager.go\<close>: a list of local
  managers, of which each info hash belongs to one, behind the ban lists. The shards are kept as
  their info hash maps; the roots, the connections and the events are shared, as they are in the
  program, where the shards live in one address space and a connection that a peer uses for several
  torrents may be known to several shards. \<open>worker i\<close> is the local manager of shard \<open>i\<close>.

  The worker pools of \<^verbatim>\<open>Clean\<close> and \<^verbatim>\<open>GetStatistic\<close> are run here in the order of the shards.
\<close>

section \<open>The model\<close>

record ('rm, 'pm, 'f, 'i) MuxLocalManager =
  localList :: "'rm list"
  mx_heap :: "root_ptr \<Rightarrow> 'pm InfoHashRoot"
  mx_nextRoot :: root_ptr
  mx_conns :: "conn_id \<Rightarrow> ConnState"
  mx_outbox :: "(string \<times> Peer) list"
  mx_ban :: "('f, 'i) BanManager"

definition worker :: "nat \<Rightarrow> ('rm, 'pm, 'f, 'i) MuxLocalManager \<Rightarrow> ('rm, 'pm) Manager" where
  "worker i m = \<lparr>infoHashMap = localList m ! i, heap = mx_heap m, nextRoot = mx_nextRoot m,
     conns = mx_conns m, outbox = mx_outbox m\<rparr>"

definition put_worker ::
  "nat \<Rightarrow> ('rm, 'pm) Manager \<Rightarrow> ('rm, 'pm, 'f, 'i) MuxLocalManager \<Rightarrow> ('rm, 'pm, 'f, 'i) MuxLocalManager" where
  "put_worker i w m = m\<lparr>localList := (localList m)[i := infoHashMap w], mx_heap := heap w,
     mx_nextRoot := nextRoot w, mx_conns := conns w, mx_outbox := outbox w\<rparr>"

definition NewMuxLocalManager ::
  "('rm, 'pm) maps \<Rightarrow> Config \<Rightarrow> (string \<Rightarrow> ('f, 'i) BanManager result) \<Rightarrow> int \<Rightarrow>
   ('rm, 'pm, 'f, 'i) MuxLocalManager result" where
  "NewMuxLocalManager D cfg newBan num =
     (let local = NewLocalManger D;
          iface = (if xdp_Enable (t_XDP (c_Tracker cfg)) \<and> xdp_Interface (t_XDP (c_Tracker cfg)) \<noteq> []
                   then xdp_Interface (t_XDP (c_Tracker cfg)) else [])
      in case newBan iface of
           Inl e \<Rightarrow> Inl e
         | Inr banManager \<Rightarrow>
             Inr \<lparr>localList = replicate (nat num) (infoHashMap local), mx_heap = heap local,
                  mx_nextRoot = nextRoot local, mx_conns = conns local, mx_outbox = outbox local,
                  mx_ban = banManager\<rparr>)"

text \<open>
  \<^verbatim>\<open>pickWorker\<close>: the info hash as a big-endian number, its low 64 bits, modulo the number of shards;
  dividing by a length of zero is a panic.
\<close>

definition pickWorker :: "('rm, 'pm, 'f, 'i) MuxLocalManager \<Rightarrow> bytes \<Rightarrow> nat result" where
  "pickWorker m hashBytes =
     (if localList m = [] then Inl ''runtime error: integer divide by zero''
      else Inr (unat ((of_nat (be_nat hashBytes) :: uint64) mod of_nat (length (localList m)))))"

definition mux_BanInfoHash ::
  "('rm, 'pm) maps \<Rightarrow> 'f bloom \<Rightarrow> ban_io \<Rightarrow> string \<Rightarrow> ('rm, 'pm, 'f, 'i) MuxLocalManager \<Rightarrow>
   unit result \<times> ('rm, 'pm, 'f, 'i) MuxLocalManager" where
  "mux_BanInfoHash D B io ih m =
     (case AddBan B io BanTypeInfoHash ih (mx_ban m) of
        (Inl e, b) \<Rightarrow> (Inl e, m\<lparr>mx_ban := b\<rparr>)
      | (Inr _, b) \<Rightarrow>
          (let m = m\<lparr>mx_ban := b\<rparr> in
           case pickWorker m (UnsafeStringToBytes ih) of
             Inl e \<Rightarrow> (Inl e, m)
           | Inr i \<Rightarrow> (Inr (), put_worker i (local_BanInfoHash D ih (worker i m)) m)))"

definition mux_BanPeer ::
  "'f bloom \<Rightarrow> ban_io \<Rightarrow> string \<Rightarrow> ('rm, 'pm, 'f, 'i) MuxLocalManager \<Rightarrow>
   unit result \<times> ('rm, 'pm, 'f, 'i) MuxLocalManager" where
  "mux_BanPeer B io peerID m = apsnd (\<lambda>b. m\<lparr>mx_ban := b\<rparr>) (AddBan B io BanTypePeerId peerID (mx_ban m))"

definition mux_ClearBanInfoHash ::
  "'f bloom \<Rightarrow> ban_io \<Rightarrow> ('rm, 'pm, 'f, 'i) MuxLocalManager \<Rightarrow> ('rm, 'pm, 'f, 'i) MuxLocalManager" where
  "mux_ClearBanInfoHash B io m = m\<lparr>mx_ban := snd (ban_Clear B io BanTypeInfoHash (mx_ban m))\<rparr>"

definition mux_ClearBanPeer ::
  "'f bloom \<Rightarrow> ban_io \<Rightarrow> ('rm, 'pm, 'f, 'i) MuxLocalManager \<Rightarrow> ('rm, 'pm, 'f, 'i) MuxLocalManager" where
  "mux_ClearBanPeer B io m = m\<lparr>mx_ban := snd (ban_Clear B io BanTypePeerId (mx_ban m))\<rparr>"

text \<open>What an announce is refused for.\<close>

definition mux_refusal ::
  "'f bloom \<Rightarrow> 'i IPFilter \<Rightarrow> AnnounceRequest \<Rightarrow> ('f, 'i) BanManager \<Rightarrow> error option" where
  "mux_refusal B F req b =
     (if ban_Test B b BanTypeInfoHash (r_InfoHash req) = Inr True then Some ''banned info_hash''
      else if ban_Test B b BanTypePeerId (r_PeerID req) = Inr True then Some ''banned peer_id''
      else if r_ClientIP req \<noteq> None \<and> TestIPAddr F (r_ClientIP req) b then Some ''banned ip''
      else None)"

definition mux_HandleAnnouncePeer ::
  "('rm, 'pm) maps \<Rightarrow> 'f bloom \<Rightarrow> 'i IPFilter \<Rightarrow> Config \<Rightarrow> announce_env \<Rightarrow> AnnounceRequest \<Rightarrow>
   ('rm, 'pm, 'f, 'i) MuxLocalManager \<Rightarrow> Peer list result \<times> ('rm, 'pm, 'f, 'i) MuxLocalManager" where
  "mux_HandleAnnouncePeer D B F cfg env req m =
     (case mux_refusal B F req (mx_ban m) of
        Some e \<Rightarrow> (Inl e, m)
      | None \<Rightarrow>
          (case pickWorker m (UnsafeStringToBytes (r_InfoHash req)) of
             Inl e \<Rightarrow> (Inl e, m)
           | Inr i \<Rightarrow>
               (case HandleAnnouncePeer D cfg env req (worker i m) of (r, w) \<Rightarrow> (r, put_worker i w m))))"

definition mux_Scrape ::
  "('rm, 'pm) maps \<Rightarrow> Config \<Rightarrow> 'c RedisClient \<Rightarrow> ScrapeFile Codec \<Rightarrow> gotime \<Rightarrow> string \<Rightarrow>
   ('rm, 'pm, 'f, 'i) MuxLocalManager \<times> 'c \<Rightarrow> ScrapeFile result \<times> ('rm, 'pm, 'f, 'i) MuxLocalManager \<times> 'c" where
  "mux_Scrape D cfg Client codec now ih st =
     (case st of (m, c) \<Rightarrow>
       (case pickWorker m (UnsafeStringToBytes ih) of
          Inl e \<Rightarrow> (Inl e, m, c)
        | Inr i \<Rightarrow>
            (case Scrape D cfg Client codec now ih (worker i m, c) of
               (r, w, c') \<Rightarrow> (Inr r, put_worker i w m, c'))))"

definition mux_Clean ::
  "('rm, 'pm) maps \<Rightarrow> Config \<Rightarrow> gotime \<Rightarrow> ('rm, 'pm, 'f, 'i) MuxLocalManager \<Rightarrow>
   int \<times> ('rm, 'pm, 'f, 'i) MuxLocalManager" where
  "mux_Clean D cfg now m =
     foldl (\<lambda>(total, m) i. case Clean D cfg now (worker i m) of (n, w) \<Rightarrow> (total + n, put_worker i w m))
       (0, m) [0..<length (localList m)]"

definition mux_GetStatistic ::
  "('rm, 'pm) maps \<Rightarrow> ('rm, 'pm, 'f, 'i) MuxLocalManager \<Rightarrow> StatisticInfo" where
  "mux_GetStatistic D m =
     (case foldl (\<lambda>(peerCount, torrentCount, extra) i.
             (let info = GetStatistic D (worker i m)
              in (peerCount + TotalPeers info, torrentCount + TotalTorrents info, extra @ [(Itoa (int i), info)])))
           (0, 0, []) [0..<length (localList m)] of
        (peerCount, torrentCount, extra) \<Rightarrow> StatisticInfo peerCount torrentCount extra)"

definition mux_GetPeers ::
  "('rm, 'pm) maps \<Rightarrow> string \<Rightarrow> ('rm, 'pm, 'f, 'i) MuxLocalManager \<Rightarrow> Peer list result" where
  "mux_GetPeers D ih m =
     (case pickWorker m (UnsafeStringToBytes ih) of
        Inl e \<Rightarrow> Inl e | Inr i \<Rightarrow> Inr (local_GetPeers D ih (worker i m)))"

definition mux_DeleteInfoHash ::
  "('rm, 'pm) maps \<Rightarrow> string \<Rightarrow> ('rm, 'pm, 'f, 'i) MuxLocalManager \<Rightarrow>
   unit result \<times> ('rm, 'pm, 'f, 'i) MuxLocalManager" where
  "mux_DeleteInfoHash D ih m =
     (case pickWorker m (UnsafeStringToBytes ih) of
        Inl e \<Rightarrow> (Inl e, m)
      | Inr i \<Rightarrow> (Inr (), put_worker i (local_DeleteInfoHash D ih (worker i m)) m))"

definition mux_BanIP ::
  "'i IPFilter \<Rightarrow> string \<Rightarrow> ('rm, 'pm, 'f, 'i) MuxLocalManager \<Rightarrow> unit result \<times> ('rm, 'pm, 'f, 'i) MuxLocalManager" where
  "mux_BanIP F ip m = apsnd (\<lambda>b. m\<lparr>mx_ban := b\<rparr>) (AddIPBan F ip (mx_ban m))"

definition mux_UnbanIP ::
  "'i IPFilter \<Rightarrow> string \<Rightarrow> ('rm, 'pm, 'f, 'i) MuxLocalManager \<Rightarrow> unit result \<times> ('rm, 'pm, 'f, 'i) MuxLocalManager" where
  "mux_UnbanIP F ip m = apsnd (\<lambda>b. m\<lparr>mx_ban := b\<rparr>) (RemoveIPBan F ip (mx_ban m))"

definition mux_ClearBanIP ::
  "'i IPFilter \<Rightarrow> ('rm, 'pm, 'f, 'i) MuxLocalManager \<Rightarrow> unit result \<times> ('rm, 'pm, 'f, 'i) MuxLocalManager" where
  "mux_ClearBanIP F m = apsnd (\<lambda>b. m\<lparr>mx_ban := b\<rparr>) (ClearIPBans F (mx_ban m))"

definition mux_GetIPFilterStats :: "'i IPFilter \<Rightarrow> ('rm, 'pm, 'f, 'i) MuxLocalManager \<Rightarrow> IPFilterStats" where
  "mux_GetIPFilterStats F m = GetIPFilterStats F (mx_ban m)"

section \<open>One manager made of shards\<close>

text \<open>The shard of an info hash among \<open>n\<close>, and the abstract state of all shards together.\<close>

definition shard_of :: "nat \<Rightarrow> string \<Rightarrow> nat" where
  "shard_of n ih = unat ((of_nat (be_nat (UnsafeStringToBytes ih)) :: uint64) mod of_nat n)"

definition mux_view :: "('rm, 'pm) maps \<Rightarrow> ('rm, 'pm, 'f, 'i) MuxLocalManager \<Rightarrow> string \<rightharpoonup> swarm" where
  "mux_view D m ih = mgr_view D (worker (shard_of (length (localList m)) ih) m) ih"

definition mux_ok ::
  "('rm, 'pm) maps \<Rightarrow> ('rm \<Rightarrow> bool) \<Rightarrow> ('pm \<Rightarrow> bool) \<Rightarrow> ('rm, 'pm, 'f, 'i) MuxLocalManager \<Rightarrow> bool" where
  "mux_ok D rinv pinv m \<longleftrightarrow>
     localList m \<noteq> [] \<and> length (localList m) < 2 ^ 64 \<and>
     (\<forall>i < length (localList m). mgr_ok D rinv pinv (worker i m) \<and>
        (\<forall>ih. sm_Load (rootOps D) (localList m ! i) ih \<noteq> None \<longrightarrow> shard_of (length (localList m)) ih = i))"

lemma worker_simps [simp]:
  "infoHashMap (worker i m) = localList m ! i" "heap (worker i m) = mx_heap m"
  "nextRoot (worker i m) = mx_nextRoot m" "conns (worker i m) = mx_conns m" "outbox (worker i m) = mx_outbox m"
  by (simp_all add: worker_def)

lemma put_worker_simps [simp]:
  "localList (put_worker i w m) = (localList m)[i := infoHashMap w]" "mx_heap (put_worker i w m) = heap w"
  "mx_nextRoot (put_worker i w m) = nextRoot w" "mx_conns (put_worker i w m) = conns w"
  "mx_outbox (put_worker i w m) = outbox w" "mx_ban (put_worker i w m) = mx_ban m"
  by (simp_all add: put_worker_def)

lemma worker_put [simp]: "i < length (localList m) \<Longrightarrow> worker i (put_worker i w m) = w"
  by (simp add: worker_def)

lemma shard_of_less:
  assumes "0 < n" and "n < 2 ^ 64"
  shows "shard_of n ih < n"
proof -
  have "unat (of_nat n :: uint64) = n" using assms(2) by (simp add: unat_of_nat take_bit_nat_eq_self)
  then show ?thesis using assms(1) by (simp add: shard_of_def unat_mod)
qed

lemma pickWorker_shard:
  "localList m \<noteq> [] \<Longrightarrow> pickWorker m (UnsafeStringToBytes ih) = Inr (shard_of (length (localList m)) ih)"
  by (simp add: pickWorker_def shard_of_def)

lemma mux_ok_shard:
  fixes ih
  assumes "mux_ok D rinv pinv m"
  defines "i \<equiv> shard_of (length (localList m)) ih"
  shows "i < length (localList m)" and "mgr_ok D rinv pinv (worker i m)"
    and "pickWorker m (UnsafeStringToBytes ih) = Inr i"
  using assms shard_of_less [of "length (localList m)" ih] by (auto simp: mux_ok_def i_def pickWorker_shard)

context local_maps
begin

abbreviation xok :: "('rm, 'pm, 'f, 'i) MuxLocalManager \<Rightarrow> bool" where
  "xok \<equiv> mux_ok D rinv pinv"

lemma mux_ok_ban [simp]: "xok (m\<lparr>mx_ban := b\<rparr>) \<longleftrightarrow> xok m"
  by (simp add: mux_ok_def worker_def)

lemma mux_view_ban [simp]: "mux_view D (m\<lparr>mx_ban := b\<rparr>) = mux_view D m"
  by (simp add: mux_view_def worker_def fun_eq_iff)

text \<open>
  An operation on one shard that keeps the entries of other torrents, and roots of other torrents,
  keeps the whole well formed and changes the abstract state at its own torrent only.
\<close>

lemma put_worker_frame:
  assumes ok: "xok m" and i: "i = shard_of (length (localList m)) ih" and w: "mok w"
    and nr: "mx_nextRoot m \<le> nextRoot w"
    and hp: "\<And>ptr. ptr < mx_nextRoot m \<Longrightarrow> infoHash (heap w ptr) = infoHash (mx_heap m ptr) \<and>
      (sm_Load (rootOps D) (localList m ! i) ih \<noteq> Some ptr \<longrightarrow> heap w ptr = mx_heap m ptr)"
    and im: "\<And>ih'. ih' \<noteq> ih \<Longrightarrow> sm_Load (rootOps D) (infoHashMap w) ih' = sm_Load (rootOps D) (localList m ! i) ih'"
  shows "xok (put_worker i w m)" and "mux_view D (put_worker i w m) = (mux_view D m)(ih := mgr_view D w ih)"
proof -
  let ?n = "length (localList m)"
  have lt: "i < ?n" using mux_ok_shard(1) [OF ok] by (simp add: i)
  have other: "mok (worker j (put_worker i w m)) \<and>
      (\<forall>ih'. mgr_view D (worker j (put_worker i w m)) ih' = mgr_view D (worker j m) ih')" if j: "j < ?n" "j \<noteq> i" for j
  proof -
    have okj: "mok (worker j m)" and sh: "\<And>ih' ptr. sm_Load (rootOps D) (localList m ! j) ih' = Some ptr \<Longrightarrow> shard_of ?n ih' = j"
      using ok j(1) unfolding mux_ok_def by blast+
    have ptr: "ptr < mx_nextRoot m \<and> infoHash (mx_heap m ptr) = ih'"
      if "sm_Load (rootOps D) (localList m ! j) ih' = Some ptr" for ih' ptr
      using okj that by (simp add: mgr_ok_def)
    have same: "heap w ptr = mx_heap m ptr" if "sm_Load (rootOps D) (localList m ! j) ih' = Some ptr" for ih' ptr
    proof -
      have "ih' \<noteq> ih" using sh [OF that] j(2) i by auto
      moreover have "infoHash (mx_heap m ptr) = ih" if "sm_Load (rootOps D) (localList m ! i) ih = Some ptr"
        using ok lt that unfolding mux_ok_def mgr_ok_def by (metis worker_simps(1,2))
      ultimately show ?thesis using hp ptr [OF that] by blast
    qed
    have "mok (worker j (put_worker i w m))"
      using okj w same ptr nr j(2) by (fastforce simp: mgr_ok_def)
    moreover have "mgr_view D (worker j (put_worker i w m)) ih' = mgr_view D (worker j m) ih'" for ih'
      using same j(2) by (cases "sm_Load (rootOps D) (localList m ! j) ih'") (auto simp: mgr_view_def)
    ultimately show ?thesis by blast
  qed
  have own: "shard_of ?n ih' = i" if "sm_Load (rootOps D) (infoHashMap w) ih' \<noteq> None" for ih'
    using that im [of ih'] ok lt i unfolding mux_ok_def by (cases "ih' = ih") auto
  show "xok (put_worker i w m)"
    unfolding mux_ok_def
  proof (intro conjI allI impI)
    show "localList (put_worker i w m) \<noteq> []" "length (localList (put_worker i w m)) < 2 ^ 64"
      using ok by (simp_all add: mux_ok_def)
    fix j assume "j < length (localList (put_worker i w m))"
    then have j: "j < ?n" by simp
    show "mok (worker j (put_worker i w m))"
      using j other [of j] w lt by (cases "j = i") simp_all
    fix ih' assume "sm_Load (rootOps D) (localList (put_worker i w m) ! j) ih' \<noteq> None"
    then show "shard_of (length (localList (put_worker i w m))) ih' = j"
      using j own ok lt unfolding mux_ok_def by (cases "j = i") auto
  qed
  show "mux_view D (put_worker i w m) = (mux_view D m)(ih := mgr_view D w ih)"
  proof
    fix ih'
    let ?j = "shard_of ?n ih'"
    have j: "?j < ?n" using mux_ok_shard(1) [OF ok] .
    show "mux_view D (put_worker i w m) ih' = ((mux_view D m)(ih := mgr_view D w ih)) ih'"
    proof (cases "?j = i")
      case False
      then show ?thesis using other [OF j False] i by (auto simp: mux_view_def)
    next
      case True
      have "mgr_view D w ih' = mgr_view D (worker i m) ih'" if "ih' \<noteq> ih"
      proof (cases "sm_Load (rootOps D) (localList m ! i) ih'")
        case (Some ptr)
        have pt: "ptr < mx_nextRoot m" "infoHash (mx_heap m ptr) = ih'"
          using ok lt Some unfolding mux_ok_def mgr_ok_def by (metis worker_simps(1,2,3))+
        have "sm_Load (rootOps D) (localList m ! i) ih \<noteq> Some ptr"
          using ok lt pt(2) that unfolding mux_ok_def mgr_ok_def by (metis worker_simps(1,2))
        with hp [OF pt(1)] Some im [OF that] show ?thesis by (simp add: mgr_view_def)
      qed (simp add: mgr_view_def im [OF that])
      with True lt show ?thesis by (auto simp: mux_view_def)
    qed
  qed
qed

lemma mux_announce_spec:
  fixes env req cfg
  assumes ok: "xok m" and r: "mux_refusal B F req (mx_ban m) = None"
  defines "w \<equiv> worker (shard_of (length (localList m)) (r_InfoHash req)) m"
  shows "fst (mux_HandleAnnouncePeer D B F cfg env req m) = fst (HandleAnnouncePeer D cfg env req w)"
    and "xok (snd (mux_HandleAnnouncePeer D B F cfg env req m))"
    and "mux_view D (snd (mux_HandleAnnouncePeer D B F cfg env req m)) =
      (mux_view D m)(r_InfoHash req := mgr_view D (snd (HandleAnnouncePeer D cfg env req w)) (r_InfoHash req))"
    and "mx_ban (snd (mux_HandleAnnouncePeer D B F cfg env req m)) = mx_ban m"
proof -
  let ?i = "shard_of (length (localList m)) (r_InfoHash req)"
  note sh = mux_ok_shard [OF ok, of "r_InfoHash req"]
  have eq: "mux_HandleAnnouncePeer D B F cfg env req m =
      (fst (HandleAnnouncePeer D cfg env req w), put_worker ?i (snd (HandleAnnouncePeer D cfg env req w)) m)"
    by (simp add: mux_HandleAnnouncePeer_def r sh(3) w_def prod.case_eq_if)
  then show "fst (mux_HandleAnnouncePeer D B F cfg env req m) = fst (HandleAnnouncePeer D cfg env req w)"
    and "mx_ban (snd (mux_HandleAnnouncePeer D B F cfg env req m)) = mx_ban m" by simp_all
  have "mok w" using sh(2) by (simp add: w_def)
  note fr = announce_frame [OF this, of cfg env req]
  show "xok (snd (mux_HandleAnnouncePeer D B F cfg env req m))"
    unfolding eq snd_conv by (rule put_worker_frame(1) [OF ok refl]) (use fr in \<open>auto simp: w_def\<close>)
  show "mux_view D (snd (mux_HandleAnnouncePeer D B F cfg env req m)) =
      (mux_view D m)(r_InfoHash req := mgr_view D (snd (HandleAnnouncePeer D cfg env req w)) (r_InfoHash req))"
    unfolding eq snd_conv by (rule put_worker_frame(2) [OF ok refl]) (use fr in \<open>auto simp: w_def\<close>)
qed

lemma mux_delete_spec:
  fixes ih
  assumes ok: "xok m"
  defines "i \<equiv> shard_of (length (localList m)) ih"
  shows "xok (put_worker i (local_DeleteInfoHash D ih (worker i m)) m)"
    and "mux_view D (put_worker i (local_DeleteInfoHash D ih (worker i m)) m) = (mux_view D m)(ih := None)"
proof -
  let ?w = "local_DeleteInfoHash D ih (worker i m)"
  have okw: "mok (worker i m)" using mux_ok_shard(2) [OF ok] by (simp add: i_def)
  have ri: "rinv (localList m ! i)" using mok_rootD(2) [OF okw] by simp
  have w: "mok ?w" using shrinks_mok [OF DeleteInfoHash_shrinks(1) okw] .
  have ld: "sm_Load (rootOps D) (infoHashMap ?w) = (sm_Load (rootOps D) (localList m ! i))(ih := None)"
    by (simp add: local_DeleteInfoHash_def R.Load_Delete [OF ri])
  have nr: "nextRoot ?w = mx_nextRoot m" and hp: "heap ?w = mx_heap m"
    by (simp_all add: local_DeleteInfoHash_def)
  show "xok (put_worker i ?w m)"
    by (rule put_worker_frame(1) [OF ok i_def [THEN meta_eq_to_obj_eq] w]) (simp_all add: ld nr hp)
  have "mux_view D (put_worker i ?w m) = (mux_view D m)(ih := mgr_view D ?w ih)"
    by (rule put_worker_frame(2) [OF ok i_def [THEN meta_eq_to_obj_eq] w]) (simp_all add: ld nr hp)
  then show "mux_view D (put_worker i ?w m) = (mux_view D m)(ih := None)" by (simp add: mgr_view_def ld)
qed

lemma mux_New:
  assumes "0 < num" and "num < 2 ^ 64" and "NewMuxLocalManager D cfg newBan num = Inr m"
  shows "xok m" and "mux_view D m = Map.empty"
proof -
  have m: "worker i m = NewLocalManger D" if "i < nat num" for i
    using assms(3) that by (auto simp: NewMuxLocalManager_def worker_def Let_def split: sum.splits)
  have len: "length (localList m) = nat num"
    using assms(3) by (auto simp: NewMuxLocalManager_def Let_def split: sum.splits)
  have lt: "shard_of (nat num) ih < nat num" for ih using assms(1,2) by (intro shard_of_less) auto
  have "localList m ! i = infoHashMap (worker i m)" for i by simp
  then have "sm_Load (rootOps D) (localList m ! i) = Map.empty" if "i < nat num" for i
    using that by (simp add: m NewLocalManger_def R.Load_New del: worker_simps)
  with assms(1,2) len m show "xok m" by (auto simp: mux_ok_def mok_New)
  show "mux_view D m = Map.empty" by (simp add: mux_view_def len m [OF lt] mgr_view_New fun_eq_iff)
qed

lemma Scrape_same_but:
  obtains ptr ks where "rootAt m ih = Some ptr" "fst (snd (Scrape D cfg Client codec now ih (m, c))) = delete_expired D ptr ks m"
  | "fst (snd (Scrape D cfg Client codec now ih (m, c))) = m"
proof (cases "rootAt m ih")
  case None
  then show ?thesis by (intro that(2)) (simp add: Scrape_def)
next
  case (Some ptr)
  show ?thesis
  proof (cases "if redis_Enable (c_Cache cfg) then cache_Get Client codec c (''scrape_'' @ ih) else None")
    case None
    with Some show ?thesis
      by (intro that(1) [OF Some]) (simp add: Scrape_def Let_def prod.case_eq_if)
  next
    case (Some v)
    with \<open>rootAt m ih = Some ptr\<close> show ?thesis by (intro that(2)) (simp add: Scrape_def Let_def)
  qed
qed

lemma mux_Scrape_spec:
  fixes ih c now cfg Client codec
  assumes ok: "xok m"
  defines "w \<equiv> worker (shard_of (length (localList m)) ih) m"
  obtains m' where "mux_Scrape D cfg Client codec now ih (m, c) =
      (Inr (fst (Scrape D cfg Client codec now ih (w, c))), m', snd (snd (Scrape D cfg Client codec now ih (w, c))))"
    and "xok m'" and "mx_ban m' = mx_ban m"
    and "mux_view D m' = (mux_view D m)(ih := mgr_view D (fst (snd (Scrape D cfg Client codec now ih (w, c)))) ih)"
proof -
  let ?i = "shard_of (length (localList m)) ih" and ?w' = "fst (snd (Scrape D cfg Client codec now ih (w, c)))"
  note sh = mux_ok_shard [OF ok, of ih]
  have okw: "mok w" using sh(2) by (simp add: w_def)
  have w': "mok ?w'" by (rule shrinks_mok [OF Scrape_shrinks okw])
  have fr: "nextRoot ?w' = nextRoot w \<and> infoHashMap ?w' = infoHashMap w \<and>
      (\<forall>ptr. infoHash (heap ?w' ptr) = infoHash (heap w ptr) \<and> (rootAt w ih \<noteq> Some ptr \<longrightarrow> heap ?w' ptr = heap w ptr))"
  proof (rule Scrape_same_but [of w ih cfg Client codec now c])
    fix ptr ks
    assume "rootAt w ih = Some ptr" and "?w' = delete_expired D ptr ks w"
    then show ?thesis using delete_expired_same_but [of ptr D ks w] by (auto simp: same_but_def)
  qed simp
  have frame: "xok (put_worker ?i ?w' m)" "mux_view D (put_worker ?i ?w' m) = (mux_view D m)(ih := mgr_view D ?w' ih)"
    by (rule put_worker_frame [OF ok refl w']; use fr in \<open>simp add: w_def\<close>)+
  show ?thesis
    by (rule that [of "put_worker ?i ?w' m"])
      (use frame in \<open>simp_all add: mux_Scrape_def sh(3) w_def prod.case_eq_if\<close>)
qed

text \<open>The torrents of a shard are those of the whole that belong to it.\<close>

lemma shard_view:
  assumes ok: "xok m" and i: "i < length (localList m)"
  shows "mgr_view D (worker i m) ih = (if shard_of (length (localList m)) ih = i then mux_view D m ih else None)"
proof (cases "shard_of (length (localList m)) ih = i")
  case True
  then show ?thesis by (simp add: mux_view_def)
next
  case False
  with ok i have "sm_Load (rootOps D) (localList m ! i) ih = None" unfolding mux_ok_def by blast
  with False show ?thesis by (simp add: mgr_view_def)
qed

lemma foldl_statistic:
  "foldl (\<lambda>(p, t, ex) i. let info = f i in (p + TotalPeers info, t + TotalTorrents info, ex @ [(g i, info)])) (p0, t0, e0) xs =
   (p0 + (\<Sum>i \<leftarrow> xs. TotalPeers (f i)), t0 + (\<Sum>i \<leftarrow> xs. TotalTorrents (f i)), e0 @ map (\<lambda>i. (g i, f i)) xs)"
  by (induction xs arbitrary: p0 t0 e0) (simp_all add: Let_def add.assoc)

lemma sum_shards:
  assumes ok: "xok m" and fin: "finite (dom (mux_view D m))"
  shows "(\<Sum>i < length (localList m). \<Sum>ih \<in> dom (mgr_view D (worker i m)). h (mgr_view D (worker i m) ih)) =
    (\<Sum>ih \<in> dom (mux_view D m). h (mux_view D m ih))"
proof -
  let ?n = "length (localList m)" and ?v = "mux_view D m"
  have d: "dom (mgr_view D (worker i m)) = {ih \<in> dom ?v. shard_of ?n ih = i}" if "i < ?n" for i
    using shard_view [OF ok that] by (auto simp: dom_def)
  have "(\<Sum>ih \<in> dom (mgr_view D (worker i m)). h (mgr_view D (worker i m) ih)) =
      (\<Sum>ih \<in> {ih \<in> dom ?v. shard_of ?n ih = i}. h (?v ih))" if "i < ?n" for i
    by (rule sum.cong) (use d [OF that] shard_view [OF ok that] in auto)
  then have "(\<Sum>i < ?n. \<Sum>ih \<in> dom (mgr_view D (worker i m)). h (mgr_view D (worker i m) ih)) =
      (\<Sum>i < ?n. \<Sum>ih \<in> {ih \<in> dom ?v. shard_of ?n ih = i}. h (?v ih))"
    by (intro sum.cong [OF refl]) (simp only: lessThan_iff)
  also have "\<dots> = (\<Sum>ih \<in> dom ?v. h (?v ih))"
    using mux_ok_shard(1) [OF ok] by (intro sum.group [OF fin]) auto
  finally show ?thesis .
qed

lemma mux_view_finite:
  assumes ok: "xok m"
  shows "finite (dom (mux_view D m))"
proof -
  have "dom (mux_view D m) \<subseteq> (\<Union>i < length (localList m). dom (mgr_view D (worker i m)))"
    using mux_ok_shard(1) [OF ok] by (force simp: mux_view_def)
  moreover have "finite (dom (mgr_view D (worker i m)))" if "i < length (localList m)" for i
  proof -
    have "rinv (localList m ! i)" using ok that mok_rootD(2) [of "worker i m"] by (simp add: mux_ok_def)
    then have "finite (dom (sm_Load (rootOps D) (localList m ! i)))" by simp
    moreover have "dom (mgr_view D (worker i m)) = dom (sm_Load (rootOps D) (localList m ! i))"
      by (auto simp: mgr_view_def dom_def)
    ultimately show ?thesis by simp
  qed
  ultimately show ?thesis by (meson finite_UN finite_lessThan finite_subset lessThan_iff)
qed

lemma mux_GetStatistic_spec:
  assumes ok: "xok m"
  shows "mux_GetStatistic D m =
    StatisticInfo (of_nat (\<Sum>ih \<in> dom (mux_view D m). card (dom (the (mux_view D m ih)))))
      (of_nat (card (dom (mux_view D m))))
      (map (\<lambda>i. (Itoa (int i), GetStatistic D (worker i m))) [0..<length (localList m)])"
proof -
  let ?n = "length (localList m)" and ?v = "\<lambda>i. mgr_view D (worker i m)"
  have g: "GetStatistic D (worker i m) = StatisticInfo (of_nat (\<Sum>ih \<in> dom (?v i). card (dom (the (?v i ih)))))
      (of_nat (card (dom (?v i)))) []" if "i < ?n" for i
    using ok that by (intro GetStatistic_spec) (simp add: mux_ok_def)
  have "(\<Sum>i \<leftarrow> [0..<?n]. TotalPeers (GetStatistic D (worker i m))) =
      (\<Sum>i < ?n. TotalPeers (GetStatistic D (worker i m)))"
    by (simp add: interv_sum_list_conv_sum_set_nat atLeast0LessThan)
  also have "\<dots> = (\<Sum>i < ?n. of_nat (\<Sum>ih \<in> dom (?v i). card (dom (the (?v i ih)))))"
    by (rule sum.cong [OF refl]) (simp add: g)
  also have "\<dots> = of_nat (\<Sum>i < ?n. \<Sum>ih \<in> dom (?v i). card (dom (the (?v i ih))))" by simp
  also have "\<dots> = of_nat (\<Sum>ih \<in> dom (mux_view D m). card (dom (the (mux_view D m ih))))"
    by (simp only: sum_shards [OF ok mux_view_finite [OF ok], of "\<lambda>x. card (dom (the x))"])
  finally have p: "(\<Sum>i \<leftarrow> [0..<?n]. TotalPeers (GetStatistic D (worker i m))) = \<dots>" .
  have "(\<Sum>i \<leftarrow> [0..<?n]. TotalTorrents (GetStatistic D (worker i m))) =
      (\<Sum>i < ?n. TotalTorrents (GetStatistic D (worker i m)))"
    by (simp add: interv_sum_list_conv_sum_set_nat atLeast0LessThan)
  also have "\<dots> = (\<Sum>i < ?n. of_nat (card (dom (?v i))))"
    by (rule sum.cong [OF refl]) (simp add: g)
  also have "\<dots> = of_nat (\<Sum>i < ?n. \<Sum>ih \<in> dom (?v i). 1)" by simp
  also have "\<dots> = of_nat (\<Sum>ih \<in> dom (mux_view D m). 1)"
    by (simp only: sum_shards [OF ok mux_view_finite [OF ok], of "\<lambda>_. 1"])
  also have "\<dots> = of_nat (card (dom (mux_view D m)))" by simp
  finally have t: "(\<Sum>i \<leftarrow> [0..<?n]. TotalTorrents (GetStatistic D (worker i m))) = \<dots>" .
  show ?thesis
    unfolding mux_GetStatistic_def foldl_statistic [where g = "\<lambda>i. Itoa (int i)"] p t by simp
qed

end

end
