(* ===== verification/Persist.thy ===== *)
theory Persist
  imports Rpc_Adaptor Mux_Manager
begin

text \<open>
  Snapshots of the in-memory manager, \<^verbatim>\<open>biz/services/peer/mux_local/persist.go\<close>: a file per shard with
  one frame per peer, a little-endian length and the compressed thrift encoding of info hash and peer.

  Thrift (\<^verbatim>\<open>frugal\<close>) and zstd are parameters, as are the lock and open results of the files and the
  buffers that the pool hands out, whose capacity matters: the code reslices them to the length of a
  frame, which is a panic beyond the capacity. \<^verbatim>\<open>bufio.Reader\<close> is modelled with its buffer of 4096 bytes,
  since it decides where a read comes back short. The goroutines of the files run here one after
  the other, in the order of the files. Writes to an opened file are taken to succeed.
\<close>

section \<open>The reader\<close>

record reader =
  rd_buffered :: bytes
  rd_rest :: bytes

definition rd_contents :: "reader \<Rightarrow> bytes" where
  "rd_contents r = rd_buffered r @ rd_rest r"

definition NewReader :: "bytes \<Rightarrow> reader" where
  "NewReader file = \<lparr>rd_buffered = [], rd_rest = file\<rparr>"

text \<open>\<^verbatim>\<open>Read\<close> into a slice of length \<open>n\<close>: the bytes read, or \<open>None\<close> for \<^verbatim>\<open>io.EOF\<close>.\<close>

definition rd_Read :: "nat \<Rightarrow> reader \<Rightarrow> bytes option \<times> reader" where
  "rd_Read n r =
     (if n = 0 then (Some [], r)
      else if rd_buffered r \<noteq> [] then (Some (take n (rd_buffered r)), r\<lparr>rd_buffered := drop n (rd_buffered r)\<rparr>)
      else if rd_rest r = [] then (None, r)
      else if n \<ge> 4096 then (Some (take n (rd_rest r)), r\<lparr>rd_rest := drop n (rd_rest r)\<rparr>)
      else (Some (take n (take 4096 (rd_rest r))),
            \<lparr>rd_buffered = drop n (take 4096 (rd_rest r)), rd_rest = drop 4096 (rd_rest r)\<rparr>))"

lemma rd_Read_SomeD:
  assumes "rd_Read n r = (Some bs, r')"
  shows "rd_contents r = bs @ rd_contents r'" and "length bs \<le> n" and "0 < n \<Longrightarrow> bs \<noteq> []"
proof -
  have "take n (take 4096 xs) @ drop n (take 4096 xs) @ drop 4096 xs = xs" for xs :: bytes
    by (metis append.assoc append_take_drop_id)
  then show "rd_contents r = bs @ rd_contents r'"
    using assms by (auto simp: rd_Read_def rd_contents_def split: if_splits)
  show "length bs \<le> n" "0 < n \<Longrightarrow> bs \<noteq> []" using assms by (auto simp: rd_Read_def split: if_splits)
qed

lemma rd_Read_NoneD: "rd_Read n r = (None, r') \<Longrightarrow> rd_contents r = []"
  by (auto simp: rd_Read_def rd_contents_def split: if_splits)

text \<open>\<^verbatim>\<open>io.ReadFull\<close>, which \<^verbatim>\<open>binary.Read\<close> calls; \<open>None\<close> is an error whose text contains \<^verbatim>\<open>EOF\<close>.\<close>

function read_full :: "nat \<Rightarrow> reader \<Rightarrow> bytes option \<times> reader" where
  "read_full n r =
     (if n = 0 then (Some [], r)
      else case rd_Read n r of
        (None, r') \<Rightarrow> (None, r')
      | (Some bs, r') \<Rightarrow>
          (case read_full (n - length bs) r' of
             (None, r'') \<Rightarrow> (None, r'')
           | (Some cs, r'') \<Rightarrow> (Some (bs @ cs), r'')))"
  by pat_completeness auto
termination
proof (relation "measure fst")
  fix n r x r' bs
  assume "n \<noteq> 0" "(x, r') = rd_Read n r" "x = Some bs"
  then have "bs \<noteq> []" "length bs \<le> n" using rd_Read_SomeD(2,3) [of n r bs r'] by auto
  with \<open>n \<noteq> 0\<close> show "((n - length bs, r'), n, r) \<in> measure fst" by (cases bs) auto
qed simp

declare read_full.simps [simp del]

lemma read_full_spec:
  "n \<le> length (rd_contents r) \<Longrightarrow>
   \<exists>r'. read_full n r = (Some (take n (rd_contents r)), r') \<and> rd_contents r' = drop n (rd_contents r)"
proof (induction n r rule: read_full.induct)
  case (1 n r)
  show ?case
  proof (cases "n = 0")
    case True
    then show ?thesis by (simp add: read_full.simps)
  next
    case False
    then obtain bs r' where rd: "rd_Read n r = (Some bs, r')"
      using "1.prems" rd_Read_NoneD [of n r] by (cases "rd_Read n r", cases "fst (rd_Read n r)") auto
    note D = rd_Read_SomeD [OF rd]
    then have "n - length bs \<le> length (rd_contents r')" using "1.prems" by simp
    with "1.IH" [OF False rd [symmetric] refl]
    obtain r'' where "read_full (n - length bs) r' = (Some (take (n - length bs) (rd_contents r')), r'')"
      and "rd_contents r'' = drop (n - length bs) (rd_contents r')" by auto
    with False rd D(1,2) show ?thesis by (simp add: read_full.simps [of n])
  qed
qed

lemma read_full_short: "length (rd_contents r) < n \<Longrightarrow> fst (read_full n r) = None"
proof (induction n r rule: read_full.induct)
  case (1 n r)
  then have n: "n \<noteq> 0" by simp
  show ?case
  proof (cases "rd_Read n r")
    case (Pair x r')
    show ?thesis
    proof (cases x)
      case None
      with n Pair show ?thesis by (simp add: read_full.simps [of n])
    next
      case (Some bs)
      note D = rd_Read_SomeD [of n r bs r']
      have "fst (read_full (n - length bs) r') = None"
        using "1.IH" [OF n Pair [symmetric] Some] "1.prems" D Pair Some n by auto
      with n Pair Some show ?thesis
        by (cases "read_full (n - length bs) r'") (simp add: read_full.simps [of n])
    qed
  qed
qed

section \<open>Loading\<close>

record trunker_Store =
  ts_InfoHash :: string
  ts_Peer :: trunker_Peer

text \<open>
  \<open>fr_Encode\<close> and \<open>fr_Decode\<close> are \<^verbatim>\<open>frugal.EncodeObject\<close> and \<^verbatim>\<open>frugal.DecodeObject\<close>, \<open>zs_DecompressInto n\<close>
  is \<^verbatim>\<open>zstd.DecompressInto\<close> with a destination of length \<open>n\<close>.
\<close>

record persist_codec =
  fr_Encode :: "trunker_Store \<Rightarrow> bytes result"
  fr_Decode :: "bytes \<Rightarrow> trunker_Store result"
  zs_Compress :: "bytes \<Rightarrow> bytes result"
  zs_DecompressInto :: "nat \<Rightarrow> bytes \<Rightarrow> bytes result"

datatype 'a io_step = Panicked error | Stopped | Went 'a

definition overwrite :: "bytes \<Rightarrow> bytes \<Rightarrow> bytes" where
  "overwrite xs ys = ys @ drop (length ys) xs"

text \<open>
  The loop that reads the rest of a frame. \<open>dat\<close> and \<open>raminBuf\<close> are the backing arrays, \<open>len\<close> the length
  that the slice \<^verbatim>\<open>data\<close> has. Each round appends the whole slice \<^verbatim>\<open>raminBuf\<close> to the bytes of the first read.
\<close>

function read_more ::
  "nat \<Rightarrow> nat \<Rightarrow> bytes \<Rightarrow> nat \<Rightarrow> bytes \<Rightarrow> reader \<Rightarrow> (bytes \<times> nat \<times> bytes \<times> reader) io_step" where
  "read_more remain readCount dat len raminBuf r =
     (if remain = 0 then Went (dat, len, raminBuf, r)
      else if remain > length raminBuf then Panicked ''slice bounds out of range''
      else case rd_Read remain r of
        (None, r') \<Rightarrow> Stopped
      | (Some bs, r') \<Rightarrow>
          (let raminBuf' = overwrite raminBuf bs;
               dat' = overwrite dat (take readCount dat @ take remain raminBuf')
           in read_more (remain - length bs) readCount dat' (readCount + remain) raminBuf' r'))"
  by pat_completeness auto
termination
proof (relation "measure fst")
  fix remain readCount len :: nat and dat raminBuf r x r' bs and rb :: bytes and dt :: bytes
  assume "remain \<noteq> 0" "(x, r') = rd_Read remain r" "x = Some bs"
  then have "bs \<noteq> []" "length bs \<le> remain" using rd_Read_SomeD(2,3) [of remain r bs r'] by auto
  with \<open>remain \<noteq> 0\<close> show "((remain - length bs, readCount, dt, readCount + remain, rb, r'),
      remain, readCount, dat, len, raminBuf, r) \<in> measure fst" by (cases bs) auto
qed simp

declare read_more.simps [simp del]

text \<open>The next frame: its length, then its bytes.\<close>

definition read_record ::
  "reader \<times> bytes \<times> bytes \<Rightarrow> (bytes \<times> reader \<times> bytes \<times> bytes) io_step" where
  "read_record bufs =
     (case bufs of (r, dat, raminBuf) \<Rightarrow>
       (case read_full 4 r of
          (None, r') \<Rightarrow> Stopped
        | (Some b, r') \<Rightarrow>
            (let size = unat (get_le32 b) in
             if size = 0 then Stopped
             else if size > length dat then Panicked ''slice bounds out of range''
             else case rd_Read size r' of
               (None, r'') \<Rightarrow> Stopped
             | (Some bs, r'') \<Rightarrow>
                 (let readCount = length bs; dat' = overwrite dat bs in
                  if readCount = size then Went (take size dat', r'', dat', raminBuf)
                  else case read_more (size - readCount) readCount dat' size raminBuf r'' of
                    Panicked e \<Rightarrow> Panicked e
                  | Stopped \<Rightarrow> Stopped
                  | Went (dat'', len, raminBuf', r3) \<Rightarrow> Went (take len dat'', r3, dat'', raminBuf')))))"

text \<open>What the file system, the clock and the pool give for one file.\<close>

record persist_file =
  pf_name :: string
  pf_lock :: "bool result"
  pf_open :: "bytes result"
  pf_now :: gotime
  pf_later :: gotime
  pf_data :: bytes
  pf_raminBuf :: bytes

text \<open>The decompression buffer has the length that the pool was asked for.\<close>

definition decompressLen :: nat where
  "decompressLen = 400"

definition load_peer ::
  "persist_codec \<Rightarrow> ('rm, 'pm) maps \<Rightarrow> Config \<Rightarrow> persist_file \<Rightarrow> bytes \<Rightarrow>
   ('rm, 'pm, 'f, 'i) MuxLocalManager \<times> int \<times> int \<Rightarrow> (('rm, 'pm, 'f, 'i) MuxLocalManager \<times> int \<times> int) io_step" where
  "load_peer C D cfg f rec st =
     (case st of (m, count, expired) \<Rightarrow>
       (case zs_DecompressInto C decompressLen rec of
          Inl e \<Rightarrow> Stopped
        | Inr raw \<Rightarrow>
            (case fr_Decode C raw of
               Inl e \<Rightarrow> Stopped
             | Inr pbStruct \<Rightarrow>
                 (let lastSeen = of_Unix (tp_LastSeen (ts_Peer pbStruct)) in
                  if time_Add lastSeen (duration_seconds (t_TTL (c_Tracker cfg))) < pf_now f
                  then Went (m, count, expired + 1)
                  else case pickWorker m (UnsafeStringToBytes (ts_InfoHash pbStruct)) of
                    Inl e \<Rightarrow> Panicked e
                  | Inr i \<Rightarrow>
                      Went (put_worker i (DirectStore D (pf_later f) (ts_InfoHash pbStruct)
                              (PeerIDLToCommon (ts_Peer pbStruct)) (worker i m)) m, count + 1, expired)))))"

lemma read_record_consumes:
  assumes "read_record (r, dat, rb) = Went (rec, r', dat', rb')"
  shows "5 + length (rd_contents r') \<le> length (rd_contents r)"
proof -
  have more: "length (rd_contents r3) \<le> length (rd_contents r0)"
    if "read_more n rc d l b r0 = Went (d', l', b', r3)" for n rc d l b r0 d' l' b' r3
    using that
  proof (induction n rc d l b r0 rule: read_more.induct)
    case (1 n rc d l b r0)
    show ?case
    proof (cases "n = 0")
      case True
      then show ?thesis using "1.prems" by (simp add: read_more.simps)
    next
      case False
      then obtain bs r1 where rd: "rd_Read n r0 = (Some bs, r1)" and b: "\<not> n > length b"
        using "1.prems" by (subst (asm) read_more.simps) (auto split: if_splits prod.splits option.splits)
      have "length (rd_contents r3) \<le> length (rd_contents r1)"
        using "1.prems" False rd b
        by (intro "1.IH" [OF False b rd [symmetric] refl refl refl])
          (subst (asm) read_more.simps, simp add: Let_def)
      with rd_Read_SomeD(1) [OF rd] show ?thesis by simp
    qed
  qed
  obtain b r1 where rf: "read_full 4 r = (Some b, r1)"
    using assms by (auto simp: read_record_def split: prod.splits option.splits)
  then have len: "4 \<le> length (rd_contents r)" using read_full_short [of r 4] by fastforce
  have r1: "length (rd_contents r1) = length (rd_contents r) - 4" using read_full_spec [OF len] rf by auto
  let ?size = "unat (get_le32 b)"
  from assms rf obtain bs r2 where rd: "rd_Read ?size r1 = (Some bs, r2)" and pos: "0 < ?size"
    and "r' = r2 \<or> (\<exists>n rc d l b' d' l' b''. read_more n rc d l b' r2 = Went (d', l', b'', r'))"
    by (auto simp: read_record_def Let_def split: if_splits option.splits prod.splits io_step.splits) blast
  then have "length (rd_contents r') \<le> length (rd_contents r2)" using more by fastforce
  moreover have "rd_contents r1 = bs @ rd_contents r2" "bs \<noteq> []" using rd_Read_SomeD [OF rd] pos by auto
  ultimately have "Suc (length (rd_contents r')) \<le> length (rd_contents r1)" by (cases bs) auto
  with r1 len show ?thesis by linarith
qed

function load_loop ::
  "persist_codec \<Rightarrow> ('rm, 'pm) maps \<Rightarrow> Config \<Rightarrow> persist_file \<Rightarrow> reader \<times> bytes \<times> bytes \<Rightarrow>
   ('rm, 'pm, 'f, 'i) MuxLocalManager \<times> int \<times> int \<Rightarrow> (('rm, 'pm, 'f, 'i) MuxLocalManager \<times> int \<times> int) result" where
  "load_loop C D cfg f bufs st =
     (case read_record bufs of
        Panicked e \<Rightarrow> Inl e
      | Stopped \<Rightarrow> Inr st
      | Went (rec, bufs') \<Rightarrow>
          (case load_peer C D cfg f rec st of
             Panicked e \<Rightarrow> Inl e
           | Stopped \<Rightarrow> Inr st
           | Went st' \<Rightarrow> load_loop C D cfg f bufs' st'))"
  by pat_completeness auto
termination
  by (relation "measure (\<lambda>(C, D, cfg, f, bufs, st). length (rd_contents (fst bufs)))")
    (auto dest: read_record_consumes)

declare load_loop.simps [simp del]

definition load_file ::
  "persist_codec \<Rightarrow> ('rm, 'pm) maps \<Rightarrow> Config \<Rightarrow> persist_file \<Rightarrow>
   ('rm, 'pm, 'f, 'i) MuxLocalManager \<times> int \<times> int \<Rightarrow> (('rm, 'pm, 'f, 'i) MuxLocalManager \<times> int \<times> int) result" where
  "load_file C D cfg f st =
     (case pf_lock f of
        Inl e \<Rightarrow> Inr st
      | Inr ok \<Rightarrow>
          if \<not> ok then Inr st
          else (case pf_open f of
             Inl e \<Rightarrow> Inr st
           | Inr file \<Rightarrow> load_loop C D cfg f (NewReader file, pf_data f, pf_raminBuf f) st))"

fun load_files ::
  "persist_codec \<Rightarrow> ('rm, 'pm) maps \<Rightarrow> Config \<Rightarrow> persist_file list \<Rightarrow>
   ('rm, 'pm, 'f, 'i) MuxLocalManager \<times> int \<times> int \<Rightarrow> (('rm, 'pm, 'f, 'i) MuxLocalManager \<times> int \<times> int) result" where
  "load_files C D cfg [] st = Inr st"
| "load_files C D cfg (f # fs) st =
     (case load_file C D cfg f st of Inl e \<Rightarrow> Inl e | Inr st' \<Rightarrow> load_files C D cfg fs st')"

text \<open>
  The result beside the manager: the names of the files that are removed, all of those found. A panic
  of a goroutine ends the program.
\<close>

definition LoadFromPersist ::
  "persist_codec \<Rightarrow> ('rm, 'pm) maps \<Rightarrow> Config \<Rightarrow> persist_file list \<Rightarrow> ('rm, 'pm, 'f, 'i) MuxLocalManager \<Rightarrow>
   (('rm, 'pm, 'f, 'i) MuxLocalManager \<times> string list) result" where
  "LoadFromPersist C D cfg files m =
     (if \<not> mem_EnablePersist (t_Memory (c_Tracker cfg)) then Inr (m, [])
      else case load_files C D cfg files (m, 0, 0) of
        Inl e \<Rightarrow> Inl e
      | Inr (m', count, expired) \<Rightarrow> Inr (m', map pf_name files))"

section \<open>Storing\<close>

definition store_step ::
  "persist_codec \<Rightarrow> string \<Rightarrow> bytes \<times> int \<Rightarrow> string \<times> Peer \<Rightarrow> (bytes \<times> int) \<times> bool" where
  "store_step C ih st kv =
     (case (st, kv) of
        ((out, count), (key, value)) \<Rightarrow>
          (case fr_Encode C \<lparr>ts_InfoHash = ih, ts_Peer = PeerCommonToIDL value\<rparr> of
             Inl e \<Rightarrow> ((out, count), True)
           | Inr dat \<Rightarrow>
               (case zs_Compress C dat of
                  Inl e \<Rightarrow> ((out, count), False)
                | Inr c \<Rightarrow> ((out @ put_le32 (of_nat (length c)) @ c, count + 1), True))))"

definition store_shard ::
  "persist_codec \<Rightarrow> ('rm, 'pm) maps \<Rightarrow> ('rm, 'pm) Manager \<Rightarrow> int \<Rightarrow> bytes \<times> int" where
  "store_shard C D w count =
     RangeMap D (\<lambda>st (ih, ptr). (Root_Range (peerOps D) (store_step C ih) (heap w ptr) st, True)) w ([], count)"

text \<open>
  Creating the directory may fail, and per shard the pool may drop the task (after another one has
  failed), and the lock or the opening of the file may fail.
\<close>

record store_env =
  se_mkdir :: "error option"
  se_run :: "nat \<Rightarrow> bool"
  se_lock :: "nat \<Rightarrow> error option"
  se_open :: "nat \<Rightarrow> error option"

definition persist_fileName :: "Config \<Rightarrow> nat \<Rightarrow> string" where
  "persist_fileName cfg i = mem_PersistFile (t_Memory (c_Tracker cfg)) @ ''.'' @ Itoa (int i)"

definition StoreToPersist ::
  "persist_codec \<Rightarrow> ('rm, 'pm) maps \<Rightarrow> Config \<Rightarrow> store_env \<Rightarrow> ('rm, 'pm, 'f, 'i) MuxLocalManager \<Rightarrow>
   (string \<times> bytes) list" where
  "StoreToPersist C D cfg env m =
     (if \<not> mem_EnablePersist (t_Memory (c_Tracker cfg)) \<or> se_mkdir env \<noteq> None then []
      else [(persist_fileName cfg i, fst (store_shard C D (worker i m) 0)).
              i \<leftarrow> [0..<length (localList m)], se_run env i \<and> se_lock env i = None \<and> se_open env i = None])"

end
