(* ===== verification/Peer_Manager.thy ===== *)
theory Peer_Manager
  imports Persist
begin

text \<open>
  The interface \<^verbatim>\<open>PeerManager\<close> of \<^verbatim>\<open>biz/services/peer/manager.go\<close>, through which the front ends reach
  whichever manager is configured: a record of methods over a state \<open>'s\<close>. A method that asks the
  outside world (the clock, the scheduler, the file system, a remote server) gets the answers as an
  argument \<open>'e\<close>. \<open>pm_LoadFromPersist\<close> may panic, \<open>pm_StoreToPersist\<close> returns the files it writes. The
  sharded in-memory manager is one implementation.
\<close>

record ('e, 's) PeerManager =
  pm_HandleAnnouncePeer :: "'e \<Rightarrow> AnnounceRequest \<Rightarrow> 's \<Rightarrow> Peer list result \<times> 's"
  pm_Scrape :: "'e \<Rightarrow> string \<Rightarrow> 's \<Rightarrow> ScrapeFile result \<times> 's"
  pm_Clean :: "'e \<Rightarrow> 's \<Rightarrow> int \<times> 's"
  pm_LoadFromPersist :: "'e \<Rightarrow> 's \<Rightarrow> 's result"
  pm_StoreToPersist :: "'e \<Rightarrow> 's \<Rightarrow> (string \<times> bytes) list"
  pm_GetStatistic :: "'e \<Rightarrow> 's \<Rightarrow> StatisticInfo result"
  pm_BanInfoHash :: "'e \<Rightarrow> string \<Rightarrow> 's \<Rightarrow> unit result \<times> 's"
  pm_BanPeer :: "'e \<Rightarrow> string \<Rightarrow> 's \<Rightarrow> unit result \<times> 's"
  pm_ClearBanInfoHash :: "'e \<Rightarrow> 's \<Rightarrow> 's"
  pm_ClearBanPeer :: "'e \<Rightarrow> 's \<Rightarrow> 's"
  pm_GetPeers :: "'e \<Rightarrow> string \<Rightarrow> 's \<Rightarrow> Peer list result"
  pm_DeleteInfoHash :: "'e \<Rightarrow> string \<Rightarrow> 's \<Rightarrow> unit result \<times> 's"
  pm_BanIP :: "'e \<Rightarrow> string \<Rightarrow> 's \<Rightarrow> unit result \<times> 's"
  pm_UnbanIP :: "'e \<Rightarrow> string \<Rightarrow> 's \<Rightarrow> unit result \<times> 's"
  pm_ClearBanIP :: "'e \<Rightarrow> 's \<Rightarrow> unit result \<times> 's"
  pm_GetIPFilterStats :: "'e \<Rightarrow> 's \<Rightarrow> IPFilterStats option"

text \<open>What a call of the in-memory manager asks of the outside.\<close>

record mux_env =
  me_announce :: announce_env
  me_now :: gotime
  me_io :: ban_io
  me_files :: "persist_file list"
  me_store :: store_env

definition mux_PeerManager ::
  "('rm, 'pm) maps \<Rightarrow> 'f bloom \<Rightarrow> 'i IPFilter \<Rightarrow> Config \<Rightarrow> 'c RedisClient \<Rightarrow> ScrapeFile Codec \<Rightarrow> persist_codec \<Rightarrow>
   (mux_env, ('rm, 'pm, 'f, 'i) MuxLocalManager \<times> 'c) PeerManager" where
  "mux_PeerManager D B F cfg Client codec C = \<lparr>
     pm_HandleAnnouncePeer = (\<lambda>e req (m, c). apsnd (\<lambda>m. (m, c)) (mux_HandleAnnouncePeer D B F cfg (me_announce e) req m)),
     pm_Scrape = (\<lambda>e ih s. mux_Scrape D cfg Client codec (me_now e) ih s),
     pm_Clean = (\<lambda>e (m, c). apsnd (\<lambda>m. (m, c)) (mux_Clean D cfg (me_now e) m)),
     pm_LoadFromPersist = (\<lambda>e (m, c). case LoadFromPersist C D cfg (me_files e) m of
       Inl err \<Rightarrow> Inl err | Inr (m, _) \<Rightarrow> Inr (m, c)),
     pm_StoreToPersist = (\<lambda>e (m, c). StoreToPersist C D cfg (me_store e) m),
     pm_GetStatistic = (\<lambda>e (m, c). Inr (mux_GetStatistic D m)),
     pm_BanInfoHash = (\<lambda>e ih (m, c). apsnd (\<lambda>m. (m, c)) (mux_BanInfoHash D B (me_io e) ih m)),
     pm_BanPeer = (\<lambda>e peerID (m, c). apsnd (\<lambda>m. (m, c)) (mux_BanPeer B (me_io e) peerID m)),
     pm_ClearBanInfoHash = (\<lambda>e (m, c). (mux_ClearBanInfoHash B (me_io e) m, c)),
     pm_ClearBanPeer = (\<lambda>e (m, c). (mux_ClearBanPeer B (me_io e) m, c)),
     pm_GetPeers = (\<lambda>e ih (m, c). mux_GetPeers D ih m),
     pm_DeleteInfoHash = (\<lambda>e ih (m, c). apsnd (\<lambda>m. (m, c)) (mux_DeleteInfoHash D ih m)),
     pm_BanIP = (\<lambda>e ip (m, c). apsnd (\<lambda>m. (m, c)) (mux_BanIP F ip m)),
     pm_UnbanIP = (\<lambda>e ip (m, c). apsnd (\<lambda>m. (m, c)) (mux_UnbanIP F ip m)),
     pm_ClearBanIP = (\<lambda>e (m, c). apsnd (\<lambda>m. (m, c)) (mux_ClearBanIP F m)),
     pm_GetIPFilterStats = (\<lambda>e (m, c). Some (mux_GetIPFilterStats F m))\<rparr>"

text \<open>Which manager a configuration asks for; any other mode is a panic.\<close>

datatype manager_kind = MemoryManager int | DatabaseManager | RpcManager string

definition InitPeerManager :: "Config \<Rightarrow> manager_kind result" where
  "InitPeerManager cfg =
     (let t = c_Tracker cfg in
      if t_Mode t = RunningModeMemory then Inr (MemoryManager (mem_Shard (t_Memory t)))
      else if t_Mode t = RunningModeDB then Inr DatabaseManager
      else if t_Mode t = RunningModeRPC then Inr (RpcManager (rpc_RemoteServer (t_RPC t)))
      else Inl ''unknown tracker mode'')"

end
