(* ===== verification/Fast_Bencode.thy ===== *)
theory Fast_Bencode
  imports Model "HOL-Library.Sublist"
begin

text \<open>
  The hand-written bencode encoders of \<^verbatim>\<open>biz/model/fast_bencode.go\<close>, which replace a generic
  bencode library on the hot path, and a reference: bencoded values, their canonical encoding and
  a decoder. The fast encoders are shown equal to the reference encoding of the response's
  dictionary, with its keys in the ascending order bencode requires, and hence readable back.
  Writing to an \<^verbatim>\<open>io.Writer\<close> appends to the bytes written so far.
\<close>

section \<open>The encoders of the source\<close>

definition writeString :: "bytes \<Rightarrow> string \<Rightarrow> bytes" where
  "writeString w s =
     w @ UnsafeStringToBytes (Itoa (int (length s))) @ UnsafeStringToBytes '':'' @ UnsafeStringToBytes s"

definition writeBytes :: "bytes \<Rightarrow> bytes \<Rightarrow> bytes" where
  "writeBytes w s =
     w @ UnsafeStringToBytes (Itoa (int (length s))) @ UnsafeStringToBytes '':'' @ s"

definition writeInt :: "bytes \<Rightarrow> int \<Rightarrow> bytes" where
  "writeInt w i =
     w @ UnsafeStringToBytes ''i'' @ UnsafeStringToBytes (Itoa i) @ UnsafeStringToBytes ''e''"

definition ErrorResponse_Bencode :: "ErrorResponse \<Rightarrow> bytes \<Rightarrow> bytes" where
  "ErrorResponse_Bencode e w =
     (let w = w @ UnsafeStringToBytes ''d14:failure reason'';
          w = writeString w (er_FailureReason e);
          w = w @ UnsafeStringToBytes ''8:retry in'';
          w = writeString w (er_Retry e);
          w = (if length (er_TrackerId e) > 0
               then writeString (w @ UnsafeStringToBytes ''10:tracker id'') (er_TrackerId e) else w)
      in w @ UnsafeStringToBytes ''e'')"

definition AnnounceCompactResponse_Bencode :: "AnnounceCompactResponse \<Rightarrow> bytes \<Rightarrow> bytes" where
  "AnnounceCompactResponse_Bencode a w =
     (let w = w @ UnsafeStringToBytes ''d8:complete'';
          w = writeInt w (ac_Complete a);
          w = w @ UnsafeStringToBytes ''11:external ip'';
          w = writeString w (ac_ExternalIp a);
          w = w @ UnsafeStringToBytes ''10:incomplete'';
          w = writeInt w (ac_Incomplete a);
          w = w @ UnsafeStringToBytes ''8:interval'';
          w = writeInt w (sint (ac_Interval a));
          w = w @ UnsafeStringToBytes ''5:peers'';
          w = writeBytes w (ac_Peers a);
          w = (if length (ac_Peers6 a) > 0
               then writeBytes (w @ UnsafeStringToBytes ''6:peers6'') (ac_Peers6 a) else w);
          w = (if length (ac_TrackerId a) > 0
               then writeString (w @ UnsafeStringToBytes ''10:tracker id'') (ac_TrackerId a) else w)
      in w @ UnsafeStringToBytes ''e'')"

section \<open>Bencoded values\<close>

datatype bval = BInt int | BStr bytes | BList "bval list" | BDict "(bytes \<times> bval) list"

abbreviation B :: "string \<Rightarrow> bytes" where
  "B \<equiv> UnsafeStringToBytes"

definition bstring :: "bytes \<Rightarrow> bytes" where
  "bstring s = B (dec_string (length s)) @ B '':'' @ s"

fun bencode :: "bval \<Rightarrow> bytes" where
  "bencode (BInt i) = B ''i'' @ B (Itoa i) @ B ''e''"
| "bencode (BStr s) = bstring s"
| "bencode (BList vs) = B ''l'' @ concat (map bencode vs) @ B ''e''"
| "bencode (BDict kvs) =
     B ''d'' @ concat (map (\<lambda>(k, v). bstring k @ bencode v) kvs) @ B ''e''"

section \<open>A decoder\<close>

definition byte_of :: "char \<Rightarrow> byte" where
  "byte_of c = of_nat (of_char c)"

definition digit_byte :: "byte \<Rightarrow> bool" where
  "digit_byte b \<longleftrightarrow> is_digit (char_of (unat b))"

definition take_digits :: "bytes \<Rightarrow> nat \<times> bytes" where
  "take_digits bs =
     (dec_val (UnsafeBytesToString (takeWhile digit_byte bs)), dropWhile digit_byte bs)"

definition decode_str :: "bytes \<Rightarrow> (bytes \<times> bytes) option" where
  "decode_str bs =
     (case take_digits bs of
        (n, r) \<Rightarrow>
          (case r of
             [] \<Rightarrow> None
           | c # r' \<Rightarrow>
               if takeWhile digit_byte bs \<noteq> [] \<and> c = byte_of (CHR '':'') \<and> n \<le> length r'
               then Some (take n r', drop n r') else None))"

definition decode_int :: "bytes \<Rightarrow> (int \<times> bytes) option" where
  "decode_int bs =
     (let neg = (bs \<noteq> [] \<and> hd bs = byte_of (CHR ''-'')); ds = (if neg then tl bs else bs) in
      case take_digits ds of
        (n, r) \<Rightarrow>
          (case r of
             [] \<Rightarrow> None
           | c # r' \<Rightarrow>
               if takeWhile digit_byte ds \<noteq> [] \<and> c = byte_of (CHR ''e'')
               then Some (if neg then - int n else int n, r') else None))"

text \<open>
  The nesting is bounded by the fuel; the lemma \<open>bdecode_bencode\<close> below shows that the size of the
  value is enough.
\<close>

fun bdecode :: "nat \<Rightarrow> bytes \<Rightarrow> (bval \<times> bytes) option"
and bdecode_list :: "nat \<Rightarrow> bytes \<Rightarrow> (bval list \<times> bytes) option"
and bdecode_dict :: "nat \<Rightarrow> bytes \<Rightarrow> ((bytes \<times> bval) list \<times> bytes) option" where
  "bdecode 0 bs = None"
| "bdecode (Suc n) [] = None"
| "bdecode (Suc n) (b # bs) =
     (if b = byte_of (CHR ''i'') then map_option (\<lambda>(i, r). (BInt i, r)) (decode_int bs)
      else if b = byte_of (CHR ''l'') then map_option (\<lambda>(vs, r). (BList vs, r)) (bdecode_list n bs)
      else if b = byte_of (CHR ''d'') then map_option (\<lambda>(kvs, r). (BDict kvs, r)) (bdecode_dict n bs)
      else map_option (\<lambda>(s, r). (BStr s, r)) (decode_str (b # bs)))"
| "bdecode_list 0 bs = None"
| "bdecode_list (Suc n) [] = None"
| "bdecode_list (Suc n) (b # bs) =
     (if b = byte_of (CHR ''e'') then Some ([], bs)
      else case bdecode n (b # bs) of
             None \<Rightarrow> None
           | Some (v, r) \<Rightarrow> map_option (\<lambda>(vs, r'). (v # vs, r')) (bdecode_list n r))"
| "bdecode_dict 0 bs = None"
| "bdecode_dict (Suc n) [] = None"
| "bdecode_dict (Suc n) (b # bs) =
     (if b = byte_of (CHR ''e'') then Some ([], bs)
      else case decode_str (b # bs) of
             None \<Rightarrow> None
           | Some (k, r) \<Rightarrow>
               (case bdecode n r of
                  None \<Rightarrow> None
                | Some (v, r') \<Rightarrow> map_option (\<lambda>(kvs, r''). ((k, v) # kvs, r'')) (bdecode_dict n r')))"

section \<open>The decoder inverts the encoder\<close>

lemma B_chars [simp]: "B [] = []" "B (c # s) = byte_of c # B s"
  by (simp_all add: UnsafeStringToBytes_def byte_of_def)

lemma byte_of_eq [simp]: "byte_of a = byte_of b \<longleftrightarrow> a = b"
  by (metis byte_of_def char_of_of_byte)

lemma digit_byte_of [simp]: "digit_byte (byte_of c) = is_digit c"
  by (simp add: digit_byte_def byte_of_def)

lemma not_digit_marks [simp]:
  "\<not> is_digit (CHR '':'')" "\<not> is_digit (CHR ''e'')" "\<not> is_digit (CHR ''i'')"
  "\<not> is_digit (CHR ''l'')" "\<not> is_digit (CHR ''d'')" "\<not> is_digit (CHR ''-'')"
  by (simp_all add: is_digit_def)

lemma takeWhile_digits:
  "list_all is_digit s \<Longrightarrow> \<not> is_digit c \<Longrightarrow>
     takeWhile digit_byte (B s @ byte_of c # r) = B s \<and> dropWhile digit_byte (B s @ byte_of c # r) = byte_of c # r"
  by (induction s) auto

lemma take_digits_dec_string:
  "\<not> is_digit c \<Longrightarrow> take_digits (B (dec_string n) @ byte_of c # r) = (n, byte_of c # r)"
  using takeWhile_digits [OF dec_string_digits, of c n r] by (simp add: take_digits_def)

lemma B_dec_string_nonempty [simp]: "B (dec_string n) \<noteq> []"
  by (metis dec_string_nonempty length_0_conv length_string_bytes(1))

lemma decode_str_bstring [simp]: "decode_str (bstring s @ r) = Some (s, r)"
  using takeWhile_digits [OF dec_string_digits, of "CHR '':''" "length s" "s @ r"]
  by (simp add: bstring_def decode_str_def take_digits_def)

lemma dec_string_Cons: obtains c s where "dec_string n = c # s" "is_digit c"
  using dec_string_digits [of n] by (cases "dec_string n") auto

lemma decode_int_Itoa [simp]: "decode_int (B (Itoa i) @ byte_of (CHR ''e'') # r) = Some (i, r)"
proof -
  obtain c s where c: "dec_string (nat i) = c # s" "is_digit c" by (rule dec_string_Cons)
  have tw: "takeWhile digit_byte (B (dec_string n) @ byte_of (CHR ''e'') # r) = B (dec_string n)" for n
    using takeWhile_digits [OF dec_string_digits, of "CHR ''e''" n r] by simp
  show ?thesis
  proof (cases "i < 0")
    case True
    then show ?thesis by (simp add: decode_int_def Itoa_def take_digits_dec_string tw)
  next
    case False
    moreover from c have "c \<noteq> CHR ''-''" by auto
    ultimately show ?thesis
      using tw [of "nat i"] take_digits_dec_string [of "CHR ''e''" "nat i" r]
      by (simp add: decode_int_def Itoa_def c)
  qed
qed

lemma bstring_Cons: obtains b bs where "bstring s = b # bs" "digit_byte b"
proof -
  obtain c t where "dec_string (length s) = c # t" "is_digit c" by (rule dec_string_Cons)
  then show ?thesis using that by (simp add: bstring_def)
qed

lemma bencode_Cons:
  obtains b bs where "bencode v = b # bs" "b \<noteq> byte_of (CHR ''e'')"
proof (cases v)
  case (BStr s)
  obtain b bs where "bstring s = b # bs" "digit_byte b" by (rule bstring_Cons)
  moreover from this have "b \<noteq> byte_of (CHR ''e'')" by auto
  ultimately show ?thesis using BStr that by simp
qed (use that in auto)

text \<open>The fuel a value needs: one unit per level, and one per entry of a list or dictionary.\<close>

fun fuel_of :: "bval \<Rightarrow> nat" where
  "fuel_of (BInt i) = 1"
| "fuel_of (BStr s) = 1"
| "fuel_of (BList vs) = Suc (foldr (\<lambda>v n. Suc (max (fuel_of v) n)) vs 1)"
| "fuel_of (BDict kvs) = Suc (foldr (\<lambda>kv n. Suc (max (fuel_of (snd kv)) n)) kvs 1)"

lemma bdecode_list_bencode:
  assumes "\<And>v n r. v \<in> set vs \<Longrightarrow> fuel_of v \<le> n \<Longrightarrow> bdecode n (bencode v @ r) = Some (v, r)"
    and "foldr (\<lambda>v n. Suc (max (fuel_of v) n)) vs 1 \<le> n"
  shows "bdecode_list n (concat (map bencode vs) @ byte_of (CHR ''e'') # r) = Some (vs, r)"
  using assms
proof (induction vs arbitrary: n)
  case Nil
  then show ?case by (cases n) auto
next
  case (Cons v vs)
  then obtain m where n: "n = Suc m" by (cases n) auto
  with Cons.prems(2) have fv: "fuel_of v \<le> m"
    and fr: "foldr (\<lambda>v n. Suc (max (fuel_of v) n)) vs 1 \<le> m" by auto
  have rest: "bdecode_list m (concat (map bencode vs) @ byte_of (CHR ''e'') # r) = Some (vs, r)"
    by (rule Cons.IH) (use Cons.prems(1) fr in auto)
  obtain b bs where b: "bencode v = b # bs" "b \<noteq> byte_of (CHR ''e'')" by (rule bencode_Cons)
  have "bdecode m (bencode v @ concat (map bencode vs) @ byte_of (CHR ''e'') # r) =
      Some (v, concat (map bencode vs) @ byte_of (CHR ''e'') # r)"
    by (rule Cons.prems(1)) (use fv in auto)
  with b rest show ?case by (simp add: n)
qed

lemma bdecode_dict_bencode:
  assumes "\<And>kv n r. kv \<in> set kvs \<Longrightarrow> fuel_of (snd kv) \<le> n \<Longrightarrow>
      bdecode n (bencode (snd kv) @ r) = Some (snd kv, r)"
    and "foldr (\<lambda>kv n. Suc (max (fuel_of (snd kv)) n)) kvs 1 \<le> n"
  shows "bdecode_dict n (concat (map (\<lambda>(k, v). bstring k @ bencode v) kvs) @ byte_of (CHR ''e'') # r) =
    Some (kvs, r)"
  using assms
proof (induction kvs arbitrary: n)
  case Nil
  then show ?case by (cases n) auto
next
  case (Cons kv kvs)
  obtain k v where kv: "kv = (k, v)" by (cases kv)
  from Cons.prems(2) obtain m where n: "n = Suc m" by (cases n) auto
  let ?rest = "concat (map (\<lambda>(k, v). bstring k @ bencode v) kvs) @ byte_of (CHR ''e'') # r"
  from Cons.prems(2) n have fv: "fuel_of v \<le> m"
    and fr: "foldr (\<lambda>kv n. Suc (max (fuel_of (snd kv)) n)) kvs 1 \<le> m" by (auto simp: kv)
  have rest: "bdecode_dict m ?rest = Some (kvs, r)"
    by (rule Cons.IH) (use Cons.prems(1) fr in auto)
  have val: "bdecode m (bencode v @ ?rest) = Some (v, ?rest)"
    using Cons.prems(1) [of kv m ?rest] fv by (simp add: kv)
  obtain b bs where b: "bstring k = b # bs" "digit_byte b" by (rule bstring_Cons)
  then have "b \<noteq> byte_of (CHR ''e'')" by auto
  moreover have "decode_str (b # bs @ bencode v @ ?rest) = Some (k, bencode v @ ?rest)"
    using decode_str_bstring [of k "bencode v @ ?rest"] by (simp add: b)
  ultimately show ?case using rest val by (simp add: n kv b)
qed

lemma bdecode_bencode: "fuel_of v \<le> n \<Longrightarrow> bdecode n (bencode v @ r) = Some (v, r)"
proof (induction v arbitrary: n r)
  case (BInt i)
  then show ?case by (cases n) auto
next
  case (BStr s)
  obtain b bs where b: "bstring s = b # bs" "digit_byte b" by (rule bstring_Cons)
  then have "b \<notin> {byte_of (CHR ''i''), byte_of (CHR ''l''), byte_of (CHR ''d'')}" by auto
  moreover have "decode_str (b # bs @ r) = Some (s, r)"
    using decode_str_bstring [of s r] by (simp add: b)
  ultimately show ?case using BStr by (cases n) (auto simp: b)
next
  case (BList vs)
  then show ?case by (cases n) (auto simp: bdecode_list_bencode)
next
  case (BDict kvs)
  have "bdecode m (bencode (snd kv) @ r) = Some (snd kv, r)"
    if "kv \<in> set kvs" "fuel_of (snd kv) \<le> m" for kv m r
    using BDict.IH [of kv "snd kv" m r] that by (cases kv) auto
  with BDict.prems show ?case by (cases n) (auto simp: bdecode_dict_bencode)
qed

lemma bencode_inject: "bencode u = bencode v \<Longrightarrow> u = v"
proof -
  assume "bencode u = bencode v"
  then have "bdecode (fuel_of u + fuel_of v) (bencode u @ []) =
      bdecode (fuel_of u + fuel_of v) (bencode v @ [])" by simp
  then show ?thesis by (simp add: bdecode_bencode del: append_Nil2)
qed

section \<open>The fast encoders against the reference\<close>

definition ErrorResponse_bval :: "ErrorResponse \<Rightarrow> bval" where
  "ErrorResponse_bval e = BDict
     ([(B ''failure reason'', BStr (B (er_FailureReason e))), (B ''retry in'', BStr (B (er_Retry e)))] @
      (if er_TrackerId e = [] then [] else [(B ''tracker id'', BStr (B (er_TrackerId e)))]))"

definition AnnounceCompactResponse_bval :: "AnnounceCompactResponse \<Rightarrow> bval" where
  "AnnounceCompactResponse_bval a = BDict
     ([(B ''complete'', BInt (ac_Complete a)),
       (B ''external ip'', BStr (B (ac_ExternalIp a))),
       (B ''incomplete'', BInt (ac_Incomplete a)),
       (B ''interval'', BInt (sint (ac_Interval a))),
       (B ''peers'', BStr (ac_Peers a))] @
      (if ac_Peers6 a = [] then [] else [(B ''peers6'', BStr (ac_Peers6 a))]) @
      (if ac_TrackerId a = [] then [] else [(B ''tracker id'', BStr (B (ac_TrackerId a)))]))"

text \<open>Bencode wants dictionary keys in strictly ascending order of their bytes.\<close>

fun bytes_less :: "bytes \<Rightarrow> bytes \<Rightarrow> bool" where
  "bytes_less _ [] = False"
| "bytes_less [] (b # bs) = True"
| "bytes_less (a # as) (b # bs) = (a < b \<or> a = b \<and> bytes_less as bs)"

fun canonical :: "bval \<Rightarrow> bool" where
  "canonical (BList vs) = list_all canonical vs"
| "canonical (BDict kvs) =
     (sorted_wrt bytes_less (map fst kvs) \<and> list_all (\<lambda>kv. canonical (snd kv)) kvs)"
| "canonical _ = True"

lemma Itoa_nat [simp]: "Itoa (int n) = dec_string n"
  by (simp add: Itoa_def)

lemma key_strings:
  "B ''d14:failure reason'' = B ''d'' @ bstring (B ''failure reason'')"
  "B ''8:retry in'' = bstring (B ''retry in'')"
  "B ''10:tracker id'' = bstring (B ''tracker id'')"
  "B ''d8:complete'' = B ''d'' @ bstring (B ''complete'')"
  "B ''11:external ip'' = bstring (B ''external ip'')"
  "B ''10:incomplete'' = bstring (B ''incomplete'')"
  "B ''8:interval'' = bstring (B ''interval'')"
  "B ''5:peers'' = bstring (B ''peers'')"
  "B ''6:peers6'' = bstring (B ''peers6'')"
  by code_simp+

lemma writeString_bstring: "writeString w s = w @ bstring (B s)"
  by (simp add: writeString_def bstring_def)

lemma writeBytes_bstring: "writeBytes w s = w @ bstring s"
  by (simp add: writeBytes_def bstring_def)

lemma writeInt_bencode: "writeInt w i = w @ bencode (BInt i)"
  by (simp add: writeInt_def)

lemma ErrorResponse_Bencode_bval:
  "ErrorResponse_Bencode e w = w @ bencode (ErrorResponse_bval e)"
  by (simp add: ErrorResponse_Bencode_def ErrorResponse_bval_def writeString_bstring Let_def
      key_strings del: B_chars)

lemma AnnounceCompactResponse_Bencode_bval:
  "AnnounceCompactResponse_Bencode a w = w @ bencode (AnnounceCompactResponse_bval a)"
  by (simp add: AnnounceCompactResponse_Bencode_def AnnounceCompactResponse_bval_def
      writeString_bstring writeBytes_bstring writeInt_bencode Let_def
      key_strings del: B_chars)

lemma canonical_ErrorResponse: "canonical (ErrorResponse_bval e)"
  by (simp add: ErrorResponse_bval_def byte_of_def)

lemma canonical_AnnounceCompactResponse: "canonical (AnnounceCompactResponse_bval a)"
  by (simp add: AnnounceCompactResponse_bval_def byte_of_def)

end
