(* ===== verification/Http_Server.thy ===== *)
theory Http_Server
  imports Peer_Manager Fast_Bencode
begin

text \<open>
  The HTTP front end: client addresses (\<^verbatim>\<open>utils/http/header.go\<close>), responses (\<^verbatim>\<open>utils/bencode\<close>,
  \<^verbatim>\<open>utils/http/resp.go\<close>) and the handlers of \<^verbatim>\<open>biz/handler/announce.go\<close>. What the web framework makes of a
  request is a record: the headers, the peer address it knows, the user agent and the outcome of
  binding the query to a struct. Cutting the user agent to 256 characters and the generic bencode
  encoder are library functions and parameters, as is the random jitter of the interval.
\<close>

section \<open>Requests\<close>

record http_context =
  hc_Header :: "string \<Rightarrow> string"
  hc_ClientIP :: string
  hc_UserAgent :: string

text \<open>
  \<^verbatim>\<open>strings.EqualFold\<close> with an ASCII text on one side: letters of either case, and the two characters
  outside ASCII that fold to an ASCII letter, in their UTF-8 form.
\<close>

fun fold_case :: "string \<Rightarrow> string" where
  "fold_case [] = []"
| "fold_case (c # s) =
     (if c = CHR 0xE2 \<and> take 2 s = [CHR 0x84, CHR 0xAA] then CHR ''k'' # fold_case (drop 2 s)
      else if c = CHR 0xC5 \<and> take 1 s = [CHR 0xBF] then CHR ''s'' # fold_case (drop 1 s)
      else (if 65 \<le> (of_char c :: nat) \<and> (of_char c :: nat) \<le> 90 then char_of (of_char c + 32 :: nat) else c) # fold_case s)"

definition EqualFold :: "string \<Rightarrow> string \<Rightarrow> bool" where
  "EqualFold s t \<longleftrightarrow> fold_case s = fold_case t"

fun first_ip :: "string list \<Rightarrow> IP" where
  "first_ip [] = None"
| "first_ip (ip # ips) = (case ParseIP ip of Some b \<Rightarrow> Some b | None \<Rightarrow> first_ip ips)"

definition ipHeader :: "string list" where
  "ipHeader = [''X-Forwarded-For'', ''X-Real-IP'']"

fun header_ip :: "http_context \<Rightarrow> string list \<Rightarrow> IP" where
  "header_ip c [] = None"
| "header_ip c (h # hs) =
     (case (if hc_Header c h = [] then None else first_ip (split_on CHR '','' (hc_Header c h))) of
        Some b \<Rightarrow> Some b
      | None \<Rightarrow> header_ip c hs)"

definition GetClientIP :: "http_context \<Rightarrow> IP" where
  "GetClientIP c =
     (case header_ip c ipHeader of
        Some b \<Rightarrow> Some b
      | None \<Rightarrow> if hc_ClientIP c = [] then None else ParseIP (hc_ClientIP c))"

section \<open>Responses\<close>

datatype render_data =
  RenderError ErrorResponse | RenderCompact AnnounceCompactResponse | RenderBasic AnnounceBasicResponse
| RenderScrape "(string \<times> ScrapeFile) list"

text \<open>\<^verbatim>\<open>BencodeRender.Render\<close>: the hand-written encoder where the type has one, the library otherwise.\<close>

definition Render :: "(render_data \<Rightarrow> bytes result) \<Rightarrow> render_data \<Rightarrow> bytes result" where
  "Render marshal d =
     (case d of
        RenderError e \<Rightarrow> Inr (ErrorResponse_Bencode e [])
      | RenderCompact a \<Rightarrow> Inr (AnnounceCompactResponse_Bencode a [])
      | _ \<Rightarrow> marshal d)"

record bencode_reply =
  br_Status :: int
  br_Data :: render_data

definition bencode_ResponseOk :: "render_data \<Rightarrow> bencode_reply" where
  "bencode_ResponseOk d = \<lparr>br_Status = 200, br_Data = d\<rparr>"

definition bencode_ResponseErr :: "Config \<Rightarrow> error \<Rightarrow> bencode_reply" where
  "bencode_ResponseErr cfg e = \<lparr>br_Status = 400, br_Data = RenderError
     \<lparr>er_FailureReason = e, er_Retry = ''never'', er_TrackerId = t_TrackerId (c_Tracker cfg)\<rparr>\<rparr>"

definition bencode_ResponseErrWithRetry :: "Config \<Rightarrow> error \<Rightarrow> bencode_reply" where
  "bencode_ResponseErrWithRetry cfg e = \<lparr>br_Status = 400, br_Data = RenderError
     \<lparr>er_FailureReason = e, er_Retry = ''600'', er_TrackerId = t_TrackerId (c_Tracker cfg)\<rparr>\<rparr>"

definition reply_body :: "(render_data \<Rightarrow> bytes result) \<Rightarrow> bencode_reply \<Rightarrow> bytes result" where
  "reply_body marshal r = Render marshal (br_Data r)"

datatype json_data =
  JNull | JString string | JPeers "Peer list" | JStatistic StatisticInfo | JFilterStats IPFilterStats

record commonResponse =
  cr_Code :: int
  cr_Message :: string
  cr_Data :: json_data

definition ResponseBadRequest :: commonResponse where
  "ResponseBadRequest = \<lparr>cr_Code = 400, cr_Message = ''Bad Request'', cr_Data = JNull\<rparr>"

definition ResponseErr :: "error \<Rightarrow> commonResponse" where
  "ResponseErr e = \<lparr>cr_Code = 500, cr_Message = e, cr_Data = JNull\<rparr>"

definition ResponseErrCustom :: "int \<Rightarrow> error \<Rightarrow> commonResponse" where
  "ResponseErrCustom code e = \<lparr>cr_Code = code, cr_Message = e, cr_Data = JNull\<rparr>"

definition ResponseUnauthorized :: commonResponse where
  "ResponseUnauthorized = \<lparr>cr_Code = 401, cr_Message = ''Unauthorized'', cr_Data = JNull\<rparr>"

definition ResponseOK :: "json_data \<Rightarrow> commonResponse" where
  "ResponseOK d = \<lparr>cr_Code = 200, cr_Message = ''ok'', cr_Data = d\<rparr>"

section \<open>Announcing\<close>

definition validAnnounceReq :: "'a HttpAnnounceRequest_scheme \<Rightarrow> bool" where
  "validAnnounceReq req \<longleftrightarrow>
     length (r_InfoHash req) = 20 \<and> length (r_PeerID req) = 20 \<and> 0 \<le> r_Port req \<and> r_Port req < 65535"

definition is_upgrade :: "Config \<Rightarrow> http_context \<Rightarrow> bool" where
  "is_upgrade cfg c \<longleftrightarrow>
     t_Mode (c_Tracker cfg) = RunningModeMemory \<and> ws_Enable (t_WSServer (c_Tracker cfg)) \<and>
     EqualFold (hc_Header c ''Connection'') ''Upgrade'' \<and> EqualFold (hc_Header c ''Upgrade'') ''websocket''"

definition clamp_NumWant :: "Config \<Rightarrow> int \<Rightarrow> int" where
  "clamp_NumWant cfg n =
     (let maxPeers = mem_MaxPeersPerTorrent (t_Memory (c_Tracker cfg));
          n = (if n > maxPeers then maxPeers else n)
      in if n \<le> 0 \<or> n > 500 then 50 else n)"

text \<open>From the bound query to the request that the manager gets.\<close>

definition http_request ::
  "Config \<Rightarrow> (string \<Rightarrow> string) \<Rightarrow> http_context \<Rightarrow> HttpAnnounceRequest result \<Rightarrow> AnnounceRequest result" where
  "http_request cfg subString c bound =
     (case bound of
        Inl e \<Rightarrow> Inl ''bad request''
      | Inr req \<Rightarrow>
          if \<not> validAnnounceReq req then Inl ''bad request''
          else
            (let ip = GetClientIP c;
                 ip = (case To4 ip of Some v4 \<Rightarrow> Some v4 | None \<Rightarrow> ip);
                 req = req\<lparr>r_ClientIP := ip, r_UserAgent := subString (hc_UserAgent c),
                   r_NumWant := clamp_NumWant cfg (r_NumWant req), r_Type := PeerTypeBittorrent\<rparr>
             in Inr (HttpAnnounceRequest.extend req (AnnounceRequest.fields SourceHTTP [] None))))"

record 'e http_env =
  he_call :: "nat \<Rightarrow> 'e"
  he_Intn :: int
  he_SubString :: "string \<Rightarrow> string"

definition announce_interval :: "Config \<Rightarrow> int \<Rightarrow> int64" where
  "announce_interval cfg intn = t_TTL (c_Tracker cfg) + of_int (intn - 100)"

definition announce_data :: "Config \<Rightarrow> int \<Rightarrow> AnnounceRequest \<Rightarrow> Peer list \<Rightarrow> ScrapeFile \<Rightarrow> render_data" where
  "announce_data cfg intn req res scrape =
     (if r_Compact req = 0 then
        RenderBasic \<lparr>ab_Interval = announce_interval cfg intn, ab_Peers = map (ToModel cfg) res,
          ab_ExternalIp = UnsafeBytesToString (ip_bytes (r_ClientIP req)), ab_TrackerId = t_TrackerId (c_Tracker cfg),
          ab_Complete = sf_Complete scrape, ab_Incomplete = sf_Incomplete scrape\<rparr>
      else
        (case PeersToCompact cfg res of (peers, peers6) \<Rightarrow>
           RenderCompact \<lparr>ac_Interval = announce_interval cfg intn, ac_Peers = peers, ac_Peers6 = peers6,
             ac_ExternalIp = UnsafeBytesToString (ip_bytes (r_ClientIP req)), ac_TrackerId = t_TrackerId (c_Tracker cfg),
             ac_Complete = sf_Complete scrape, ac_Incomplete = sf_Incomplete scrape\<rparr>))"

text \<open>The scrape comes first: its counts are those before the announce.\<close>

datatype http_outcome = Websocket | Answered bencode_reply

definition http_Announce ::
  "('e, 's) PeerManager \<Rightarrow> Config \<Rightarrow> 'e http_env \<Rightarrow> http_context \<Rightarrow> HttpAnnounceRequest result \<Rightarrow> 's \<Rightarrow>
   http_outcome \<times> 's" where
  "http_Announce P cfg env c bound s =
     (if is_upgrade cfg c then (Websocket, s)
      else case http_request cfg (he_SubString env) c bound of
        Inl e \<Rightarrow> (Answered (bencode_ResponseErr cfg e), s)
      | Inr req \<Rightarrow>
          (case pm_Scrape P (he_call env 0) (r_InfoHash req) s of
             (Inl e, s') \<Rightarrow> (Answered (bencode_ResponseErr cfg e), s')
           | (Inr scrape, s') \<Rightarrow>
               (case pm_HandleAnnouncePeer P (he_call env 1) req s' of
                  (Inl e, s'') \<Rightarrow> (Answered (bencode_ResponseErr cfg e), s'')
                | (Inr res, s'') \<Rightarrow>
                    (Answered (bencode_ResponseOk (announce_data cfg (he_Intn env) req res scrape)), s''))))"

section \<open>Scraping and statistics\<close>

fun http_Scrape_loop ::
  "('e, 's) PeerManager \<Rightarrow> (nat \<Rightarrow> 'e) \<Rightarrow> nat \<Rightarrow> string list \<Rightarrow> (string \<times> ScrapeFile) list \<Rightarrow> 's \<Rightarrow>
   (string \<times> ScrapeFile) list result \<times> 's" where
  "http_Scrape_loop P call n [] ret s = (Inr ret, s)"
| "http_Scrape_loop P call n (ih # ihs) ret s =
     (case pm_Scrape P (call n) ih s of
        (Inl e, s') \<Rightarrow> (Inl e, s')
      | (Inr f, s') \<Rightarrow> http_Scrape_loop P call (Suc n) ihs (AList.update ih f ret) s')"

definition http_Scrape ::
  "('e, 's) PeerManager \<Rightarrow> Config \<Rightarrow> 'e http_env \<Rightarrow> string list result \<Rightarrow> 's \<Rightarrow> bencode_reply \<times> 's" where
  "http_Scrape P cfg env bound s =
     (case bound of
        Inl e \<Rightarrow> (bencode_ResponseErr cfg ''bad request'', s)
      | Inr infoHashes \<Rightarrow>
          if infoHashes = [] then (bencode_ResponseErr cfg ''info hash can't be empty'', s)
          else (case http_Scrape_loop P (he_call env) 0 infoHashes [] s of
             (Inl e, s') \<Rightarrow> (bencode_ResponseErr cfg e, s')
           | (Inr ret, s') \<Rightarrow> (bencode_ResponseOk (RenderScrape ret), s')))"

definition http_Statistic :: "('e, 's) PeerManager \<Rightarrow> 'e http_env \<Rightarrow> 's \<Rightarrow> commonResponse" where
  "http_Statistic P env s =
     (case pm_GetStatistic P (he_call env 0) s of
        Inl e \<Rightarrow> ResponseErr e
      | Inr info \<Rightarrow> ResponseOK (JStatistic info))"

section \<open>The rate limit\<close>

text \<open>\<^verbatim>\<open>AdaptiveLimit\<close>: the limiter's verdict decides whether the handler runs.\<close>

definition AdaptiveLimit :: "Config \<Rightarrow> error option \<Rightarrow> ('s \<Rightarrow> http_outcome \<times> 's) \<Rightarrow> 's \<Rightarrow> http_outcome \<times> 's" where
  "AdaptiveLimit cfg verdict handler s =
     (case verdict of
        Some e \<Rightarrow> (Answered (bencode_ResponseErrWithRetry cfg ''too many request''), s)
      | None \<Rightarrow> handler s)"

section \<open>What the manager is asked\<close>

lemma clamp_NumWant_range: "1 \<le> clamp_NumWant cfg n \<and> clamp_NumWant cfg n \<le> 500"
  by (simp add: clamp_NumWant_def Let_def)

lemma extend_simps [simp]:
  "r_InfoHash (HttpAnnounceRequest.extend req x) = r_InfoHash req" "r_PeerID (HttpAnnounceRequest.extend req x) = r_PeerID req"
  "r_Port (HttpAnnounceRequest.extend req x) = r_Port req" "r_NumWant (HttpAnnounceRequest.extend req x) = r_NumWant req"
  "r_Type (HttpAnnounceRequest.extend req x) = r_Type req" "r_ClientIP (HttpAnnounceRequest.extend req x) = r_ClientIP req"
  "r_Event (HttpAnnounceRequest.extend req x) = r_Event req" "r_Left (HttpAnnounceRequest.extend req x) = r_Left req"
  "r_Uploaded (HttpAnnounceRequest.extend req x) = r_Uploaded req" "r_Compact (HttpAnnounceRequest.extend req x) = r_Compact req"
  "r_Downloaded (HttpAnnounceRequest.extend req x) = r_Downloaded req"
  by (simp_all add: HttpAnnounceRequest.defs)

lemma fields_simps [simp]:
  "r_Source (HttpAnnounceRequest.extend req (AnnounceRequest.fields a b d)) = a"
  "r_Offers (HttpAnnounceRequest.extend req (AnnounceRequest.fields a b d)) = b"
  "r_Conn (HttpAnnounceRequest.extend req (AnnounceRequest.fields a b d)) = d"
  by (simp_all add: HttpAnnounceRequest.defs AnnounceRequest.defs)

lemma http_request_InrD:
  assumes "http_request cfg sub c (Inr q) = Inr req"
  shows "validAnnounceReq q" and "r_InfoHash req = r_InfoHash q" and "r_PeerID req = r_PeerID q"
    and "r_Port req = r_Port q" and "r_Event req = r_Event q" and "r_Left req = r_Left q"
    and "r_NumWant req = clamp_NumWant cfg (r_NumWant q)" and "r_Type req = PeerTypeBittorrent"
    and "r_Source req = SourceHTTP" and "r_Conn req = None" and "r_Offers req = []" and "r_Compact req = r_Compact q"
    and "To4 (GetClientIP c) \<noteq> None \<Longrightarrow> length (ip_bytes (r_ClientIP req)) = 4"
    and "To4 (r_ClientIP req) = To4 (GetClientIP c)"
  using assms
  by (auto simp: http_request_def Let_def ip_bytes_def dest: To4_length split: if_splits option.splits)

lemma http_request_error: "http_request cfg sub c bound = Inl e \<Longrightarrow> e = ''bad request''"
  by (auto simp: http_request_def Let_def split: sum.splits if_splits)

lemma http_Scrape_loop_files:
  assumes "http_Scrape_loop P call n ihs ret s = (Inr ret', s')"
  shows "fst ` set ret' = fst ` set ret \<union> set ihs" and "distinct (map fst ret) \<Longrightarrow> distinct (map fst ret')"
  using assms
  by (induction P call n ihs ret s arbitrary: ret' s' rule: http_Scrape_loop.induct)
    (auto split: prod.splits sum.splits simp: dom_update distinct_update)

end
