(* ===== verification/Websocket.thy ===== *)
theory Websocket
  imports Http_Server
begin

text \<open>
  The websocket tracker for WebTorrent: connections (\<^verbatim>\<open>biz/model/ws.go\<close>), the peer manager of
  \<^verbatim>\<open>biz/services/peer/websocket\<close> and the message loop of \<^verbatim>\<open>biz/handler/webtorrent.go\<close>.

  The shards of the manager are maps from info hashes to maps of peers; a torrent is never removed,
  so a root that a closure captured is named by shard and info hash. Connections are shared by
  all shards. What is written to a connection is recorded with it; the outcome of a write is a parameter.
  Taking a JSON message apart is the work of a library: a message is a record of the answers. The two
  character set conversions are parameters too.

  The goroutine of an announce that records the peer runs before or after the collection of the answer;
  a flag of the environment says which.
\<close>

section \<open>Connections\<close>

datatype 'j ws_msg =
  WsError error
| WsAnnounce (wa_interval: int64) (wa_incomplete: int) (wa_complete: int) (wa_info_hash: string)
| WsOffer (wo_info_hash: string) (wo_offer_id: string) (wo_peer_id: string) (wo_offer: OfferDetail)
| WsScrape "(string \<times> ScrapeFile) list"
| WsAnswer "(string \<times> 'j) list"

record 'j WConn =
  wc_closed :: bool
  wc_callback :: "(nat \<times> string \<times> string) option"
  wc_sent :: "'j ws_msg list"

definition NewConn :: "'j WConn" where
  "NewConn = \<lparr>wc_closed = False, wc_callback = None, wc_sent = []\<rparr>"

record ('rm, 'pm) ws_maps =
  wRoots :: "('rm, 'pm) SyncStringMap"
  wPeers :: "('pm, Peer) SyncStringMap"

record ('rm, 'f, 'i, 'j) WebsocketMuxManager =
  ws_localList :: "'rm list"
  ws_conns :: "conn_id \<Rightarrow> 'j WConn"
  ws_events :: "(string \<times> Peer) list"
  ws_ban :: "('f, 'i) BanManager"

definition ws_root :: "('rm, 'pm) ws_maps \<Rightarrow> nat \<Rightarrow> string \<Rightarrow> ('rm, 'f, 'i, 'j) WebsocketMuxManager \<Rightarrow> 'pm option" where
  "ws_root W i ih s = sm_Load (wRoots W) (ws_localList s ! i) ih"

definition ws_set_root ::
  "('rm, 'pm) ws_maps \<Rightarrow> nat \<Rightarrow> string \<Rightarrow> 'pm \<Rightarrow> ('rm, 'f, 'i, 'j) WebsocketMuxManager \<Rightarrow> ('rm, 'f, 'i, 'j) WebsocketMuxManager" where
  "ws_set_root W i ih pm s =
     s\<lparr>ws_localList := (ws_localList s)[i := sm_Store (wRoots W) (ws_localList s ! i) ih pm]\<rparr>"

definition set_conn ::
  "conn_id \<Rightarrow> 'j WConn \<Rightarrow> ('rm, 'f, 'i, 'j) WebsocketMuxManager \<Rightarrow> ('rm, 'f, 'i, 'j) WebsocketMuxManager" where
  "set_conn c x s = s\<lparr>ws_conns := (ws_conns s)(c := x)\<rparr>"

text \<open>\<^verbatim>\<open>strings.Contains\<close>.\<close>

fun go_contains :: "string \<Rightarrow> string \<Rightarrow> bool" where
  "go_contains sub [] = (sub = [])"
| "go_contains sub (c # s) = (take (length sub) (c # s) = sub \<or> go_contains sub s)"

text \<open>\<^verbatim>\<open>Conn.WriteJSON\<close>: writing to a connection that is or turns out closed is not an error.\<close>

definition WriteJSON ::
  "(conn_id \<Rightarrow> error option) \<Rightarrow> conn_id \<Rightarrow> 'j ws_msg \<Rightarrow> ('rm, 'f, 'i, 'j) WebsocketMuxManager \<Rightarrow>
   error option \<times> ('rm, 'f, 'i, 'j) WebsocketMuxManager" where
  "WriteJSON wr c v s =
     (if wc_closed (ws_conns s c) then (None, s)
      else case wr c of
        Some e \<Rightarrow>
          if go_contains ''connection has been closed'' e \<or> go_contains ''broken pipe'' e then (None, s) else (Some e, s)
      | None \<Rightarrow> (None, set_conn c ((ws_conns s c)\<lparr>wc_sent := wc_sent (ws_conns s c) @ [v]\<rparr>) s))"

definition ws_Close ::
  "('rm, 'pm) ws_maps \<Rightarrow> conn_id \<Rightarrow> ('rm, 'f, 'i, 'j) WebsocketMuxManager \<Rightarrow> ('rm, 'f, 'i, 'j) WebsocketMuxManager" where
  "ws_Close W c s =
     (if wc_closed (ws_conns s c) then s
      else
        (let s = (case wc_callback (ws_conns s c) of
                    None \<Rightarrow> s
                  | Some (i, ih, peerID) \<Rightarrow>
                      (case ws_root W i ih s of
                         None \<Rightarrow> s
                       | Some pm \<Rightarrow> ws_set_root W i ih (fst (sm_LoadAndDelete (wPeers W) pm peerID)) s))
         in set_conn c ((ws_conns s c)\<lparr>wc_closed := True\<rparr>) s))"

section \<open>The manager\<close>

definition NewWSMuxLocalManager ::
  "('rm, 'pm) ws_maps \<Rightarrow> ('f, 'i) BanManager result \<Rightarrow> int \<Rightarrow> ('rm, 'f, 'i, 'j) WebsocketMuxManager result" where
  "NewWSMuxLocalManager W newBan num =
     (case newBan of
        Inl e \<Rightarrow> Inl e
      | Inr b \<Rightarrow> Inr \<lparr>ws_localList = replicate (nat num) (sm_New (wRoots W)), ws_conns = (\<lambda>_. NewConn), ws_events = [], ws_ban = b\<rparr>)"

text \<open>The peer of an announce: as in the in-memory manager, but \<^verbatim>\<open>Left\<close> is taken from \<^verbatim>\<open>req.Uploaded\<close>.\<close>

definition ws_newPeer :: "AnnounceRequest \<Rightarrow> gotime \<Rightarrow> Peer" where
  "ws_newPeer req now = (newPeer req now)\<lparr>p_Left := (if sint (r_Left req) \<ge> 0 then r_Uploaded req else - 1)\<rparr>"

definition ws_upsert ::
  "('rm, 'pm) ws_maps \<Rightarrow> nat \<Rightarrow> string \<Rightarrow> Peer \<Rightarrow> ('rm, 'f, 'i, 'j) WebsocketMuxManager \<Rightarrow>
   ('rm, 'f, 'i, 'j) WebsocketMuxManager" where
  "ws_upsert W i ih peer s =
     (case ws_root W i ih s of
        None \<Rightarrow> s
      | Some pm \<Rightarrow>
          (case sm_Load (wPeers W) pm (GetKey peer) of
             Some knownPeer \<Rightarrow>
               (let s = (if (p_Left knownPeer \<noteq> 0 \<and> p_Left peer = 0) \<or> p_Event knownPeer \<noteq> p_Event peer
                         then s\<lparr>ws_events := ws_events s @ [(ih, peer)]\<rparr> else s)
                in ws_set_root W i ih (sm_Store (wPeers W) pm (GetKey peer) (refresh_peer knownPeer peer)) s)
           | None \<Rightarrow> ws_set_root W i ih (fst (sm_LoadOrStore (wPeers W) pm (GetKey peer) peer)) s))"

definition ws_collect_step ::
  "AnnounceRequest \<Rightarrow> Peer \<Rightarrow> Peer list \<Rightarrow> string \<times> Peer \<Rightarrow> Peer list \<times> bool" where
  "ws_collect_step req peer resp kv =
     (let value = snd kv in
      if p_Type value \<noteq> p_Type peer then (resp, True)
      else if p_Type value = PeerTypeWebtorrent \<and> p_Conn value = None then (resp, True)
      else if p_Event value = PeerEvent_Stopped then (resp, True)
      else if int (length resp) \<ge> r_NumWant req then (resp, False)
      else if p_ID value = p_ID peer then (resp, True)
      else (resp @ [value], True))"

definition ws_collect ::
  "('rm, 'pm) ws_maps \<Rightarrow> nat \<Rightarrow> AnnounceRequest \<Rightarrow> Peer \<Rightarrow> ('rm, 'f, 'i, 'j) WebsocketMuxManager \<Rightarrow> Peer list" where
  "ws_collect W i req peer s =
     (case ws_root W i (r_InfoHash req) s of
        None \<Rightarrow> []
      | Some pm \<Rightarrow> go_range (ws_collect_step req peer) (sm_Range (wPeers W) pm) [])"

record ws_env =
  we_now :: gotime
  we_upsertFirst :: bool

definition ws_worker_HandleAnnouncePeer ::
  "('rm, 'pm) ws_maps \<Rightarrow> ws_env \<Rightarrow> nat \<Rightarrow> AnnounceRequest \<Rightarrow> ('rm, 'f, 'i, 'j) WebsocketMuxManager \<Rightarrow>
   Peer list result \<times> ('rm, 'f, 'i, 'j) WebsocketMuxManager" where
  "ws_worker_HandleAnnouncePeer W env i req s =
     (let peer = ws_newPeer req (we_now env); ih = r_InfoHash req in
      if \<not> valid_addresses peer then (Inl ''invalid address'', s)
      else case sm_LoadOrStoreLazy (wRoots W) (ws_localList s ! i) ih (\<lambda>_. sm_New (wPeers W)) of
        (rm, root, ok) \<Rightarrow>
          (let s = s\<lparr>ws_localList := (ws_localList s)[i := rm]\<rparr> in
           case r_Conn req of
             None \<Rightarrow> (Inl ''nil pointer dereference'', s)
           | Some c \<Rightarrow>
               (let s = set_conn c ((ws_conns s c)\<lparr>wc_callback := Some (i, ih, r_PeerID req)\<rparr>) s in
                if \<not> ok then
                  (Inr [], (ws_set_root W i ih (fst (sm_LoadOrStore (wPeers W) root (GetKey peer) peer)) s)
                     \<lparr>ws_events := ws_events s @ [(ih, peer)]\<rparr>)
                else if p_Event peer = PeerEvent_Stopped then
                  (let s = ws_Close W c s in
                   (Inr [], case ws_root W i ih s of
                      None \<Rightarrow> s
                    | Some pm \<Rightarrow> ws_set_root W i ih (fst (sm_Delete (wPeers W) pm (GetKey peer))) s))
                else if we_upsertFirst env then
                  (let s = ws_upsert W i ih peer s in (Inr (ws_collect W i req peer s), s))
                else (Inr (ws_collect W i req peer s), ws_upsert W i ih peer s))))"

definition ws_worker_Scrape ::
  "('rm, 'pm) ws_maps \<Rightarrow> Config \<Rightarrow> 'c RedisClient \<Rightarrow> ScrapeFile Codec \<Rightarrow> nat \<Rightarrow> string \<Rightarrow>
   ('rm, 'f, 'i, 'j) WebsocketMuxManager \<Rightarrow> 'c \<Rightarrow> ScrapeFile \<times> 'c" where
  "ws_worker_Scrape W cfg Client codec i ih s c =
     (case (if redis_Enable (c_Cache cfg) then cache_Get Client codec c (''scrape_ws_'' @ ih) else None) of
        Some v \<Rightarrow> (v, c)
      | None \<Rightarrow>
          (case ws_root W i ih s of
             None \<Rightarrow> (emptyScrapeFile, c)
           | Some pm \<Rightarrow>
               (let ret = scrapeFile_of (go_range (\<lambda>n kv. (count_peer n (snd kv), True)) (sm_Range (wPeers W) pm) zeroCounters)
                in (ret, if redis_Enable (c_Cache cfg)
                         then fst (cache_Set Client codec c (''scrape_ws_'' @ ih) ret (duration_seconds 300)) else c))))"

definition ws_worker_AnswerToPeer ::
  "('rm, 'pm) ws_maps \<Rightarrow> (conn_id \<Rightarrow> error option) \<Rightarrow> nat \<Rightarrow> string \<Rightarrow> string \<Rightarrow> (string \<times> 'j) list \<Rightarrow>
   ('rm, 'f, 'i, 'j) WebsocketMuxManager \<Rightarrow> unit result \<times> ('rm, 'f, 'i, 'j) WebsocketMuxManager" where
  "ws_worker_AnswerToPeer W wr i ih peerID answerBody s =
     (case ws_root W i ih s of
        None \<Rightarrow> (Inl ''info hash not found'', s)
      | Some pm \<Rightarrow>
          (case sm_Load (wPeers W) pm peerID of
             None \<Rightarrow> (Inl ''peer not found'', s)
           | Some peer \<Rightarrow>
               (case p_Conn peer of
                  None \<Rightarrow> (Inl ''peer not connected'', s)
                | Some c \<Rightarrow>
                    (let resp = AList.delete ''to_peer_id'' answerBody in
                     case WriteJSON wr c (WsAnswer resp) s of
                       (None, s') \<Rightarrow> (Inr (), s')
                     | (Some e, s') \<Rightarrow>
                         if go_contains ''close'' e
                         then (Inl ''remote peer offline'', ws_set_root W i ih (sm_Store (wPeers W) pm peerID (peer\<lparr>p_Conn := None\<rparr>)) s')
                         else (Inl e, s')))))"

definition ws_pickWorker :: "('rm, 'f, 'i, 'j) WebsocketMuxManager \<Rightarrow> bytes \<Rightarrow> nat result" where
  "ws_pickWorker s hashBytes =
     (if ws_localList s = [] then Inl ''runtime error: integer divide by zero''
      else Inr (unat ((of_nat (be_nat hashBytes) :: uint64) mod of_nat (length (ws_localList s)))))"

definition ws_refusal :: "'f bloom \<Rightarrow> 'i IPFilter \<Rightarrow> AnnounceRequest \<Rightarrow> ('f, 'i) BanManager \<Rightarrow> error option" where
  "ws_refusal Bl F req b =
     (if ban_Test Bl b BanTypeInfoHash (r_InfoHash req) = Inr True then Some ''banned info_hash''
      else if ban_Test Bl b BanTypePeerId (r_PeerID req) = Inr True then Some ''banned peer_id''
      else if r_ClientIP req \<noteq> None \<and> TestIPAddr F (r_ClientIP req) b then Some ''banned ip''
      else None)"

definition ws_HandleAnnouncePeer ::
  "('rm, 'pm) ws_maps \<Rightarrow> 'f bloom \<Rightarrow> 'i IPFilter \<Rightarrow> ws_env \<Rightarrow> AnnounceRequest \<Rightarrow> ('rm, 'f, 'i, 'j) WebsocketMuxManager \<Rightarrow>
   Peer list result \<times> ('rm, 'f, 'i, 'j) WebsocketMuxManager" where
  "ws_HandleAnnouncePeer W Bl F env req s =
     (case ws_refusal Bl F req (ws_ban s) of
        Some e \<Rightarrow> (Inl e, s)
      | None \<Rightarrow>
          (case ws_pickWorker s (UnsafeStringToBytes (r_InfoHash req)) of
             Inl e \<Rightarrow> (Inl e, s)
           | Inr i \<Rightarrow> ws_worker_HandleAnnouncePeer W env i req s))"

definition ws_Scrape ::
  "('rm, 'pm) ws_maps \<Rightarrow> Config \<Rightarrow> 'c RedisClient \<Rightarrow> ScrapeFile Codec \<Rightarrow> string \<Rightarrow>
   ('rm, 'f, 'i, 'j) WebsocketMuxManager \<Rightarrow> 'c \<Rightarrow> ScrapeFile result \<times> 'c" where
  "ws_Scrape W cfg Client codec ih s c =
     (case ws_pickWorker s (UnsafeStringToBytes ih) of
        Inl e \<Rightarrow> (Inl e, c)
      | Inr i \<Rightarrow> apfst Inr (ws_worker_Scrape W cfg Client codec i ih s c))"

definition ws_AnswerToPeer ::
  "('rm, 'pm) ws_maps \<Rightarrow> (conn_id \<Rightarrow> error option) \<Rightarrow> string \<Rightarrow> string \<Rightarrow> (string \<times> 'j) list \<Rightarrow>
   ('rm, 'f, 'i, 'j) WebsocketMuxManager \<Rightarrow> unit result \<times> ('rm, 'f, 'i, 'j) WebsocketMuxManager" where
  "ws_AnswerToPeer W wr ih peerID answerBody s =
     (case ws_pickWorker s (UnsafeStringToBytes ih) of
        Inl e \<Rightarrow> (Inl e, s)
      | Inr i \<Rightarrow> ws_worker_AnswerToPeer W wr i ih peerID answerBody s)"

end
