(* ===== verification/Webtorrent.thy ===== *)
theory Webtorrent
  imports Websocket
begin

text \<open>
  The message loop of a websocket connection, \<^verbatim>\<open>biz/handler/webtorrent.go\<close> with the error answer of
  \<^verbatim>\<open>utils/webtorrent\<close>. A message is what the JSON library makes of it: the action, whether it carries an
  answer, and the fields that each action reads. \<open>we_pick\<close> is the random choice among offers.
\<close>

section \<open>Messages and environment\<close>

text \<open>A node of a message, as far as the handlers look into it: the strings of an array, or a string.\<close>

datatype json_node = NArray "string option list" | NString string | NOther

record 'j ws_message =
  wm_action :: "string result"
  wm_answer :: bool
  wm_info_hash :: "string result"
  wm_to_peer_id :: "string result"
  wm_announce :: "AnnounceRequest result"
  wm_scrape :: "json_node result"
  wm_object :: "(string \<times> 'j) list"

record ('rm, 'pm, 'f, 'i, 'c) ws_deps =
  wd_maps :: "('rm, 'pm) ws_maps"
  wd_bloom :: "'f bloom"
  wd_filter :: "'i IPFilter"
  wd_cfg :: Config
  wd_client :: "'c RedisClient"
  wd_codec :: "ScrapeFile Codec"
  wd_latin1 :: "bytes \<Rightarrow> bytes"
  wd_utf8 :: "bytes \<Rightarrow> bytes"
  wd_SubString :: "string \<Rightarrow> string"

record ws_handler_env = ws_env +
  we_Intn :: int
  we_pick :: "nat \<Rightarrow> Offer list \<Rightarrow> Offer"
  we_write :: "conn_id \<Rightarrow> error option"

type_synonym ('rm, 'f, 'i, 'j, 'c) ws_state = "('rm, 'f, 'i, 'j) WebsocketMuxManager \<times> 'c"

definition to_latin1 :: "('rm, 'pm, 'f, 'i, 'c) ws_deps \<Rightarrow> string \<Rightarrow> string" where
  "to_latin1 X s = UnsafeBytesToString (wd_latin1 X (UnsafeStringToBytes s))"

definition to_utf8 :: "('rm, 'pm, 'f, 'i, 'c) ws_deps \<Rightarrow> string \<Rightarrow> string" where
  "to_utf8 X s = UnsafeBytesToString (wd_utf8 X (UnsafeStringToBytes s))"

definition webtorrent_ResponseErr ::
  "(conn_id \<Rightarrow> error option) \<Rightarrow> conn_id \<Rightarrow> error \<Rightarrow> ('rm, 'f, 'i, 'j) WebsocketMuxManager \<Rightarrow> ('rm, 'f, 'i, 'j) WebsocketMuxManager" where
  "webtorrent_ResponseErr wr c e s = snd (WriteJSON wr c (WsError e) s)"

section \<open>Answers\<close>

definition handleWSAnswer ::
  "('rm, 'pm, 'f, 'i, 'c) ws_deps \<Rightarrow> ws_handler_env \<Rightarrow> 'j ws_message \<Rightarrow> ('rm, 'f, 'i, 'j, 'c) ws_state \<Rightarrow>
   error option \<times> ('rm, 'f, 'i, 'j, 'c) ws_state" where
  "handleWSAnswer X env msg st =
     (case st of (s, c) \<Rightarrow>
       (case wm_info_hash msg of
          Inl e \<Rightarrow> (Some e, s, c)
        | Inr ih \<Rightarrow>
            (case wm_to_peer_id msg of
               Inl e \<Rightarrow> (Some e, s, c)
             | Inr pid \<Rightarrow>
                 (let hash = to_latin1 X ih; peerId = to_latin1 X pid in
                  if length peerId = 0 then (Some ''invalid peerId'', s, c)
                  else case ws_AnswerToPeer (wd_maps X) (we_write env) hash peerId (wm_object msg) s of
                    (Inl e, s') \<Rightarrow> (Some e, s', c)
                  | (Inr _, s') \<Rightarrow> (None, s', c)))))"

section \<open>Announces\<close>

definition sendOffer ::
  "('rm, 'pm, 'f, 'i, 'c) ws_deps \<Rightarrow> (conn_id \<Rightarrow> error option) \<Rightarrow> Peer \<Rightarrow> Offer \<Rightarrow> string \<Rightarrow> string \<Rightarrow>
   ('rm, 'f, 'i, 'j) WebsocketMuxManager \<Rightarrow> ('rm, 'f, 'i, 'j) WebsocketMuxManager" where
  "sendOffer X wr target o' ih peerId s =
     (case p_Conn target of
        None \<Rightarrow> s
      | Some c \<Rightarrow> snd (WriteJSON wr c (WsOffer (to_utf8 X ih) (o_OfferID o') peerId (o_Offer o')) s))"

text \<open>With as many offers as peers each peer gets its own, otherwise each gets one at random.\<close>

fun send_offers ::
  "('rm, 'pm, 'f, 'i, 'c) ws_deps \<Rightarrow> ws_handler_env \<Rightarrow> AnnounceRequest \<Rightarrow> bool \<Rightarrow> nat \<Rightarrow> Peer list \<Rightarrow>
   ('rm, 'f, 'i, 'j) WebsocketMuxManager \<Rightarrow> ('rm, 'f, 'i, 'j) WebsocketMuxManager" where
  "send_offers X env req own i [] s = s"
| "send_offers X env req own i (to # res) s =
     (let s = (if p_ID to = r_PeerID req then s
               else if own then
                 (if i < length (r_Offers req)
                  then sendOffer X (we_write env) to (r_Offers req ! i) (r_InfoHash req) (r_PeerID req) s else s)
               else sendOffer X (we_write env) to (we_pick env i (r_Offers req)) (r_InfoHash req) (r_PeerID req) s)
      in send_offers X env req own (Suc i) res s)"

definition ws_request ::
  "('rm, 'pm, 'f, 'i, 'c) ws_deps \<Rightarrow> http_context \<Rightarrow> conn_id \<Rightarrow> AnnounceRequest result \<Rightarrow> AnnounceRequest result" where
  "ws_request X h conn unmarshalled =
     (case unmarshalled of
        Inl e \<Rightarrow> Inl e
      | Inr req \<Rightarrow>
          (let req = req\<lparr>r_InfoHash := to_latin1 X (r_InfoHash req), r_PeerID := to_latin1 X (r_PeerID req)\<rparr> in
           if \<not> validAnnounceReq req then Inl ''invalid request''
           else Inr (req\<lparr>r_ClientIP := GetClientIP h, r_UserAgent := wd_SubString X (hc_UserAgent h),
                  r_NumWant := (if r_NumWant req = 0 \<or> r_NumWant req > 500 then 50 else r_NumWant req),
                  r_Conn := Some conn, r_Type := PeerTypeWebtorrent, r_Source := SourceWS\<rparr>)))"

definition handleWSAnnounce ::
  "('rm, 'pm, 'f, 'i, 'c) ws_deps \<Rightarrow> ws_handler_env \<Rightarrow> http_context \<Rightarrow> conn_id \<Rightarrow> 'j ws_message \<Rightarrow>
   ('rm, 'f, 'i, 'j, 'c) ws_state \<Rightarrow> error option \<times> ('rm, 'f, 'i, 'j, 'c) ws_state" where
  "handleWSAnnounce X env h conn msg st =
     (case st of (s, c) \<Rightarrow>
       (case ws_request X h conn (wm_announce msg) of
          Inl e \<Rightarrow> (Some e, s, c)
        | Inr req \<Rightarrow>
            (case ws_HandleAnnouncePeer (wd_maps X) (wd_bloom X) (wd_filter X)
                    \<lparr>we_now = we_now env, we_upsertFirst = we_upsertFirst env\<rparr> req s of
               (Inl e, s) \<Rightarrow> (Some e, s, c)
             | (Inr res, s) \<Rightarrow>
                 (case ws_Scrape (wd_maps X) (wd_cfg X) (wd_client X) (wd_codec X) (r_InfoHash req) s c of
                    (Inl e, c) \<Rightarrow> (Some e, s, c)
                  | (Inr scrape, c) \<Rightarrow>
                      (case WriteJSON (we_write env) conn
                              (WsAnnounce (announce_interval (wd_cfg X) (we_Intn env)) (sf_Incomplete scrape) (sf_Complete scrape)
                                (to_utf8 X (r_InfoHash req))) s of
                         (Some e, s) \<Rightarrow> (Some e, s, c)
                       | (None, s) \<Rightarrow>
                           (None, if r_Offers req = [] then s
                                  else send_offers X env req (length (r_Offers req) = length res) 0 res s, c))))))"

section \<open>Scrapes\<close>

fun ws_scrape_loop ::
  "('rm, 'pm, 'f, 'i, 'c) ws_deps \<Rightarrow> string list \<Rightarrow> (string \<times> ScrapeFile) list \<Rightarrow> ('rm, 'f, 'i, 'j, 'c) ws_state \<Rightarrow>
   (string \<times> ScrapeFile) list result \<times> ('rm, 'f, 'i, 'j, 'c) ws_state" where
  "ws_scrape_loop X [] ret st = (Inr ret, st)"
| "ws_scrape_loop X (ih # ihs) ret (s, c) =
     (case ws_Scrape (wd_maps X) (wd_cfg X) (wd_client X) (wd_codec X) (to_latin1 X ih) s c of
        (Inl e, c) \<Rightarrow> (Inl e, s, c)
      | (Inr f, c) \<Rightarrow> ws_scrape_loop X ihs (AList.update ih f ret) (s, c))"

definition ws_scrape_hashes :: "json_node \<Rightarrow> string list" where
  "ws_scrape_hashes infoHashRaw =
     (case infoHashRaw of
        NArray tryArray \<Rightarrow> List.map_filter (\<lambda>v. v) tryArray
      | NString tryString \<Rightarrow> [tryString]
      | NOther \<Rightarrow> [])"

definition handleWSScrape ::
  "('rm, 'pm, 'f, 'i, 'c) ws_deps \<Rightarrow> ws_handler_env \<Rightarrow> conn_id \<Rightarrow> 'j ws_message \<Rightarrow> ('rm, 'f, 'i, 'j, 'c) ws_state \<Rightarrow>
   error option \<times> ('rm, 'f, 'i, 'j, 'c) ws_state" where
  "handleWSScrape X env conn msg st =
     (case wm_scrape msg of
        Inl e \<Rightarrow> (Some e, st)
      | Inr infoHashRaw \<Rightarrow>
          let infoHashes = ws_scrape_hashes infoHashRaw in
          if infoHashes = [] then (Some ''info_hash can't be empty'', st)
          else case ws_scrape_loop X infoHashes [] st of
            (Inl e, st) \<Rightarrow> (Some e, st)
          | (Inr ret, s, c) \<Rightarrow>
              (case WriteJSON (we_write env) conn (WsScrape ret) s of (e, s) \<Rightarrow> (e, s, c)))"

section \<open>The loop\<close>

text \<open>One message: the state, and whether the connection is still to be served.\<close>

definition handle_message ::
  "('rm, 'pm, 'f, 'i, 'c) ws_deps \<Rightarrow> ws_handler_env \<Rightarrow> http_context \<Rightarrow> conn_id \<Rightarrow> 'j ws_message \<Rightarrow>
   ('rm, 'f, 'i, 'j, 'c) ws_state \<Rightarrow> bool \<times> ('rm, 'f, 'i, 'j, 'c) ws_state" where
  "handle_message X env h conn msg st =
     (let fail = (\<lambda>e (s, c). (False, ws_Close (wd_maps X) conn (webtorrent_ResponseErr (we_write env) conn e s), c)) in
      case wm_action msg of
        Inl e \<Rightarrow> fail ''get action error'' st
      | Inr action \<Rightarrow>
          if action = ''announce'' then
            if wm_answer msg then (True, snd (handleWSAnswer X env msg st))
            else (case handleWSAnnounce X env h conn msg st of (None, st) \<Rightarrow> (True, st) | (Some e, st) \<Rightarrow> fail e st)
          else if action = ''scrape'' then
            (case handleWSScrape X env conn msg st of (None, st) \<Rightarrow> (True, st) | (Some e, st) \<Rightarrow> fail e st)
          else fail ''invalid action'' st)"

text \<open>The loop reads until an error; closing the connection is deferred to the end.\<close>

fun HandleWebTorrent ::
  "('rm, 'pm, 'f, 'i, 'c) ws_deps \<Rightarrow> http_context \<Rightarrow> conn_id \<Rightarrow> (ws_handler_env \<times> 'j ws_message) list \<Rightarrow>
   ('rm, 'f, 'i, 'j, 'c) ws_state \<Rightarrow> ('rm, 'f, 'i, 'j, 'c) ws_state" where
  "HandleWebTorrent X h conn [] (s, c) = (ws_Close (wd_maps X) conn s, c)"
| "HandleWebTorrent X h conn ((env, msg) # msgs) st =
     (case handle_message X env h conn msg st of
        (True, st) \<Rightarrow> HandleWebTorrent X h conn msgs st
      | (False, s, c) \<Rightarrow> (ws_Close (wd_maps X) conn s, c))"

section \<open>Invariants of the manager\<close>

definition ws_view :: "('rm, 'pm) ws_maps \<Rightarrow> ('rm, 'f, 'i, 'j) WebsocketMuxManager \<Rightarrow> nat \<Rightarrow> string \<Rightarrow> (string \<rightharpoonup> Peer) option" where
  "ws_view W s i ih = map_option (sm_Load (wPeers W)) (ws_root W i ih s)"

definition ws_ok ::
  "('rm, 'pm) ws_maps \<Rightarrow> ('rm \<Rightarrow> bool) \<Rightarrow> ('pm \<Rightarrow> bool) \<Rightarrow> ('rm, 'f, 'i, 'j) WebsocketMuxManager \<Rightarrow> bool" where
  "ws_ok W rinv pinv s \<longleftrightarrow>
     (\<forall>i < length (ws_localList s). rinv (ws_localList s ! i) \<and>
        (\<forall>ih pm. ws_root W i ih s = Some pm \<longrightarrow> pinv pm \<and> (\<forall>k p. sm_Load (wPeers W) pm k = Some p \<longrightarrow> p_ID p = k)))"

text \<open>The peers an announcing peer may be given.\<close>

definition ws_eligible :: "Peer \<Rightarrow> Peer \<Rightarrow> bool" where
  "ws_eligible peer p \<longleftrightarrow> p_Type p = p_Type peer \<and> \<not> (p_Type p = PeerTypeWebtorrent \<and> p_Conn p = None) \<and>
     p_Event p \<noteq> PeerEvent_Stopped \<and> p_ID p \<noteq> p_ID peer"

definition ws_upsert_swarm :: "Peer \<Rightarrow> (string \<rightharpoonup> Peer) \<Rightarrow> (string \<rightharpoonup> Peer)" where
  "ws_upsert_swarm peer sw =
     sw(p_ID peer \<mapsto> (case sw (p_ID peer) of Some known \<Rightarrow> refresh_peer known peer | None \<Rightarrow> peer))"

lemma ws_collect_take:
  "go_range (ws_collect_step req peer) xs resp =
     resp @ take (nat (r_NumWant req) - length resp) (filter (ws_eligible peer) (map snd xs))"
proof (induction xs arbitrary: resp)
  case (Cons x xs)
  show ?case
  proof (cases "r_NumWant req \<le> int (length resp)")
    case True
    then have z: "nat (r_NumWant req) - length resp = 0" by simp
    have "fst (ws_collect_step req peer resp x) = resp" using True by (simp add: ws_collect_step_def Let_def)
    then show ?thesis using Cons.IH [of resp] by (cases "ws_collect_step req peer resp x") (simp add: z)
  next
    case False
    then have "nat (r_NumWant req) - length resp = Suc (nat (r_NumWant req) - Suc (length resp))" by simp
    moreover have "ws_collect_step req peer resp x = (if ws_eligible peer (snd x) then resp @ [snd x] else resp, True)"
      using False by (auto simp: ws_collect_step_def ws_eligible_def Let_def)
    ultimately show ?thesis using Cons.IH by simp
  qed
qed simp

locale ws_tracker = R: sync_map "wRoots W" rinv + P: sync_map "wPeers W" pinv
  for W :: "('rm, 'pm) ws_maps" and rinv :: "'rm \<Rightarrow> bool" and pinv :: "'pm \<Rightarrow> bool"
begin

abbreviation wok :: "('rm, 'f, 'i, 'j) WebsocketMuxManager \<Rightarrow> bool" where
  "wok \<equiv> ws_ok W rinv pinv"

lemma wok_rinv: "wok s \<Longrightarrow> i < length (ws_localList s) \<Longrightarrow> rinv (ws_localList s ! i)"
  by (simp add: ws_ok_def)

lemma wok_pinv: "wok s \<Longrightarrow> i < length (ws_localList s) \<Longrightarrow> ws_root W i ih s = Some pm \<Longrightarrow> pinv pm"
  by (simp add: ws_ok_def)

lemma ws_root_conn [simp]:
  "ws_root W i ih (set_conn c x s) = ws_root W i ih s" "ws_root W i ih (s\<lparr>ws_events := es\<rparr>) = ws_root W i ih s"
  "ws_view W (set_conn c x s) = ws_view W s" "ws_view W (s\<lparr>ws_events := es\<rparr>) = ws_view W s"
  "wok (set_conn c x s) = wok s" "wok (s\<lparr>ws_events := es\<rparr>) = wok s"
  "ws_localList (set_conn c x s) = ws_localList s" "ws_conns (ws_set_root W i ih pm s) = ws_conns s"
  "ws_conns (set_conn c x s) = (ws_conns s)(c := x)"
  "length (ws_localList (ws_set_root W i ih pm s)) = length (ws_localList s)"
  by (simp_all add: ws_root_def set_conn_def ws_view_def ws_ok_def ws_set_root_def fun_eq_iff)

lemma ws_root_set:
  assumes "wok s" and "i < length (ws_localList s)"
  shows "ws_root W i' ih' (ws_set_root W i ih pm s) = (if i' = i \<and> ih' = ih then Some pm else ws_root W i' ih' s)"
  using assms by (cases "i' = i") (simp_all add: ws_root_def ws_set_root_def R.Load_Store wok_rinv)

lemma wok_set:
  assumes "wok s" and "i < length (ws_localList s)" and "pinv pm" and "\<forall>k p. sm_Load (wPeers W) pm k = Some p \<longrightarrow> p_ID p = k"
  shows "wok (ws_set_root W i ih pm s)"
  unfolding ws_ok_def ws_root_set [OF assms(1,2)]
  using assms by (auto simp: ws_ok_def ws_set_root_def nth_list_update R.minv_Store)

lemma ws_view_set:
  assumes "wok s" and "i < length (ws_localList s)"
  shows "ws_view W (ws_set_root W i ih pm s) i' ih' = (if i' = i \<and> ih' = ih then Some (sm_Load (wPeers W) pm) else ws_view W s i' ih')"
  by (simp add: ws_view_def ws_root_set [OF assms])

lemma wok_key: "wok s \<Longrightarrow> i < length (ws_localList s) \<Longrightarrow> ws_view W s i ih = Some sw \<Longrightarrow> sw k = Some p \<Longrightarrow> p_ID p = k"
  by (auto simp: ws_ok_def ws_view_def)

text \<open>Removing a peer of a root.\<close>

lemma ws_delete_root:
  fixes k :: string
  assumes ok: "wok s" and i: "i < length (ws_localList s)" and pm: "ws_root W i ih s = Some pm"
  defines "s' \<equiv> ws_set_root W i ih (fst (sm_Delete (wPeers W) pm k)) s"
  shows "wok s'" and "ws_view W s' i' ih' = (if i' = i \<and> ih' = ih then Some ((sm_Load (wPeers W) pm)(k := None)) else ws_view W s i' ih')"
proof -
  have pi: "pinv pm" by (rule wok_pinv [OF ok i pm])
  have keys: "\<forall>k p. sm_Load (wPeers W) pm k = Some p \<longrightarrow> p_ID p = k" using ok i pm by (simp add: ws_ok_def)
  show "wok s'" unfolding s'_def
    by (rule wok_set [OF ok i]) (use keys in \<open>simp_all add: P.minv_Delete P.Load_Delete pi\<close>)
  show "ws_view W s' i' ih' = (if i' = i \<and> ih' = ih then Some ((sm_Load (wPeers W) pm)(k := None)) else ws_view W s i' ih')"
    by (simp add: s'_def ws_view_set [OF ok i] P.Load_Delete [OF pi])
qed

lemma ws_Close_spec:
  assumes ok: "wok s" and op: "\<not> wc_closed (ws_conns s c)" and cb: "wc_callback (ws_conns s c) = Some (i, ih, pid)"
    and i: "i < length (ws_localList s)" and sw: "ws_view W s i ih = Some sw"
  shows "wok (ws_Close W c s)" and "wc_closed (ws_conns (ws_Close W c s) c)"
    and "ws_view W (ws_Close W c s) i' ih' = (if i' = i \<and> ih' = ih then Some (sw(pid := None)) else ws_view W s i' ih')"
proof -
  from sw obtain pm where pm: "ws_root W i ih s = Some pm" "sw = sm_Load (wPeers W) pm" by (auto simp: ws_view_def)
  have pi: "pinv pm" by (rule wok_pinv [OF ok i pm(1)])
  have eq: "ws_Close W c s = set_conn c ((ws_conns s c)\<lparr>wc_closed := True\<rparr>) (ws_set_root W i ih (fst (sm_Delete (wPeers W) pm pid)) s)"
    using op cb pm by (simp add: ws_Close_def P.LoadAndDelete_fst [OF pi])
  show "wok (ws_Close W c s)" "wc_closed (ws_conns (ws_Close W c s) c)"
    and "ws_view W (ws_Close W c s) i' ih' = (if i' = i \<and> ih' = ih then Some (sw(pid := None)) else ws_view W s i' ih')"
    using ws_delete_root [OF ok i pm(1), of pid] by (simp_all add: eq pm(2))
qed

lemma ws_upsert_spec:
  assumes ok: "wok s" and i: "i < length (ws_localList s)" and sw: "ws_view W s i ih = Some sw"
  shows "wok (ws_upsert W i ih peer s)"
    and "ws_view W (ws_upsert W i ih peer s) i' ih' =
      (if i' = i \<and> ih' = ih then Some (ws_upsert_swarm peer sw) else ws_view W s i' ih')"
    and "ws_conns (ws_upsert W i ih peer s) = ws_conns s"
    and "length (ws_localList (ws_upsert W i ih peer s)) = length (ws_localList s)"
proof -
  from sw obtain pm where pm: "ws_root W i ih s = Some pm" "sw = sm_Load (wPeers W) pm" by (auto simp: ws_view_def)
  have pi: "pinv pm" by (rule wok_pinv [OF ok i pm(1)])
  have keys: "\<forall>k p. sm_Load (wPeers W) pm k = Some p \<longrightarrow> p_ID p = k" using ok i pm by (simp add: ws_ok_def)
  define q where "q = (case sm_Load (wPeers W) pm (p_ID peer) of Some known \<Rightarrow> refresh_peer known peer | None \<Rightarrow> peer)"
  have id: "p_ID q = p_ID peer" using keys by (auto simp: q_def refresh_peer_def split: option.splits)
  obtain es where eq: "ws_upsert W i ih peer s = ws_set_root W i ih (sm_Store (wPeers W) pm (p_ID peer) q) (s\<lparr>ws_events := es\<rparr>)"
  proof (cases "sm_Load (wPeers W) pm (p_ID peer)")
    case None
    then show thesis by (intro that [of "ws_events s"]) (simp add: ws_upsert_def pm(1) GetKey_def P.LoadOrStore_new [OF pi] q_def)
  next
    case (Some known)
    show thesis
    proof (cases "(p_Left known \<noteq> 0 \<and> p_Left peer = 0) \<or> p_Event known \<noteq> p_Event peer")
      case True
      with Some show thesis
        by (intro that [of "ws_events s @ [(ih, peer)]"]) (simp add: ws_upsert_def pm(1) GetKey_def q_def)
    next
      case False
      then have "(if (p_Left known \<noteq> 0 \<and> p_Left peer = 0) \<or> p_Event known \<noteq> p_Event peer
          then s\<lparr>ws_events := ws_events s @ [(ih, peer)]\<rparr> else s) = s\<lparr>ws_events := ws_events s\<rparr>" by simp
      then show thesis
        by (intro that [of "ws_events s"]) (simp only: ws_upsert_def pm(1) GetKey_def q_def Some option.case Let_def)
    qed
  qed
  have ok': "wok (s\<lparr>ws_events := es\<rparr>)" and i': "i < length (ws_localList (s\<lparr>ws_events := es\<rparr>))" using ok i by simp_all
  show "wok (ws_upsert W i ih peer s)" unfolding eq
    by (rule wok_set [OF ok' i']) (use keys id in \<open>simp_all add: P.minv_Store P.Load_Store pi\<close>)
  show "ws_view W (ws_upsert W i ih peer s) i' ih' =
      (if i' = i \<and> ih' = ih then Some (ws_upsert_swarm peer sw) else ws_view W s i' ih')" for i' ih'
    unfolding eq ws_view_set [OF ok' i'] by (simp add: P.Load_Store [OF pi] pm(2) q_def ws_upsert_swarm_def)
  show "ws_conns (ws_upsert W i ih peer s) = ws_conns s"
    "length (ws_localList (ws_upsert W i ih peer s)) = length (ws_localList s)" by (simp_all add: eq)
qed

lemma ws_collect_spec:
  assumes ok: "wok s" and i: "i < length (ws_localList s)" and sw: "ws_view W s i (r_InfoHash req) = Some sw"
  shows "set (ws_collect W i req peer s) \<subseteq> {p \<in> ran sw. ws_eligible peer p}"
    and "distinct (map p_ID (ws_collect W i req peer s))"
    and "length (ws_collect W i req peer s) = min (nat (r_NumWant req)) (card {p \<in> ran sw. ws_eligible peer p})"
proof -
  from sw obtain pm where pm: "ws_root W i (r_InfoHash req) s = Some pm" "sw = sm_Load (wPeers W) pm" by (auto simp: ws_view_def)
  have pi: "pinv pm" by (rule wok_pinv [OF ok i pm(1)])
  let ?xs = "sm_Range (wPeers W) pm"
  let ?ys = "filter (ws_eligible peer) (map snd ?xs)"
  have c: "ws_collect W i req peer s = take (nat (r_NumWant req)) ?ys" by (simp add: ws_collect_def pm(1) ws_collect_take)
  have set: "set ?ys = {p \<in> ran sw. ws_eligible peer p}"
    by (auto simp: ran_def pm(2) P.set_Range [OF pi, symmetric] image_iff) force
  have "map p_ID (map snd ?xs) = map fst ?xs"
    using wok_key [OF ok i sw] by (auto simp: P.set_Range [OF pi] pm(2))
  then have "distinct (map p_ID (map snd ?xs))" using P.Range_distinct [OF pi] by (simp only:)
  then have d: "distinct (map p_ID ?ys)" by (rule distinct_map_filter)
  show "set (ws_collect W i req peer s) \<subseteq> {p \<in> ran sw. ws_eligible peer p}"
    using set set_take_subset [of "nat (r_NumWant req)" ?ys] by (simp add: c)
  show "distinct (map p_ID (ws_collect W i req peer s))" using d by (simp add: c take_map [symmetric])
  have "length ?ys = card {p \<in> ran sw. ws_eligible peer p}"
    using distinct_card [of ?ys] d unfolding distinct_map set by simp
  then show "length (ws_collect W i req peer s) = min (nat (r_NumWant req)) (card {p \<in> ran sw. ws_eligible peer p})"
    by (simp add: c)
qed

text \<open>The announcing peer's own entry does not matter for the answer.\<close>

lemma ws_eligible_upsert:
  assumes "\<And>k p. sw k = Some p \<Longrightarrow> p_ID p = k"
  shows "{p \<in> ran (ws_upsert_swarm peer sw). ws_eligible peer p} = {p \<in> ran sw. ws_eligible peer p}"
proof -
  have "ws_upsert_swarm peer sw k = sw k" if "k \<noteq> p_ID peer" for k using that by (simp add: ws_upsert_swarm_def)
  moreover have "\<not> ws_eligible peer p" if "ws_upsert_swarm peer sw (p_ID peer) = Some p \<or> sw (p_ID peer) = Some p" for p
    using that assms by (auto simp: ws_eligible_def ws_upsert_swarm_def refresh_peer_def split: option.splits)
  ultimately show ?thesis by (auto simp: ran_def) metis+
qed

end

definition syncWs :: "((string, (string, Peer) Map) Map, (string, Peer) Map) ws_maps" where
  "syncWs = \<lparr>wRoots = MapOps, wPeers = MapOps\<rparr>"

interpretation syncws: ws_tracker syncWs map_ok map_ok
  unfolding ws_tracker_def by (simp add: syncWs_def syncmap.sync_map_axioms)

end
