(* ===== verification/Webtorrent_Correct.thy ===== *)
theory Webtorrent_Correct
  imports Webtorrent Mux_Manager
begin

text \<open>
  The websocket tracker as a map of swarms: what an announce, a closed connection and an answer to a peer
  do to the view of the manager, and the invariant that every operation and the message loop keep.
\<close>

section \<open>The invariant\<close>

text \<open>
  Every shard holds well formed maps with the peers under their identifiers, a torrent is in the shard that
  \<^const>\<open>ws_pickWorker\<close> names, and the closures of the connections refer to torrents that exist.
\<close>

definition ws_inv ::
  "('rm, 'pm) ws_maps \<Rightarrow> ('rm \<Rightarrow> bool) \<Rightarrow> ('pm \<Rightarrow> bool) \<Rightarrow> ('rm, 'f, 'i, 'j) WebsocketMuxManager \<Rightarrow> bool" where
  "ws_inv W rinv pinv s \<longleftrightarrow> ws_ok W rinv pinv s \<and> ws_localList s \<noteq> [] \<and> length (ws_localList s) < 2 ^ 64 \<and>
     (\<forall>i ih. i < length (ws_localList s) \<longrightarrow> ws_view W s i ih \<noteq> None \<longrightarrow> i = shard_of (length (ws_localList s)) ih) \<and>
     (\<forall>c i ih pid. wc_callback (ws_conns s c) = Some (i, ih, pid) \<longrightarrow>
        i = shard_of (length (ws_localList s)) ih \<and> ws_view W s i ih \<noteq> None)"

lemma ws_pickWorker_shard:
  "ws_localList s \<noteq> [] \<Longrightarrow> ws_pickWorker s (UnsafeStringToBytes ih) = Inr (shard_of (length (ws_localList s)) ih)"
  by (simp add: ws_pickWorker_def shard_of_def)

lemma ws_inv_shard:
  assumes "ws_inv W rinv pinv s" and "ws_pickWorker s (UnsafeStringToBytes ih) = Inr i"
  shows "i = shard_of (length (ws_localList s)) ih" and "i < length (ws_localList s)"
  using assms shard_of_less [of "length (ws_localList s)" ih] by (auto simp: ws_inv_def ws_pickWorker_shard)

text \<open>The swarm of a torrent, empty when the torrent is unknown.\<close>

definition ws_swarm :: "('rm, 'pm) ws_maps \<Rightarrow> ('rm, 'f, 'i, 'j) WebsocketMuxManager \<Rightarrow> nat \<Rightarrow> string \<Rightarrow> (string \<rightharpoonup> Peer)" where
  "ws_swarm W s i ih = (case ws_view W s i ih of None \<Rightarrow> Map.empty | Some sw \<Rightarrow> sw)"

definition with_callback :: "conn_id \<Rightarrow> nat \<Rightarrow> string \<Rightarrow> string \<Rightarrow> (conn_id \<Rightarrow> 'j WConn) \<Rightarrow> (conn_id \<Rightarrow> 'j WConn)" where
  "with_callback c i ih pid cs = cs(c := (cs c)\<lparr>wc_callback := Some (i, ih, pid)\<rparr>)"

lemma with_callback_simps [simp]:
  "wc_closed (with_callback c i ih pid cs c') = wc_closed (cs c')"
  "wc_callback (with_callback c i ih pid cs c') = (if c' = c then Some (i, ih, pid) else wc_callback (cs c'))"
  "wc_sent (with_callback c i ih pid cs c') = wc_sent (cs c')"
  by (simp_all add: with_callback_def)

text \<open>The state in which the goroutines of an announce start: the root exists, the callback is registered.\<close>

definition ws_entered :: "('rm, 'pm) ws_maps \<Rightarrow> nat \<Rightarrow> string \<Rightarrow> string \<Rightarrow> conn_id \<Rightarrow> ('rm, 'f, 'i, 'j) WebsocketMuxManager \<Rightarrow> ('rm, 'f, 'i, 'j) WebsocketMuxManager" where
  "ws_entered W i ih pid c s =
     (let s = (case ws_root W i ih s of None \<Rightarrow> ws_set_root W i ih (sm_New (wPeers W)) s | Some _ \<Rightarrow> s)
      in set_conn c ((ws_conns s c)\<lparr>wc_callback := Some (i, ih, pid)\<rparr>) s)"

lemma p_ID_ws_newPeer [simp]: "p_ID (ws_newPeer req now) = r_PeerID req"
  by (simp add: ws_newPeer_def newPeer_def)

context ws_tracker
begin

abbreviation winv :: "('rm, 'f, 'i, 'j) WebsocketMuxManager \<Rightarrow> bool" where
  "winv \<equiv> ws_inv W rinv pinv"

lemma winv_wok: "winv s \<Longrightarrow> wok s"
  by (simp add: ws_inv_def)

lemma winv_view: "winv s \<Longrightarrow> i < length (ws_localList s) \<Longrightarrow> ws_view W s i ih \<noteq> None \<Longrightarrow> i = shard_of (length (ws_localList s)) ih"
  unfolding ws_inv_def by blast

lemma winv_len: "winv s \<Longrightarrow> shard_of (length (ws_localList s)) ih < length (ws_localList s)"
  unfolding ws_inv_def by (rule shard_of_less) auto

lemma winv_cb:
  assumes "winv s" and "wc_callback (ws_conns s c) = Some (i, ih, pid)"
  shows "i = shard_of (length (ws_localList s)) ih" and "ws_view W s i ih \<noteq> None"
  using assms unfolding ws_inv_def by blast+

text \<open>The invariant survives when no shard is lost and torrents only come to their shards.\<close>

lemma winv_step:
  assumes "winv s" and "wok s'" and "length (ws_localList s') = length (ws_localList s)"
    and "\<And>i ih. i < length (ws_localList s) \<Longrightarrow> ws_view W s' i ih \<noteq> None \<Longrightarrow> ws_view W s i ih \<noteq> None \<or> i = shard_of (length (ws_localList s)) ih"
    and "\<And>i ih. i < length (ws_localList s) \<Longrightarrow> ws_view W s i ih \<noteq> None \<Longrightarrow> ws_view W s' i ih \<noteq> None"
    and "\<And>c i ih pid. wc_callback (ws_conns s' c) = Some (i, ih, pid) \<Longrightarrow>
      wc_callback (ws_conns s c) = Some (i, ih, pid) \<or> (i = shard_of (length (ws_localList s)) ih \<and> ws_view W s' i ih \<noteq> None)"
  shows "winv s'"
proof -
  have l: "ws_localList s' \<noteq> []" "length (ws_localList s') < 2 ^ 64" using assms(1,3) by (auto simp: ws_inv_def)
  have v: "i = shard_of (length (ws_localList s)) ih" if "i < length (ws_localList s)" "ws_view W s' i ih \<noteq> None" for i ih
    using assms(4) [OF that] winv_view [OF assms(1) that(1)] by blast
  have c: "i = shard_of (length (ws_localList s)) ih \<and> ws_view W s' i ih \<noteq> None"
    if cb: "wc_callback (ws_conns s' c) = Some (i, ih, pid)" for c i ih pid
  proof (cases "wc_callback (ws_conns s c) = Some (i, ih, pid)")
    case True
    note cb = winv_cb [OF assms(1) this]
    with assms(5) [of i ih] winv_len [OF assms(1), of ih] show ?thesis by blast
  next
    case False
    with assms(6) [OF cb] show ?thesis by blast
  qed
  show ?thesis unfolding ws_inv_def assms(3) using assms(2) l [unfolded assms(3)] v c by blast
qed

lemma winv_callback:
  assumes "winv s" and "wc_callback (ws_conns s c) = Some (i, ih, pid)"
  obtains sw where "i < length (ws_localList s)" and "ws_view W s i ih = Some sw"
  using winv_cb [OF assms] winv_len [OF assms(1), of ih] that by blast

section \<open>Writing and closing\<close>

lemma WriteJSON_frame:
  assumes "WriteJSON wr c v s = (e, s')"
  shows "ws_view W s' = ws_view W s" and "ws_localList s' = ws_localList s" and "ws_ban s' = ws_ban s"
    and "wc_callback (ws_conns s' c') = wc_callback (ws_conns s c')" and "wc_closed (ws_conns s' c') = wc_closed (ws_conns s c')"
    and "wok s' = wok s"
  using assms by (auto simp: WriteJSON_def set_conn_def ws_view_def ws_root_def ws_ok_def fun_eq_iff split: option.splits if_splits)

lemma winv_WriteJSON:
  assumes "winv s" and "WriteJSON wr c v s = (e, s')"
  shows "winv s'"
  using assms(1) WriteJSON_frame [OF assms(2)] by (simp add: ws_inv_def)

lemma ws_Close_closed: "wc_closed (ws_conns (ws_Close W c s) c)"
  by (simp add: ws_Close_def Let_def split: option.split)

lemma ws_Close_conns:
  "ws_conns (ws_Close W c s) = (ws_conns s)(c := (ws_conns s c)\<lparr>wc_closed := True\<rparr>)"
  by (auto simp: ws_Close_def Let_def fun_eq_iff split: option.split)

lemma ws_Close_length: "length (ws_localList (ws_Close W c s)) = length (ws_localList s)"
  by (auto simp: ws_Close_def Let_def split: option.split)

lemma ws_Close_idle:
  assumes "wc_closed (ws_conns s c) \<or> wc_callback (ws_conns s c) = None"
  shows "ws_view W (ws_Close W c s) = ws_view W s" and "wok (ws_Close W c s) = wok s"
  using assms by (auto simp: ws_Close_def)

lemma winv_Close:
  assumes "winv s" shows "winv (ws_Close W c s)"
proof -
  have "wok (ws_Close W c s) \<and> (\<forall>i ih. (ws_view W (ws_Close W c s) i ih \<noteq> None) = (ws_view W s i ih \<noteq> None))"
  proof (cases "wc_closed (ws_conns s c) \<or> wc_callback (ws_conns s c) = None")
    case True
    with assms show ?thesis by (simp add: ws_Close_idle winv_wok)
  next
    case False
    then obtain i ih pid where op: "\<not> wc_closed (ws_conns s c)" and cb: "wc_callback (ws_conns s c) = Some (i, ih, pid)" by auto
    from winv_callback [OF assms cb] obtain sw where "i < length (ws_localList s)" "ws_view W s i ih = Some sw" .
    note spec = ws_Close_spec [OF winv_wok [OF assms] op cb this]
    show ?thesis using spec(1) \<open>ws_view W s i ih = Some sw\<close> by (auto simp: spec(3))
  qed
  then show ?thesis
    by (intro winv_step [OF assms]) (auto simp: ws_Close_length ws_Close_conns split: if_splits)
qed

section \<open>Announces\<close>

lemma ws_entered_spec:
  assumes ok: "wok s" and i: "i < length (ws_localList s)"
  shows "wok (ws_entered W i ih pid c s)" and "length (ws_localList (ws_entered W i ih pid c s)) = length (ws_localList s)"
    and "ws_conns (ws_entered W i ih pid c s) = with_callback c i ih pid (ws_conns s)"
    and "ws_view W (ws_entered W i ih pid c s) i' ih' = (if i' = i \<and> ih' = ih then Some (ws_swarm W s i ih) else ws_view W s i' ih')"
proof -
  have new: "wok (ws_set_root W i ih (sm_New (wPeers W)) s)" for ih
    by (rule wok_set [OF ok i P.minv_New]) (simp add: P.Load_New)
  show "wok (ws_entered W i ih pid c s)" using ok new by (auto simp: ws_entered_def Let_def split: option.split)
  show "length (ws_localList (ws_entered W i ih pid c s)) = length (ws_localList s)"
    by (auto simp: ws_entered_def Let_def split: option.split)
  show "ws_conns (ws_entered W i ih pid c s) = with_callback c i ih pid (ws_conns s)"
    by (auto simp: ws_entered_def Let_def with_callback_def split: option.split)
  show "ws_view W (ws_entered W i ih pid c s) i' ih' = (if i' = i \<and> ih' = ih then Some (ws_swarm W s i ih) else ws_view W s i' ih')"
    by (auto simp: ws_entered_def Let_def ws_root_set [OF ok i] P.Load_New ws_swarm_def ws_view_def split: option.split)
qed

lemma ws_worker_unfold:
  assumes ok: "wok s" and i: "i < length (ws_localList s)" and c: "r_Conn req = Some c"
    and valid: "valid_addresses (ws_newPeer req (we_now env))"
  defines "peer \<equiv> ws_newPeer req (we_now env)" and "ih \<equiv> r_InfoHash req"
  defines "s1 \<equiv> ws_entered W i ih (r_PeerID req) c s"
  shows "ws_worker_HandleAnnouncePeer W env i req s =
    (if ws_view W s i ih = None then
       (Inr [], (ws_set_root W i ih (sm_Store (wPeers W) (sm_New (wPeers W)) (r_PeerID req) peer) s1)\<lparr>ws_events := ws_events s1 @ [(ih, peer)]\<rparr>)
     else if p_Event peer = PeerEvent_Stopped then
       (Inr [], let s2 = ws_Close W c s1 in
          case ws_root W i ih s2 of None \<Rightarrow> s2 | Some pm \<Rightarrow> ws_set_root W i ih (fst (sm_Delete (wPeers W) pm (r_PeerID req))) s2)
     else if we_upsertFirst env then (let s2 = ws_upsert W i ih peer s1 in (Inr (ws_collect W i req peer s2), s2))
     else (Inr (ws_collect W i req peer s1), ws_upsert W i ih peer s1))"
proof -
  note r = wok_rinv [OF ok i]
  have key: "GetKey peer = r_PeerID req" by (simp add: GetKey_def peer_def)
  show ?thesis
  proof (cases "ws_root W i ih s")
    case None
    then have none: "sm_Load (wRoots W) (ws_localList s ! i) (r_InfoHash req) = None" by (simp add: ws_root_def ih_def)
    have s1: "s1 = set_conn c ((ws_conns s c)\<lparr>wc_callback := Some (i, ih, r_PeerID req)\<rparr>) (ws_set_root W i ih (sm_New (wPeers W)) s)"
      by (simp add: s1_def ws_entered_def None)
    show ?thesis
      using None none valid
      by (simp add: ws_worker_HandleAnnouncePeer_def Let_def R.LoadOrStoreLazy [OF r] R.LoadOrStore_new [OF r] c
          P.LoadOrStore_new [OF P.minv_New] P.Load_New key [unfolded peer_def] ws_view_def s1 ws_set_root_def set_conn_def peer_def ih_def)
  next
    case (Some pm)
    then have some: "sm_Load (wRoots W) (ws_localList s ! i) (r_InfoHash req) = Some pm" by (simp add: ws_root_def ih_def)
    have s1: "s1 = set_conn c ((ws_conns s c)\<lparr>wc_callback := Some (i, ih, r_PeerID req)\<rparr>) s" by (simp add: s1_def ws_entered_def Some)
    show ?thesis
      using Some some valid
      by (simp add: ws_worker_HandleAnnouncePeer_def Let_def R.LoadOrStoreLazy [OF r] R.LoadOrStore_old [OF r] c
          key ws_view_def s1 peer_def [symmetric] ih_def [symmetric] cong: option.case_cong)
  qed
qed

text \<open>
  An announce for a new torrent, or of a peer that does not stop: the answer is bounded and eligible,
  the peer is on record, the connection has its callback, under both schedules.
\<close>

lemma ws_running_spec:
  assumes ok: "wok s" and i: "i < length (ws_localList s)" and c: "r_Conn req = Some c"
    and valid: "valid_addresses (ws_newPeer req (we_now env))"
    and run: "ws_view W s i (r_InfoHash req) = None \<or> ParsePeerEvent (r_Event req) \<noteq> PeerEvent_Stopped"
  defines "peer \<equiv> ws_newPeer req (we_now env)" and "ih \<equiv> r_InfoHash req"
  obtains res s' where "ws_worker_HandleAnnouncePeer W env i req s = (Inr res, s')" and "wok s'"
    and "length (ws_localList s') = length (ws_localList s)"
    and "ws_conns s' = with_callback c i ih (r_PeerID req) (ws_conns s)"
    and "\<And>i' ih'. ws_view W s' i' ih' = (if i' = i \<and> ih' = ih then Some (ws_upsert_swarm peer (ws_swarm W s i ih)) else ws_view W s i' ih')"
    and "set res \<subseteq> {p \<in> ran (ws_swarm W s i ih). ws_eligible peer p}" and "distinct (map p_ID res)"
    and "length res = min (nat (r_NumWant req)) (card {p \<in> ran (ws_swarm W s i ih). ws_eligible peer p})"
proof -
  let ?s1 = "ws_entered W i ih (r_PeerID req) c s"
  let ?sw = "ws_swarm W s i ih"
  let ?u = "ws_upsert W i ih peer ?s1"
  note e = ws_entered_spec [OF ok i, of ih "r_PeerID req" c]
  have i1: "i < length (ws_localList ?s1)" using i e(2) by simp
  have v1: "ws_view W ?s1 i (r_InfoHash req) = Some ?sw" "ws_view W ?s1 i ih = Some ?sw"
    using e(4) [of i ih] by (simp_all add: ih_def)
  note u = ws_upsert_spec [OF e(1) i1 v1(2), of peer]
  have i2: "i < length (ws_localList ?u)" using i1 u(4) by simp
  have v2: "ws_view W ?u i (r_InfoHash req) = Some (ws_upsert_swarm peer ?sw)"
    using u(2) [of i ih] by (simp add: ih_def)
  have el: "{p \<in> ran (ws_upsert_swarm peer ?sw). ws_eligible peer p} = {p \<in> ran ?sw. ws_eligible peer p}"
    by (rule ws_eligible_upsert) (rule wok_key [OF e(1) i1 v1(2)])
  note w = ws_worker_unfold [OF ok i c valid, folded peer_def ih_def]
  show thesis
  proof (cases "ws_view W s i ih")
    case None
    let ?pm = "sm_Store (wPeers W) (sm_New (wPeers W)) (r_PeerID req) peer"
    have sw: "?sw = Map.empty" by (simp add: ws_swarm_def None)
    have ld: "sm_Load (wPeers W) ?pm = [r_PeerID req \<mapsto> peer]" by (simp add: P.Load_Store [OF P.minv_New] P.Load_New)
    have id: "p_ID peer = r_PeerID req" by (simp add: peer_def)
    have "wok (ws_set_root W i ih ?pm ?s1)"
      by (rule wok_set [OF e(1) i1]) (simp_all add: P.minv_Store [OF P.minv_New] ld id split: if_splits)
    then show thesis
      by (intro that [of "[]" "(ws_set_root W i ih ?pm ?s1)\<lparr>ws_events := ws_events ?s1 @ [(ih, peer)]\<rparr>"])
        (simp_all add: w None ws_view_set [OF e(1) i1] e sw ld ws_upsert_swarm_def id)
  next
    case (Some sw)
    then have run': "p_Event peer \<noteq> PeerEvent_Stopped" using run by (auto simp: peer_def ih_def ws_newPeer_def newPeer_def)
    show thesis
    proof (cases "we_upsertFirst env")
      case True
      note col = ws_collect_spec [OF u(1) i2 v2, of peer, unfolded el]
      show thesis
        by (rule that [of "ws_collect W i req peer ?u" ?u])
          (simp_all add: w Some run' True Let_def u col e)
    next
      case False
      note col = ws_collect_spec [OF e(1) i1 v1(1), of peer]
      show thesis
        by (rule that [of "ws_collect W i req peer ?s1" ?u])
          (simp_all add: w Some run' False Let_def u col e)
    qed
  qed
qed

text \<open>A peer that stops is removed from the known torrent and its connection is closed.\<close>

lemma ws_stopped_spec:
  assumes ok: "wok s" and i: "i < length (ws_localList s)" and c: "r_Conn req = Some c"
    and valid: "valid_addresses (ws_newPeer req (we_now env))"
    and sw: "ws_view W s i (r_InfoHash req) = Some sw" and stop: "ParsePeerEvent (r_Event req) = PeerEvent_Stopped"
  defines "ih \<equiv> r_InfoHash req"
  obtains s' where "ws_worker_HandleAnnouncePeer W env i req s = (Inr [], s')" and "wok s'"
    and "length (ws_localList s') = length (ws_localList s)"
    and "\<And>c'. wc_callback (ws_conns s' c') = wc_callback (with_callback c i ih (r_PeerID req) (ws_conns s) c')"
    and "\<And>i' ih'. ws_view W s' i' ih' = (if i' = i \<and> ih' = ih then Some (sw(r_PeerID req := None)) else ws_view W s i' ih')"
    and "wc_closed (ws_conns s' c)"
proof -
  let ?s1 = "ws_entered W i ih (r_PeerID req) c s"
  let ?s2 = "ws_Close W c ?s1"
  note e = ws_entered_spec [OF ok i, of ih "r_PeerID req" c]
  have i1: "i < length (ws_localList ?s1)" using i e(2) by simp
  have sw0: "ws_view W s i ih = Some sw" using sw by (simp add: ih_def)
  have v1: "ws_view W ?s1 i' ih' = ws_view W s i' ih'" for i' ih' by (simp add: e(4) ws_swarm_def sw0)
  have cb1: "wc_callback (ws_conns ?s1 c) = Some (i, ih, r_PeerID req)" by (simp add: e(3))
  have s2: "wok ?s2 \<and> (\<exists>sw'. ws_view W ?s2 i ih = Some sw' \<and> sw'(r_PeerID req := None) = sw(r_PeerID req := None)) \<and>
    (\<forall>i' ih'. i' = i \<and> ih' = ih \<or> ws_view W ?s2 i' ih' = ws_view W s i' ih')"
  proof (cases "wc_closed (ws_conns ?s1 c)")
    case True
    with e(1) show ?thesis by (simp add: ws_Close_idle v1 sw0)
  next
    case False
    have "ws_view W ?s1 i ih = Some sw" by (simp add: v1 sw0)
    note cl = ws_Close_spec [OF e(1) False cb1 i1 this]
    show ?thesis using cl(1) by (simp add: cl(3) v1)
  qed
  then obtain sw' where v2: "ws_view W ?s2 i ih = Some sw'" and sw': "sw'(r_PeerID req := None) = sw(r_PeerID req := None)" by blast
  from v2 obtain pm where pm: "ws_root W i ih ?s2 = Some pm" "sw' = sm_Load (wPeers W) pm" by (auto simp: ws_view_def)
  have i2: "i < length (ws_localList ?s2)" using i1 by (simp add: ws_Close_length)
  note d = ws_delete_root [OF conjunct1 [OF s2] i2 pm(1), of "r_PeerID req"]
  have ev: "p_Event (ws_newPeer req (we_now env)) = PeerEvent_Stopped" using stop by (simp add: ws_newPeer_def newPeer_def)
  show thesis
  proof (rule that)
    show "ws_worker_HandleAnnouncePeer W env i req s = (Inr [], ws_set_root W i ih (fst (sm_Delete (wPeers W) pm (r_PeerID req))) ?s2)"
      using pm(1) by (simp add: ws_worker_unfold [OF ok i c valid, folded ih_def] ev sw0)
  qed (use s2 sw' d in \<open>auto simp: pm(2) ws_Close_length e(2,3) ws_Close_conns\<close>)
qed

section \<open>Every operation keeps the invariant\<close>

lemma winv_announce:
  assumes inv: "winv s" and c: "r_Conn req = Some c" and r: "ws_HandleAnnouncePeer W Bl F env req s = (r, s')"
  shows "winv s'"
proof -
  let ?ih = "r_InfoHash req"
  define i where "i = shard_of (length (ws_localList s)) ?ih"
  have i: "i < length (ws_localList s)" using winv_len [OF inv] by (simp add: i_def)
  have pick: "ws_pickWorker s (UnsafeStringToBytes ?ih) = Inr i"
    using inv by (simp add: i_def ws_pickWorker_shard ws_inv_def)
  note ok = winv_wok [OF inv]
  consider "s' = s" | "ws_worker_HandleAnnouncePeer W env i req s = (r, s')" "valid_addresses (ws_newPeer req (we_now env))"
    using r pick by (cases "valid_addresses (ws_newPeer req (we_now env))")
      (auto simp: ws_HandleAnnouncePeer_def ws_worker_HandleAnnouncePeer_def Let_def split: option.splits)
  then show ?thesis
  proof cases
    case 1
    with inv show ?thesis by simp
  next
    case 2
    show ?thesis
    proof (cases "ws_view W s i ?ih = None \<or> ParsePeerEvent (r_Event req) \<noteq> PeerEvent_Stopped")
      case True
      obtain res s1 where w: "ws_worker_HandleAnnouncePeer W env i req s = (Inr res, s1)" "wok s1"
        "length (ws_localList s1) = length (ws_localList s)" "ws_conns s1 = with_callback c i ?ih (r_PeerID req) (ws_conns s)"
        and v: "\<And>i' ih'. ws_view W s1 i' ih' = (if i' = i \<and> ih' = ?ih
          then Some (ws_upsert_swarm (ws_newPeer req (we_now env)) (ws_swarm W s i ?ih)) else ws_view W s i' ih')"
        by (rule ws_running_spec [OF ok i c 2(2) True]) (rule that)
      have "winv s1" using w(2,3) by (rule winv_step [OF inv]) (auto simp: v w(4) i_def split: if_splits)
      then show ?thesis using 2(1) w(1) by simp
    next
      case False
      then obtain sw where "ws_view W s i ?ih = Some sw" "ParsePeerEvent (r_Event req) = PeerEvent_Stopped" by auto
      then obtain s1 where w: "ws_worker_HandleAnnouncePeer W env i req s = (Inr [], s1)" "wok s1"
        "length (ws_localList s1) = length (ws_localList s)"
        and cb: "\<And>c'. wc_callback (ws_conns s1 c') = wc_callback (with_callback c i ?ih (r_PeerID req) (ws_conns s) c')"
        and v: "\<And>i' ih'. ws_view W s1 i' ih' = (if i' = i \<and> ih' = ?ih then Some (sw(r_PeerID req := None)) else ws_view W s i' ih')"
        by (rule ws_stopped_spec [OF ok i c 2(2)]) (rule that)
      have "winv s1" using w(2,3) by (rule winv_step [OF inv]) (auto simp: v cb i_def split: if_splits)
      then show ?thesis using 2(1) w(1) by simp
    qed
  qed
qed

lemma winv_AnswerToPeer:
  assumes inv: "winv s" and r: "ws_AnswerToPeer W wr ih pid body s = (r, s')"
  shows "winv s'"
proof -
  let ?i = "shard_of (length (ws_localList s)) ih"
  have pick: "ws_pickWorker s (UnsafeStringToBytes ih) = Inr ?i" using inv by (simp add: ws_pickWorker_shard ws_inv_def)
  show ?thesis
  proof (cases "s' = s \<or> (\<exists>c v e. WriteJSON wr c v s = (e, s'))")
    case True
    with inv winv_WriteJSON show ?thesis by blast
  next
    case False
    obtain pm peer c v e s1 where pm: "ws_root W ?i ih s = Some pm" "sm_Load (wPeers W) pm pid = Some peer"
      and w: "WriteJSON wr c v s = (e, s1)" and s': "s' = ws_set_root W ?i ih (sm_Store (wPeers W) pm pid (peer\<lparr>p_Conn := None\<rparr>)) s1"
      using r pick False
      by (auto simp: ws_AnswerToPeer_def ws_worker_AnswerToPeer_def Let_def split: option.splits prod.splits if_splits)
    have inv1: "winv s1" by (rule winv_WriteJSON [OF inv w])
    have l: "length (ws_localList s1) = length (ws_localList s)" and v1: "ws_view W s1 = ws_view W s"
      using WriteJSON_frame(1,2) [OF w] by simp_all
    have i1: "?i < length (ws_localList s1)" using winv_len [OF inv] by (simp add: l)
    have i0: "?i < length (ws_localList s)" by (rule winv_len [OF inv])
    have pi: "pinv pm" by (rule wok_pinv [OF winv_wok [OF inv] i0 pm(1)])
    have keys: "\<forall>k p. sm_Load (wPeers W) pm k = Some p \<longrightarrow> p_ID p = k"
      using winv_wok [OF inv] i0 pm(1) by (simp add: ws_ok_def)
    have ok: "wok s'" unfolding s'
      by (rule wok_set [OF winv_wok [OF inv1] i1]) (use keys pm(2) in \<open>simp_all add: P.minv_Store [OF pi] P.Load_Store [OF pi]\<close>)
    have vw: "ws_view W s ?i ih \<noteq> None" by (simp add: ws_view_def pm(1))
    have "winv s'"
      by (rule winv_step [OF inv1 ok]) (auto simp: s' ws_view_set [OF winv_wok [OF inv1] i1] l split: if_splits)
    then show ?thesis .
  qed
qed

lemma winv_sendOffer: "winv s \<Longrightarrow> winv (sendOffer X wr to off ih pid s)"
  by (auto simp: sendOffer_def split: option.split intro: winv_WriteJSON [OF _ surjective_pairing])

lemma winv_send_offers: "winv s \<Longrightarrow> winv (send_offers X env req own n ps s)"
  by (induction ps arbitrary: n s) (simp_all add: Let_def winv_sendOffer)

lemma ws_request_conn: "ws_request X h conn u = Inr req \<Longrightarrow> r_Conn req = Some conn"
  by (auto simp: ws_request_def Let_def split: sum.splits if_splits)

lemma winv_handleWSAnnounce:
  assumes "winv s" and "wd_maps X = W" and "handleWSAnnounce X env h conn msg (s, c) = (e, s', c')"
  shows "winv s'"
  using assms(1,3)
  by (auto simp: handleWSAnnounce_def assms(2) split: sum.splits prod.splits option.splits if_splits
      intro: winv_announce [OF _ ws_request_conn] winv_WriteJSON winv_send_offers)

lemma winv_handleWSAnswer:
  assumes "winv s" and "wd_maps X = W" and "handleWSAnswer X env msg (s, c) = (e, s', c')"
  shows "winv s'"
  using assms(1,3)
  by (auto simp: handleWSAnswer_def Let_def assms(2) split: sum.splits prod.splits if_splits intro: winv_AnswerToPeer)

lemma ws_scrape_loop_state: "ws_scrape_loop X ihs ret (s, c) = (r, s', c') \<Longrightarrow> s' = s"
  by (induction ihs arbitrary: ret c) (auto split: sum.splits prod.splits)

lemma winv_handleWSScrape:
  assumes "winv s" and "handleWSScrape X env conn msg (s, c) = (e, s', c')"
  shows "winv s'"
  using assms
  by (auto simp: handleWSScrape_def Let_def split: sum.splits prod.splits if_splits dest: ws_scrape_loop_state intro: winv_WriteJSON)

lemma winv_ResponseErr: "winv s \<Longrightarrow> winv (webtorrent_ResponseErr wr c e s)"
  unfolding webtorrent_ResponseErr_def by (rule winv_WriteJSON [OF _ surjective_pairing])

lemma winv_handle_message:
  assumes inv: "winv s" and X: "wd_maps X = W" and h: "handle_message X env h conn msg (s, c) = (b, s', c')"
  shows "winv s'"
proof -
  have answer: "winv (fst (snd (handleWSAnswer X env msg (s, c))))"
    by (rule winv_handleWSAnswer [OF inv X, of env msg c "fst (handleWSAnswer X env msg (s, c))" _ "snd (snd (handleWSAnswer X env msg (s, c)))"]) simp
  show ?thesis
    using h answer inv
    by (auto simp: handle_message_def Let_def X split: sum.splits prod.splits option.splits if_splits
        intro!: winv_Close winv_ResponseErr intro: winv_handleWSAnnounce [OF inv X] winv_handleWSScrape)
qed

lemma winv_session:
  assumes "winv s" and "wd_maps X = W" and "HandleWebTorrent X h conn msgs (s, c) = (s', c')"
  shows "winv s'" and "wc_closed (ws_conns s' conn)"
proof -
  have "winv s' \<and> wc_closed (ws_conns s' conn)"
    using assms(1,3)
  proof (induction msgs arbitrary: s c)
    case Nil
    then show ?case by (auto simp: winv_Close ws_Close_closed assms(2))
  next
    case (Cons m msgs)
    obtain env msg where m: "m = (env, msg)" by fastforce
    obtain b s1 c1 where h: "handle_message X env h conn msg (s, c) = (b, s1, c1)" by (metis prod_cases3)
    have "winv s1" by (rule winv_handle_message [OF Cons.prems(1) assms(2) h])
    with Cons h show ?case by (cases b) (auto simp: m winv_Close ws_Close_closed assms(2))
  qed
  then show "winv s'" "wc_closed (ws_conns s' conn)" by simp_all
qed

lemma winv_new:
  assumes "NewWSMuxLocalManager W (Inr b) num = Inr s" and "0 < num" and "num < 2 ^ 64"
  shows "winv s"
proof -
  have s: "s = \<lparr>ws_localList = replicate (nat num) (sm_New (wRoots W)), ws_conns = (\<lambda>_. NewConn), ws_events = [], ws_ban = b\<rparr>"
    using assms(1) by (simp add: NewWSMuxLocalManager_def)
  show ?thesis using assms(2,3)
    by (auto simp: s ws_inv_def ws_ok_def ws_view_def ws_root_def R.minv_New R.Load_New NewConn_def nat_less_iff)
qed

end

section \<open>All torrents as one map\<close>

definition ws_torrents :: "('rm, 'pm) ws_maps \<Rightarrow> ('rm, 'f, 'i, 'j) WebsocketMuxManager \<Rightarrow> string \<rightharpoonup> (string \<rightharpoonup> Peer)" where
  "ws_torrents W s ih = ws_view W s (shard_of (length (ws_localList s)) ih) ih"

definition ws_torrent :: "('rm, 'pm) ws_maps \<Rightarrow> ('rm, 'f, 'i, 'j) WebsocketMuxManager \<Rightarrow> string \<Rightarrow> (string \<rightharpoonup> Peer)" where
  "ws_torrent W s ih = (case ws_torrents W s ih of None \<Rightarrow> Map.empty | Some sw \<Rightarrow> sw)"

lemma ws_announce_success:
  assumes "ws_HandleAnnouncePeer W Bl F env req s = (Inr res, s')"
  obtains i c where "ws_pickWorker s (UnsafeStringToBytes (r_InfoHash req)) = Inr i"
    and "ws_worker_HandleAnnouncePeer W env i req s = (Inr res, s')"
    and "valid_addresses (ws_newPeer req (we_now env))" and "r_Conn req = Some c"
proof -
  obtain i where i: "ws_pickWorker s (UnsafeStringToBytes (r_InfoHash req)) = Inr i"
    and w: "ws_worker_HandleAnnouncePeer W env i req s = (Inr res, s')"
    using assms by (auto simp: ws_HandleAnnouncePeer_def split: option.splits sum.splits)
  then have "valid_addresses (ws_newPeer req (we_now env)) \<and> r_Conn req \<noteq> None"
    by (auto simp: ws_worker_HandleAnnouncePeer_def Let_def split: if_splits option.splits prod.splits)
  with i w that show thesis by auto
qed

context ws_tracker
begin

lemma ws_announce_spec:
  assumes inv: "winv s" and ref: "ws_refusal Bl F req (ws_ban s) = None" and c: "r_Conn req = Some c"
    and valid: "valid_addresses (ws_newPeer req (we_now env))"
    and run: "ws_torrents W s (r_InfoHash req) = None \<or> ParsePeerEvent (r_Event req) \<noteq> PeerEvent_Stopped"
  defines "peer \<equiv> ws_newPeer req (we_now env)" and "ih \<equiv> r_InfoHash req"
  defines "sw \<equiv> ws_torrent W s ih"
  obtains res s' where "ws_HandleAnnouncePeer W Bl F env req s = (Inr res, s')" and "winv s'"
    and "ws_torrents W s' = (ws_torrents W s)(ih \<mapsto> ws_upsert_swarm peer sw)"
    and "ws_conns s' = with_callback c (shard_of (length (ws_localList s)) ih) ih (r_PeerID req) (ws_conns s)"
    and "length (ws_localList s') = length (ws_localList s)"
    and "set res \<subseteq> {p \<in> ran sw. ws_eligible peer p}" and "distinct (map p_ID res)"
    and "length res = min (nat (r_NumWant req)) (card {p \<in> ran sw. ws_eligible peer p})"
proof -
  let ?i = "shard_of (length (ws_localList s)) ih"
  have i: "?i < length (ws_localList s)" by (rule winv_len [OF inv])
  have sw: "ws_swarm W s ?i ih = sw" by (simp add: sw_def ws_swarm_def ws_torrent_def ws_torrents_def)
  have run': "ws_view W s ?i (r_InfoHash req) = None \<or> ParsePeerEvent (r_Event req) \<noteq> PeerEvent_Stopped"
    using run by (simp add: ws_torrents_def ih_def)
  obtain res s' where w: "ws_worker_HandleAnnouncePeer W env ?i req s = (Inr res, s')"
    and l: "length (ws_localList s') = length (ws_localList s)"
    and cs: "ws_conns s' = with_callback c ?i ih (r_PeerID req) (ws_conns s)"
    and v: "\<And>i' ih'. ws_view W s' i' ih' = (if i' = ?i \<and> ih' = ih then Some (ws_upsert_swarm peer sw) else ws_view W s i' ih')"
    and res: "set res \<subseteq> {p \<in> ran sw. ws_eligible peer p}" "distinct (map p_ID res)"
      "length res = min (nat (r_NumWant req)) (card {p \<in> ran sw. ws_eligible peer p})"
    by (rule ws_running_spec [OF winv_wok [OF inv] i c valid run', folded peer_def ih_def, unfolded sw]) (rule that)
  have h: "ws_HandleAnnouncePeer W Bl F env req s = (Inr res, s')"
    using inv ref w by (simp add: ws_HandleAnnouncePeer_def ws_pickWorker_shard ws_inv_def ih_def)
  show thesis
    by (rule that [OF h winv_announce [OF inv c h] _ cs l res]) (auto simp: ws_torrents_def l v fun_eq_iff)
qed

lemma ws_close_torrents:
  assumes inv: "winv s" and op: "\<not> wc_closed (ws_conns s c)" and cb: "wc_callback (ws_conns s c) = Some (i, ih, pid)"
  shows "ws_torrents W (ws_Close W c s) = (ws_torrents W s)(ih \<mapsto> (ws_torrent W s ih)(pid := None))"
proof -
  note c = winv_cb [OF inv cb]
  from winv_callback [OF inv cb] obtain sw where i: "i < length (ws_localList s)" and sw: "ws_view W s i ih = Some sw" .
  note cl = ws_Close_spec [OF winv_wok [OF inv] op cb i sw]
  show ?thesis using sw c(1) by (auto simp: ws_torrents_def ws_torrent_def ws_Close_length cl(3) fun_eq_iff)
qed

lemma ws_Scrape_single:
  assumes inv: "winv s" and t: "ws_torrents W s ih = Some [k \<mapsto> p]" and "\<not> redis_Enable (c_Cache cfg)"
  shows "ws_Scrape W cfg Client codec ih s c = (Inr (scrapeFile_of (count_peer zeroCounters p)), c)"
proof -
  let ?i = "shard_of (length (ws_localList s)) ih"
  from t obtain pm where pm: "ws_root W ?i ih s = Some pm" and ld: "sm_Load (wPeers W) pm = [k \<mapsto> p]"
    by (auto simp: ws_torrents_def ws_view_def)
  have pi: "pinv pm" by (rule wok_pinv [OF winv_wok [OF inv] winv_len [OF inv] pm])
  have "set (sm_Range (wPeers W) pm) = {(k, p)}" using P.set_Range [OF pi] by (auto simp: ld split: if_splits)
  moreover have "distinct (sm_Range (wPeers W) pm)" using P.Range_distinct [OF pi] by (simp add: distinct_map)
  ultimately have "sm_Range (wPeers W) pm = [(k, p)]"
    by (metis distinct.simps(2) distinct_card card.empty card.insert empty_iff finite.emptyI length_0_conv length_Suc_conv
        list.set_intros(1) singletonD One_nat_def)
  then show ?thesis using inv assms(3) pm
    by (simp add: ws_Scrape_def ws_pickWorker_shard ws_inv_def ws_worker_Scrape_def Let_def)
qed

end

end
