(* ===== verification/Admin.thy ===== *)
theory Admin
  imports Http_Server
begin

text \<open>
  The administration interface: the handlers of \<^verbatim>\<open>biz/handler/admin.go\<close>, the routes of \<^verbatim>\<open>biz/router/admin.go\<close> and
  the authorisation of \<^verbatim>\<open>biz/middleware/admin.go\<close>. The conversion from UTF-8 to ISO 8859-1
  (\<^verbatim>\<open>utils/conv/string.go\<close>) is that of a library, a parameter \<open>latin1\<close> on byte sequences.
\<close>

section \<open>Handlers\<close>

definition TransUTF8To8859_1 :: "(bytes \<Rightarrow> bytes) \<Rightarrow> string \<Rightarrow> string" where
  "TransUTF8To8859_1 latin1 s = UnsafeBytesToString (latin1 (UnsafeStringToBytes s))"

text \<open>The loop that all list handlers share: it stops at the first error.\<close>

fun for_each :: "(nat \<Rightarrow> 'e) \<Rightarrow> ('e \<Rightarrow> string \<Rightarrow> 's \<Rightarrow> unit result \<times> 's) \<Rightarrow> nat \<Rightarrow> string list \<Rightarrow> 's \<Rightarrow> unit result \<times> 's" where
  "for_each call f n [] s = (Inr (), s)"
| "for_each call f n (x # xs) s =
     (case f (call n) x s of
        (Inl e, s') \<Rightarrow> (Inl e, s')
      | (Inr _, s') \<Rightarrow> for_each call f (Suc n) xs s')"

definition list_handler ::
  "(nat \<Rightarrow> 'e) \<Rightarrow> ('e \<Rightarrow> string \<Rightarrow> 's \<Rightarrow> unit result \<times> 's) \<Rightarrow> string \<Rightarrow> string list result \<Rightarrow> 's \<Rightarrow> commonResponse \<times> 's" where
  "list_handler call f done bound s =
     (case bound of
        Inl e \<Rightarrow> (ResponseBadRequest, s)
      | Inr xs \<Rightarrow>
          if xs = [] then (ResponseBadRequest, s)
          else (case for_each call f 0 xs s of
             (Inl e, s') \<Rightarrow> (ResponseErr e, s')
           | (Inr _, s') \<Rightarrow> (ResponseOK (JString (Itoa (int (length xs)) @ done)), s')))"

definition HandleBanInfoHash ::
  "('e, 's) PeerManager \<Rightarrow> (bytes \<Rightarrow> bytes) \<Rightarrow> (nat \<Rightarrow> 'e) \<Rightarrow> string list result \<Rightarrow> 's \<Rightarrow> commonResponse \<times> 's" where
  "HandleBanInfoHash P latin1 call bound s =
     list_handler call (\<lambda>e ih. pm_BanInfoHash P e (TransUTF8To8859_1 latin1 ih)) '' info hash banned'' bound s"

definition HandleBanPeer ::
  "('e, 's) PeerManager \<Rightarrow> (bytes \<Rightarrow> bytes) \<Rightarrow> (nat \<Rightarrow> 'e) \<Rightarrow> string list result \<Rightarrow> 's \<Rightarrow> commonResponse \<times> 's" where
  "HandleBanPeer P latin1 call bound s =
     list_handler call (\<lambda>e pid. pm_BanPeer P e (TransUTF8To8859_1 latin1 pid)) '' peer banned'' bound s"

definition HandleClearBanInfoHash :: "('e, 's) PeerManager \<Rightarrow> (nat \<Rightarrow> 'e) \<Rightarrow> 's \<Rightarrow> commonResponse \<times> 's" where
  "HandleClearBanInfoHash P call s =
     (ResponseOK (JString ''all info hash bans cleared''), pm_ClearBanInfoHash P (call 0) s)"

definition HandleClearBanPeer :: "('e, 's) PeerManager \<Rightarrow> (nat \<Rightarrow> 'e) \<Rightarrow> 's \<Rightarrow> commonResponse \<times> 's" where
  "HandleClearBanPeer P call s =
     (ResponseOK (JString ''all peer bans cleared''), pm_ClearBanPeer P (call 0) s)"

text \<open>\<^verbatim>\<open>BindAndValidate\<close> refuses an empty info hash.\<close>

definition GetInfoHashPeers ::
  "('e, 's) PeerManager \<Rightarrow> (nat \<Rightarrow> 'e) \<Rightarrow> string \<Rightarrow> 's \<Rightarrow> commonResponse" where
  "GetInfoHashPeers P call ih s =
     (if length ih = 0 then ResponseBadRequest
      else case pm_GetPeers P (call 0) ih s of
        Inl e \<Rightarrow> ResponseErr e
      | Inr peers \<Rightarrow> ResponseOK (JPeers peers))"

definition HandleDeleteInfoHash ::
  "('e, 's) PeerManager \<Rightarrow> (nat \<Rightarrow> 'e) \<Rightarrow> string \<Rightarrow> 's \<Rightarrow> commonResponse \<times> 's" where
  "HandleDeleteInfoHash P call ih s =
     (if length ih = 0 then (ResponseBadRequest, s)
      else case pm_DeleteInfoHash P (call 0) ih s of
        (Inl e, s') \<Rightarrow> (ResponseErr e, s')
      | (Inr _, s') \<Rightarrow> (ResponseOK JNull, s'))"

definition HandleBanIP ::
  "('e, 's) PeerManager \<Rightarrow> (nat \<Rightarrow> 'e) \<Rightarrow> string list result \<Rightarrow> 's \<Rightarrow> commonResponse \<times> 's" where
  "HandleBanIP P call bound s = list_handler call (pm_BanIP P) '' IP(s) banned'' bound s"

definition HandleUnbanIP ::
  "('e, 's) PeerManager \<Rightarrow> (nat \<Rightarrow> 'e) \<Rightarrow> string list result \<Rightarrow> 's \<Rightarrow> commonResponse \<times> 's" where
  "HandleUnbanIP P call bound s = list_handler call (pm_UnbanIP P) '' IP(s) unbanned'' bound s"

definition HandleClearBanIP :: "('e, 's) PeerManager \<Rightarrow> (nat \<Rightarrow> 'e) \<Rightarrow> 's \<Rightarrow> commonResponse \<times> 's" where
  "HandleClearBanIP P call s =
     (case pm_ClearBanIP P (call 0) s of
        (Inl e, s') \<Rightarrow> (ResponseErr e, s')
      | (Inr _, s') \<Rightarrow> (ResponseOK (JString ''all IP bans cleared''), s'))"

definition HandleGetIPFilterStats :: "('e, 's) PeerManager \<Rightarrow> (nat \<Rightarrow> 'e) \<Rightarrow> 's \<Rightarrow> commonResponse" where
  "HandleGetIPFilterStats P call s =
     (case pm_GetIPFilterStats P (call 0) s of
        None \<Rightarrow> ResponseErr ''IP filter not available''
      | Some stats \<Rightarrow> ResponseOK (JFilterStats stats))"

section \<open>Routes and authorisation\<close>

text \<open>A request of the group \<^verbatim>\<open>admin\<close>: the method, the path below the group, and the bound list.\<close>

record admin_request =
  ar_Method :: string
  ar_Path :: "string list"
  ar_Bound :: "string list result"
  ar_Authorization :: string

definition admin_route ::
  "('e, 's) PeerManager \<Rightarrow> (bytes \<Rightarrow> bytes) \<Rightarrow> 'e http_env \<Rightarrow> admin_request \<Rightarrow> 's \<Rightarrow> commonResponse option \<times> 's" where
  "admin_route P latin1 env q s =
     (let m = ar_Method q; p = ar_Path q; call = he_call env; some = (\<lambda>(r, s'). (Some r, s')) in
      if m = ''GET'' \<and> p = [''statistic''] then (Some (http_Statistic P env s), s)
      else if m = ''PUT'' \<and> p = [''ban'', ''info_hash''] then some (HandleBanInfoHash P latin1 call (ar_Bound q) s)
      else if m = ''PUT'' \<and> p = [''ban'', ''peer''] then some (HandleBanPeer P latin1 call (ar_Bound q) s)
      else if m = ''DELETE'' \<and> p = [''ban'', ''info_hash''] then some (HandleClearBanInfoHash P call s)
      else if m = ''DELETE'' \<and> p = [''ban'', ''peer''] then some (HandleClearBanPeer P call s)
      else if m = ''PUT'' \<and> p = [''ban'', ''ip''] then some (HandleBanIP P call (ar_Bound q) s)
      else if m = ''DELETE'' \<and> p = [''ban'', ''ip''] then some (HandleUnbanIP P call (ar_Bound q) s)
      else if m = ''DELETE'' \<and> p = [''clear'', ''ip'', ''ban''] then some (HandleClearBanIP P call s)
      else if m = ''GET'' \<and> p = [''ip'', ''filter'', ''stats''] then (Some (HandleGetIPFilterStats P call s), s)
      else case p of
        [a, ih] \<Rightarrow> if m = ''DELETE'' \<and> a = ''info_hash'' then some (HandleDeleteInfoHash P call ih s) else (None, s)
      | [a, ih, b] \<Rightarrow>
          if m = ''GET'' \<and> a = ''info_hash'' \<and> b = ''peers'' then (Some (GetInfoHashPeers P call ih s), s) else (None, s)
      | _ \<Rightarrow> (None, s))"

text \<open>\<^verbatim>\<open>GetAdminAuthMiddleware\<close>: with a key in the environment, the handler runs for its bearer only.\<close>

definition admin_auth ::
  "string \<Rightarrow> (admin_request \<Rightarrow> 's \<Rightarrow> commonResponse option \<times> 's) \<Rightarrow> admin_request \<Rightarrow> 's \<Rightarrow>
   commonResponse option \<times> 's" where
  "admin_auth key next q s =
     (if key \<noteq> [] then
        (let expectedHeader = ''Bearer '' @ key in
         if ar_Authorization q \<noteq> expectedHeader then (Some ResponseUnauthorized, s) else next q s)
      else next q s)"

definition admin_server ::
  "string \<Rightarrow> ('e, 's) PeerManager \<Rightarrow> (bytes \<Rightarrow> bytes) \<Rightarrow> 'e http_env \<Rightarrow> admin_request \<Rightarrow> 's \<Rightarrow>
   commonResponse option \<times> 's" where
  "admin_server key P latin1 env q s = admin_auth key (admin_route P latin1 env) q s"

section \<open>Lists\<close>

text \<open>A list operation that succeeds on the way handles the items in order; the first error ends it.\<close>

lemma for_each_append:
  "for_each call f n (xs @ ys) s =
     (case for_each call f n xs s of
        (Inl e, s') \<Rightarrow> (Inl e, s')
      | (Inr _, s') \<Rightarrow> for_each call f (n + length xs) ys s')"
  by (induction call f n xs s rule: for_each.induct) (auto split: prod.splits sum.splits)

lemma for_each_invariant:
  assumes "I s" and "\<And>n x s. x \<in> set xs \<Longrightarrow> I s \<Longrightarrow> I (snd (f (call n) x s))"
  shows "I (snd (for_each call f n xs s))"
  using assms
  by (induction xs arbitrary: n s) (auto split: prod.splits sum.splits, (metis snd_conv)+)

lemma for_each_all:
  assumes "for_each call f n xs s = (Inr (), s')" and "x \<in> set xs"
    and keep: "\<And>n x y s. J y s \<Longrightarrow> J y (snd (f (call n) x s))"
    and est: "\<And>n x s s'. f (call n) x s = (Inr (), s') \<Longrightarrow> J x s'"
  shows "J x s'"
  using assms(1,2)
proof (induction xs arbitrary: n s)
  case (Cons y xs)
  from Cons.prems(1) obtain s1 where f: "f (call n) y s = (Inr (), s1)" and rest: "for_each call f (Suc n) xs s1 = (Inr (), s')"
    by (auto split: prod.splits sum.splits)
  show ?case
  proof (cases "x \<in> set xs")
    case True
    then show ?thesis by (rule Cons.IH [OF rest])
  next
    case False
    then have "J x s1" using Cons.prems(2) est [OF f] by simp
    then have "J x (snd (for_each call f (Suc n) xs s1))" by (rule for_each_invariant) (rule keep)
    then show ?thesis by (simp add: rest)
  qed
qed simp

end
