(* ===== verification/Rpc_Manager.thy ===== *)
theory Rpc_Manager
  imports Peer_Manager
begin

text \<open>
  The manager that forwards to a remote tracker, \<^verbatim>\<open>biz/services/peer/rpc/client.go\<close> and \<^verbatim>\<open>dummy.go\<close>, and the
  server it talks to, \<^verbatim>\<open>biz/services/rpc/handler.go\<close>. The generated client is a record of calls over the
  state \<open>'w\<close> of whatever is behind it, the generated server calls the handlers below. A call may fail.
  \<open>loopback\<close> is the client whose calls reach a server with a manager of its own, undisturbed.
\<close>

section \<open>The service\<close>

record trunker_ScrapeFile =
  tf_Complete :: int
  tf_Downloaded :: int
  tf_Incomplete :: int
  tf_Seeder :: int

datatype trunker_StatisticInfo =
  TrunkerStatisticInfo (t_TotalPeers: int64) (t_TotalTorrents: int64) (t_Shards: "(string \<times> trunker_StatisticInfo) list")

datatype trunker_BanType = BanType_InfoHash | BanType_PeerID | BanType_Other idl_enum

record ('e, 'w) trunkerservice_Client =
  tc_Announce :: "'e \<Rightarrow> trunker_AnnounceRequest \<Rightarrow> 'w \<Rightarrow> trunker_Peer list result \<times> 'w"
  tc_Scrape :: "'e \<Rightarrow> string list \<Rightarrow> 'w \<Rightarrow> (string \<rightharpoonup> trunker_ScrapeFile) result \<times> 'w"
  tc_GetStatistic :: "'e \<Rightarrow> 'w \<Rightarrow> trunker_StatisticInfo result"
  tc_Ban :: "'e \<Rightarrow> trunker_BanType \<Rightarrow> string \<Rightarrow> 'w \<Rightarrow> unit result \<times> 'w"
  tc_DeleteInfoHash :: "'e \<Rightarrow> string \<Rightarrow> 'w \<Rightarrow> unit result \<times> 'w"
  tc_GetPeer :: "'e \<Rightarrow> string \<Rightarrow> 'w \<Rightarrow> trunker_Peer list result"

section \<open>The client side\<close>

definition rpc_HandleAnnouncePeer ::
  "('e, 'w) trunkerservice_Client \<Rightarrow> 'e \<Rightarrow> AnnounceRequest \<Rightarrow> 'w \<Rightarrow> Peer list result \<times> 'w" where
  "rpc_HandleAnnouncePeer c e req w =
     (case tc_Announce c e (announceRequestCommonToIDL req) w of
        (Inl err, w') \<Rightarrow> (Inl err, w')
      | (Inr peers, w') \<Rightarrow> (Inr (map PeerIDLToCommon peers), w'))"

text \<open>An answer without the info hash is a nil pointer.\<close>

definition rpc_Scrape ::
  "('e, 'w) trunkerservice_Client \<Rightarrow> 'e \<Rightarrow> string \<Rightarrow> 'w \<Rightarrow> ScrapeFile result \<times> 'w" where
  "rpc_Scrape c e ih w =
     (case tc_Scrape c e [ih] w of
        (Inl err, w') \<Rightarrow> (Inl err, w')
      | (Inr res, w') \<Rightarrow>
          (case res ih of
             None \<Rightarrow> (Inl ''nil pointer dereference'', w')
           | Some f \<Rightarrow> (Inr \<lparr>sf_Seeder = tf_Seeder f, sf_Complete = tf_Complete f, sf_Incomplete = tf_Incomplete f,
                            sf_Downloaded = tf_Downloaded f\<rparr>, w')))"

definition rpc_GetStatistic :: "('e, 'w) trunkerservice_Client \<Rightarrow> 'e \<Rightarrow> 'w \<Rightarrow> StatisticInfo result" where
  "rpc_GetStatistic c e w =
     (case tc_GetStatistic c e w of
        Inl err \<Rightarrow> Inl err
      | Inr info \<Rightarrow> Inr (StatisticInfo (t_TotalPeers info) (t_TotalTorrents info)
          (map (\<lambda>(k, shard). (k, StatisticInfo (t_TotalPeers shard) (t_TotalTorrents shard) [])) (t_Shards info))))"

definition rpc_BanInfoHash :: "('e, 'w) trunkerservice_Client \<Rightarrow> 'e \<Rightarrow> string \<Rightarrow> 'w \<Rightarrow> unit result \<times> 'w" where
  "rpc_BanInfoHash c e ih w = tc_Ban c e BanType_InfoHash ih w"

definition rpc_BanPeer :: "('e, 'w) trunkerservice_Client \<Rightarrow> 'e \<Rightarrow> string \<Rightarrow> 'w \<Rightarrow> unit result \<times> 'w" where
  "rpc_BanPeer c e peerID w = tc_Ban c e BanType_PeerID peerID w"

definition rpc_GetPeers :: "('e, 'w) trunkerservice_Client \<Rightarrow> 'e \<Rightarrow> string \<Rightarrow> 'w \<Rightarrow> Peer list result" where
  "rpc_GetPeers c e ih w =
     (case tc_GetPeer c e ih w of Inl err \<Rightarrow> Inl err | Inr peers \<Rightarrow> Inr (map PeerIDLToCommon peers))"

definition rpc_DeleteInfoHash :: "('e, 'w) trunkerservice_Client \<Rightarrow> 'e \<Rightarrow> string \<Rightarrow> 'w \<Rightarrow> unit result \<times> 'w" where
  "rpc_DeleteInfoHash c e ih w = tc_DeleteInfoHash c e ih w"

definition ErrNotSupportedInRPCMode :: error where
  "ErrNotSupportedInRPCMode = ''this operation is not supported in RPC mode, configure on remote server''"

definition rpc_BanIP :: "string \<Rightarrow> 'w \<Rightarrow> unit result \<times> 'w" where
  "rpc_BanIP ip w = (Inl ErrNotSupportedInRPCMode, w)"

definition rpc_UnbanIP :: "string \<Rightarrow> 'w \<Rightarrow> unit result \<times> 'w" where
  "rpc_UnbanIP ip w = (Inl ErrNotSupportedInRPCMode, w)"

definition rpc_ClearBanIP :: "'w \<Rightarrow> unit result \<times> 'w" where
  "rpc_ClearBanIP w = (Inl ErrNotSupportedInRPCMode, w)"

definition rpc_GetIPFilterStats :: "'w \<Rightarrow> IPFilterStats option" where
  "rpc_GetIPFilterStats w = None"

definition rpc_Clean :: "'w \<Rightarrow> int \<times> 'w" where
  "rpc_Clean w = (0, w)"

definition rpc_LoadFromPersist :: "'w \<Rightarrow> 'w result" where
  "rpc_LoadFromPersist w = Inr w"

definition rpc_StoreToPersist :: "'w \<Rightarrow> (string \<times> bytes) list" where
  "rpc_StoreToPersist w = []"

definition rpc_ClearBanInfoHash :: "'w \<Rightarrow> 'w" where
  "rpc_ClearBanInfoHash w = w"

definition rpc_ClearBanPeer :: "'w \<Rightarrow> 'w" where
  "rpc_ClearBanPeer w = w"

definition rpc_PeerManager :: "('e, 'w) trunkerservice_Client \<Rightarrow> ('e, 'w) PeerManager" where
  "rpc_PeerManager c = \<lparr>
     pm_HandleAnnouncePeer = rpc_HandleAnnouncePeer c,
     pm_Scrape = rpc_Scrape c,
     pm_Clean = (\<lambda>e. rpc_Clean),
     pm_LoadFromPersist = (\<lambda>e. rpc_LoadFromPersist),
     pm_StoreToPersist = (\<lambda>e. rpc_StoreToPersist),
     pm_GetStatistic = rpc_GetStatistic c,
     pm_BanInfoHash = rpc_BanInfoHash c,
     pm_BanPeer = rpc_BanPeer c,
     pm_ClearBanInfoHash = (\<lambda>e. rpc_ClearBanInfoHash),
     pm_ClearBanPeer = (\<lambda>e. rpc_ClearBanPeer),
     pm_GetPeers = rpc_GetPeers c,
     pm_DeleteInfoHash = rpc_DeleteInfoHash c,
     pm_BanIP = (\<lambda>e. rpc_BanIP),
     pm_UnbanIP = (\<lambda>e. rpc_UnbanIP),
     pm_ClearBanIP = (\<lambda>e. rpc_ClearBanIP),
     pm_GetIPFilterStats = (\<lambda>e. rpc_GetIPFilterStats)\<rparr>"

section \<open>The server side\<close>

text \<open>The environment of a request gives one to each call of the manager; \<open>ev\<close> is the generated \<^verbatim>\<open>String\<close>.\<close>

definition srv_Announce ::
  "('e, 's) PeerManager \<Rightarrow> (idl_enum \<Rightarrow> string) \<Rightarrow> (nat \<Rightarrow> 'e) \<Rightarrow> trunker_AnnounceRequest \<Rightarrow> 's \<Rightarrow>
   trunker_Peer list result \<times> 's" where
  "srv_Announce P ev call request s =
     (case pm_HandleAnnouncePeer P (call 0) (announceRequestIDLToCommon ev request) s of
        (Inl e, s') \<Rightarrow> (Inl e, s')
      | (Inr resp, s') \<Rightarrow> (Inr (map srv_peerCommonToIDL resp), s'))"

definition scrapeFileToIDL :: "ScrapeFile \<Rightarrow> trunker_ScrapeFile" where
  "scrapeFileToIDL v = \<lparr>tf_Complete = sf_Complete v, tf_Downloaded = sf_Downloaded v,
     tf_Incomplete = sf_Incomplete v, tf_Seeder = sf_Seeder v\<rparr>"

fun srv_Scrape_loop ::
  "('e, 's) PeerManager \<Rightarrow> (nat \<Rightarrow> 'e) \<Rightarrow> nat \<Rightarrow> string list \<Rightarrow> (string \<rightharpoonup> trunker_ScrapeFile) \<Rightarrow> 's \<Rightarrow>
   (string \<rightharpoonup> trunker_ScrapeFile) result \<times> 's" where
  "srv_Scrape_loop P call n [] resp s = (Inr resp, s)"
| "srv_Scrape_loop P call n (hash # hashes) resp s =
     (case pm_Scrape P (call n) hash s of
        (Inl e, s') \<Rightarrow> (Inl e, s')
      | (Inr v, s') \<Rightarrow> srv_Scrape_loop P call (Suc n) hashes (resp(hash \<mapsto> scrapeFileToIDL v)) s')"

definition srv_Scrape ::
  "('e, 's) PeerManager \<Rightarrow> (nat \<Rightarrow> 'e) \<Rightarrow> string list \<Rightarrow> 's \<Rightarrow> (string \<rightharpoonup> trunker_ScrapeFile) result \<times> 's" where
  "srv_Scrape P call hashes s = srv_Scrape_loop P call 0 hashes Map.empty s"

definition srv_GetStatistic ::
  "('e, 's) PeerManager \<Rightarrow> (nat \<Rightarrow> 'e) \<Rightarrow> 's \<Rightarrow> trunker_StatisticInfo result" where
  "srv_GetStatistic P call s =
     (case pm_GetStatistic P (call 0) s of
        Inl e \<Rightarrow> Inl e
      | Inr resp \<Rightarrow> Inr (TrunkerStatisticInfo (TotalPeers resp) (TotalTorrents resp)
          (map (\<lambda>(k, v). (k, TrunkerStatisticInfo (TotalPeers v) (TotalTorrents v) [])) (Shards resp))))"

definition srv_Ban ::
  "('e, 's) PeerManager \<Rightarrow> (nat \<Rightarrow> 'e) \<Rightarrow> trunker_BanType \<Rightarrow> string \<Rightarrow> 's \<Rightarrow> unit result \<times> 's" where
  "srv_Ban P call type target s =
     (case type of
        BanType_InfoHash \<Rightarrow> pm_BanInfoHash P (call 0) target s
      | BanType_PeerID \<Rightarrow> pm_BanPeer P (call 0) target s
      | BanType_Other _ \<Rightarrow> (Inl ''unknown type'', s))"

definition srv_DeleteInfoHash ::
  "('e, 's) PeerManager \<Rightarrow> (nat \<Rightarrow> 'e) \<Rightarrow> string \<Rightarrow> 's \<Rightarrow> unit result \<times> 's" where
  "srv_DeleteInfoHash P call target s = pm_DeleteInfoHash P (call 0) target s"

definition srv_GetPeer ::
  "('e, 's) PeerManager \<Rightarrow> (nat \<Rightarrow> 'e) \<Rightarrow> string \<Rightarrow> 's \<Rightarrow> trunker_Peer list result" where
  "srv_GetPeer P call ih s =
     (case pm_GetPeers P (call 0) ih s of Inl e \<Rightarrow> Inl e | Inr res \<Rightarrow> Inr (map srv_peerCommonToIDL res))"

definition sourceToMetrics :: "idl_enum \<Rightarrow> string" where
  "sourceToMetrics s =
     (if s = 0 then ''http'' else if s = 1 then ''udp'' else if s = 2 then ''ws'' else ''http'')"

section \<open>Both sides together\<close>

definition loopback :: "('e, 's) PeerManager \<Rightarrow> (idl_enum \<Rightarrow> string) \<Rightarrow> (nat \<Rightarrow> 'e, 's) trunkerservice_Client" where
  "loopback P ev = \<lparr>
     tc_Announce = srv_Announce P ev,
     tc_Scrape = srv_Scrape P,
     tc_GetStatistic = srv_GetStatistic P,
     tc_Ban = srv_Ban P,
     tc_DeleteInfoHash = srv_DeleteInfoHash P,
     tc_GetPeer = srv_GetPeer P\<rparr>"

text \<open>What is left of statistics: the numbers of the shards' own shards are dropped.\<close>

definition wire_statistic :: "StatisticInfo \<Rightarrow> StatisticInfo" where
  "wire_statistic i = StatisticInfo (TotalPeers i) (TotalTorrents i)
     (map (\<lambda>(k, v). (k, StatisticInfo (TotalPeers v) (TotalTorrents v) [])) (Shards i))"

lemma rpc_announce_loopback:
  assumes "event_names ev"
  shows "rpc_HandleAnnouncePeer (loopback P ev) call req s =
    apfst (map_sum id (map wire_peer)) (pm_HandleAnnouncePeer P (call 0) (wire_request req) s)"
  by (simp add: rpc_HandleAnnouncePeer_def loopback_def srv_Announce_def announceRequest_over_wire [OF assms]
      srv_peerCommonToIDL_eq comp_def split: prod.splits sum.splits)

lemma rpc_scrape_loopback: "rpc_Scrape (loopback P ev) call ih s = pm_Scrape P (call 0) ih s"
  by (auto simp: rpc_Scrape_def loopback_def srv_Scrape_def scrapeFileToIDL_def split: prod.splits sum.splits)

lemma rpc_statistic_loopback:
  "rpc_GetStatistic (loopback P ev) call s = map_sum id wire_statistic (pm_GetStatistic P (call 0) s)"
  by (simp add: rpc_GetStatistic_def loopback_def srv_GetStatistic_def wire_statistic_def comp_def case_prod_beta
      split: sum.splits)

lemma rpc_peers_loopback:
  "rpc_GetPeers (loopback P ev) call ih s = map_sum id (map wire_peer) (pm_GetPeers P (call 0) ih s)"
  by (simp add: rpc_GetPeers_def loopback_def srv_GetPeer_def srv_peerCommonToIDL_eq comp_def split: sum.splits)

lemma rpc_admin_loopback:
  "rpc_BanInfoHash (loopback P ev) call ih s = pm_BanInfoHash P (call 0) ih s"
  "rpc_BanPeer (loopback P ev) call pid s = pm_BanPeer P (call 0) pid s"
  "rpc_DeleteInfoHash (loopback P ev) call ih s = pm_DeleteInfoHash P (call 0) ih s"
  by (simp_all add: rpc_BanInfoHash_def rpc_BanPeer_def rpc_DeleteInfoHash_def loopback_def srv_Ban_def
      srv_DeleteInfoHash_def)

lemmas rpc_loopback = rpc_scrape_loopback rpc_statistic_loopback rpc_peers_loopback rpc_admin_loopback

end
