(* ===== verification/UDP_Server.thy ===== *)
theory UDP_Server
  imports Peer_Manager
begin

text \<open>
  The UDP front end, \<^verbatim>\<open>biz/services/udp_server\<close>: parsing (\<^verbatim>\<open>parse.go\<close>), the connection table
  (\<^verbatim>\<open>connect.go\<close>), announces and scrapes (\<^verbatim>\<open>announce.go\<close>) and the dispatcher (\<^verbatim>\<open>server.go\<close>). A
  request is a datagram with its sender; a handler returns its error, the datagrams it wrote and the
  new state. The identifier generator, the random jitter of the interval, the clock and the outcome
  of a write are arguments. The peer manager is any implementation of its interface.
\<close>

section \<open>Parsing\<close>

definition ProtocolID :: uint64 where "ProtocolID = 0x41727101980"

definition ActionConnect :: uint32 where "ActionConnect = 0"
definition ActionAnnounce :: uint32 where "ActionAnnounce = 1"
definition ActionScrape :: uint32 where "ActionScrape = 2"
definition ActionError :: uint32 where "ActionError = 3"

lemmas Action_defs = ActionConnect_def ActionAnnounce_def ActionScrape_def ActionError_def

definition go_slice :: "nat \<Rightarrow> nat \<Rightarrow> bytes \<Rightarrow> bytes" where
  "go_slice i j b = take (j - i) (drop i b)"

text \<open>
  \<^verbatim>\<open>common.PeerEvent(binary.BigEndian.Uint32(...))\<close> keeps the low eight bits; the event value 0 is
  read as started.
\<close>

definition parse_event :: "bytes \<Rightarrow> string" where
  "parse_event b =
     (let event = ucast (get_be32 b) :: PeerEvent;
          event = (if event = PeerEvent_Unknown then PeerEvent_Started else event)
      in PeerEvent_String event)"

definition parseAnnounceRequestV4 :: "bytes \<Rightarrow> AnnounceRequest" where
  "parseAnnounceRequestV4 buf = zeroRequest\<lparr>
     r_InfoHash := UnsafeBytesToString (go_slice 0 20 buf),
     r_PeerID := UnsafeBytesToString (go_slice 20 40 buf),
     r_Downloaded := get_be64 (go_slice 40 48 buf),
     r_Left := get_be64 (go_slice 48 56 buf),
     r_Uploaded := get_be64 (go_slice 56 64 buf),
     r_Event := parse_event (go_slice 64 68 buf),
     r_IPv4 := IP_String (Some (go_slice 68 72 buf)),
     r_NumWant := uint (get_be32 (go_slice 76 80 buf)),
     r_Port := uint (get_be16 (go_slice 80 82 buf))\<rparr>"

definition parseAnnounceRequestV6 :: "bytes \<Rightarrow> AnnounceRequest" where
  "parseAnnounceRequestV6 buf = zeroRequest\<lparr>
     r_InfoHash := UnsafeBytesToString (go_slice 0 20 buf),
     r_PeerID := UnsafeBytesToString (go_slice 20 40 buf),
     r_Downloaded := get_be64 (go_slice 40 48 buf),
     r_Left := get_be64 (go_slice 48 56 buf),
     r_Uploaded := get_be64 (go_slice 56 64 buf),
     r_Event := parse_event (go_slice 64 68 buf),
     r_IPv6 := IP_String (Some (go_slice 68 84 buf)),
     r_NumWant := uint (get_be32 (go_slice 88 92 buf)),
     r_Port := uint (get_be16 (go_slice 92 94 buf))\<rparr>"

definition writeHeader :: "uint32 \<Rightarrow> uint32 \<Rightarrow> bytes" where
  "writeHeader action tid = put_be32 action @ put_be32 tid"

section \<open>State\<close>

record UDPAddr =
  ua_IP :: IP
  ua_Port :: nat
  ua_Zone :: string

text \<open>\<^verbatim>\<open>(*net.UDPAddr).String\<close>.\<close>

definition UDPAddr_String :: "UDPAddr \<Rightarrow> string" where
  "UDPAddr_String a =
     (let ip = (if ip_bytes (ua_IP a) = [] then [] else IP_String (ua_IP a));
          host = (if ua_Zone a \<noteq> [] then ip @ ''%'' @ ua_Zone a else ip);
          host = (if CHR '':'' \<in> set host then ''['' @ host @ '']'' else host)
      in host @ '':'' @ dec_string (ua_Port a))"

record connection =
  cx_id :: uint64
  cx_remoteAddr :: UDPAddr
  cx_time :: gotime

record UDPServer =
  connectionList :: "(uint64, connection) Map"

definition NewUDPServer :: UDPServer where
  "NewUDPServer = \<lparr>connectionList = NewSyncMap\<rparr>"

text \<open>What the outside answers during one request; \<open>ue_call n\<close> is for the \<open>n\<close>-th call of the manager.\<close>

record 'e udp_env =
  ue_gen :: "int64 result"
  ue_now :: gotime
  ue_write :: "error option"
  ue_Intn :: int
  ue_call :: "nat \<Rightarrow> 'e"

section \<open>Connections\<close>

definition handleConnection ::
  "'e udp_env \<Rightarrow> UDPAddr \<Rightarrow> uint32 \<Rightarrow> UDPServer \<Rightarrow> unit result \<times> bytes list \<times> UDPServer" where
  "handleConnection env remote tid s =
     (case ue_gen env of
        Inl e \<Rightarrow> (Inl e, [], s)
      | Inr newId \<Rightarrow>
          (let cid = newId;
               s = s\<lparr>connectionList := fst (Map_LoadOrStore (connectionList s) cid
                       \<lparr>cx_id = cid, cx_remoteAddr = remote, cx_time = ue_now env\<rparr>)\<rparr>;
               buf = writeHeader ActionConnect tid @ put_be64 cid
           in case ue_write env of Some e \<Rightarrow> (Inl e, [], s) | None \<Rightarrow> (Inr (), [buf], s)))"

definition connectionTimeout :: int64 where
  "connectionTimeout = 2 * 60 * 1000000000"

definition clean_connection_step ::
  "gotime \<Rightarrow> UDPServer \<times> int \<Rightarrow> uint64 \<times> connection \<Rightarrow> (UDPServer \<times> int) \<times> bool" where
  "clean_connection_step t st kv =
     (case (st, kv) of
        ((s, count), (cid, conn)) \<Rightarrow>
          if time_Add (cx_time conn) connectionTimeout < t
          then ((s\<lparr>connectionList := fst (Map_Delete (connectionList s) cid)\<rparr>, count + 1), True)
          else (st, True))"

definition cleanConnection :: "gotime \<Rightarrow> UDPServer \<Rightarrow> UDPServer \<times> int" where
  "cleanConnection t s = go_range (clean_connection_step t) (Map_Range (connectionList s)) (s, 0)"

definition responseError :: "uint32 \<Rightarrow> error \<Rightarrow> bytes" where
  "responseError tid err = writeHeader ActionError tid @ UnsafeStringToBytes err"

section \<open>Announces and scrapes\<close>

text \<open>The request of an announce datagram, and whether it came over IPv6.\<close>

definition announce_request :: "UDPAddr \<Rightarrow> bytes \<Rightarrow> (AnnounceRequest \<times> bool) result" where
  "announce_request remote b =
     (if To4 (ua_IP remote) \<noteq> None then
        if length b < 82 then Inl ''invalid announce request''
        else
          (let req = parseAnnounceRequestV4 b;
               req = (if r_IPv4 req = IP_String (Some [0, 0, 0, 0]) then req\<lparr>r_IPv4 := IP_String (ua_IP remote)\<rparr> else req)
           in Inr (req, False))
      else if length b < 94 then
        if length b \<ge> 82 then
          Inr ((parseAnnounceRequestV4 b)\<lparr>r_IPv4 := [], r_IPv6 := IP_String (ua_IP remote)\<rparr>, True)
        else Inl ''invalid announce request''
      else
        (let req = parseAnnounceRequestV6 b;
             req = (if r_IPv6 req = IP_String (Some (replicate 16 0)) then req\<lparr>r_IPv6 := IP_String (ua_IP remote)\<rparr> else req)
         in Inr (req, True)))"

definition peer_entry :: "Config \<Rightarrow> bool \<Rightarrow> Peer \<Rightarrow> bytes" where
  "peer_entry cfg isIPv6 p =
     (case (if isIPv6 then To16 (GetIP cfg p) else To4 (GetIP cfg p)) of
        None \<Rightarrow> []
      | Some ip \<Rightarrow> ip @ put_be16 (of_int (p_Port p)))"

definition announce_reply :: "Config \<Rightarrow> int \<Rightarrow> uint32 \<Rightarrow> bool \<Rightarrow> Peer list \<Rightarrow> ScrapeFile \<Rightarrow> bytes" where
  "announce_reply cfg intn tid isIPv6 res scrape =
     writeHeader ActionAnnounce tid @
     put_be32 (ucast (t_TTL (c_Tracker cfg) + of_int (intn - 100))) @
     put_be32 (of_int (sf_Incomplete scrape)) @
     put_be32 (of_int (sf_Seeder scrape)) @
     concat (map (peer_entry cfg isIPv6) res)"

definition handleAnnounce ::
  "('e, 's) PeerManager \<Rightarrow> Config \<Rightarrow> 'e udp_env \<Rightarrow> UDPAddr \<Rightarrow> uint32 \<Rightarrow> bytes \<Rightarrow> 's \<Rightarrow> unit result \<times> bytes list \<times> 's" where
  "handleAnnounce P cfg env remote tid b st =
     (case announce_request remote b of
        Inl e \<Rightarrow> (Inl e, [], st)
      | Inr (req, isIPv6) \<Rightarrow>
          (let req = req\<lparr>r_ClientIP := ua_IP remote, r_Type := PeerTypeBittorrent, r_Source := SourceUDP\<rparr> in
           case pm_HandleAnnouncePeer P (ue_call env 0) req st of
             (Inl e, st) \<Rightarrow> (Inl e, [], st)
           | (Inr res, st) \<Rightarrow>
               (case pm_Scrape P (ue_call env 1) (r_InfoHash req) st of
                  (Inl e, st) \<Rightarrow> (Inl e, [], st)
                | (Inr scrape, st) \<Rightarrow>
                    (Inr (),
                     (case ue_write env of
                        Some _ \<Rightarrow> [] | None \<Rightarrow> [announce_reply cfg (ue_Intn env) tid isIPv6 res scrape]),
                     st))))"

text \<open>The info hashes of a scrape: the loop over \<^verbatim>\<open>i := 20; i <= n; i += 20\<close>.\<close>

function scrape_hashes :: "nat \<Rightarrow> bytes \<Rightarrow> string list" where
  "scrape_hashes i buf =
     (if i \<le> length buf then UnsafeBytesToString (go_slice (i - 20) i buf) # scrape_hashes (i + 20) buf else [])"
  by auto
termination by (relation "measure (\<lambda>(i, buf). Suc (length buf) - i)") auto

declare scrape_hashes.simps [simp del]

fun scrape_loop ::
  "('e, 's) PeerManager \<Rightarrow> (nat \<Rightarrow> 'e) \<Rightarrow> nat \<Rightarrow> string list \<Rightarrow> bytes \<Rightarrow> 's \<Rightarrow> bytes result \<times> 's" where
  "scrape_loop P call n [] res st = (Inr res, st)"
| "scrape_loop P call n (hash # rest) res st =
     (case pm_Scrape P (call n) hash st of
        (Inl e, st) \<Rightarrow> (Inl e, st)
      | (Inr scrape, st) \<Rightarrow>
          scrape_loop P call (n + 1) rest
            (res @ put_be32 (of_int (sf_Seeder scrape)) @ put_be32 (of_int (sf_Complete scrape)) @
             put_be32 (of_int (sf_Incomplete scrape))) st)"

definition handleScrape ::
  "('e, 's) PeerManager \<Rightarrow> 'e udp_env \<Rightarrow> uint32 \<Rightarrow> bytes \<Rightarrow> 's \<Rightarrow> unit result \<times> bytes list \<times> 's" where
  "handleScrape P env tid buf st =
     (case scrape_loop P (ue_call env) 0 (scrape_hashes 20 buf) (writeHeader ActionScrape tid) st of
        (Inl e, st) \<Rightarrow> (Inl e, [], st)
      | (Inr res, st) \<Rightarrow> (Inr (), (case ue_write env of Some _ \<Rightarrow> [] | None \<Rightarrow> [res]), st))"

section \<open>Dispatch\<close>

text \<open>An error reply whose write fails is lost.\<close>

definition send_error :: "'e udp_env \<Rightarrow> uint32 \<Rightarrow> error \<Rightarrow> bytes list" where
  "send_error env tid err = (case ue_write env of Some _ \<Rightarrow> [] | None \<Rightarrow> [responseError tid err])"

definition handleRequest ::
  "('e, 's) PeerManager \<Rightarrow> Config \<Rightarrow> 'e udp_env \<Rightarrow> UDPAddr \<Rightarrow> bytes result \<Rightarrow> UDPServer \<times> 's \<Rightarrow>
   unit result \<times> bytes list \<times> UDPServer \<times> 's" where
  "handleRequest P cfg env remote next st =
     (case st of (s, ms) \<Rightarrow>
       (case next of
          Inl _ \<Rightarrow> (Inl ''invalid request'', [], s, ms)
        | Inr headerBuf \<Rightarrow>
            if length headerBuf < 16 then (Inl ''invalid request'', [], s, ms)
            else
              (let connectionID = get_be64 (go_slice 0 8 headerBuf);
                   action = get_be32 (go_slice 8 12 headerBuf);
                   transactionID = get_be32 (go_slice 12 16 headerBuf)
               in
               if connectionID = ProtocolID \<and> action = ActionConnect then
                 (case handleConnection env remote transactionID s of (r, out, s) \<Rightarrow> (r, out, s, ms))
               else
                 case Map_Load (connectionList s) connectionID of
                   None \<Rightarrow> (Inr (), send_error env transactionID ''connection expired'', s, ms)
                 | Some c \<Rightarrow>
                     if UDPAddr_String (cx_remoteAddr c) \<noteq> UDPAddr_String remote
                     then (Inr (), send_error env transactionID ''connection mismatch'', s, ms)
                     else
                       (case (if action = ActionAnnounce
                              then handleAnnounce P cfg env remote transactionID (drop 16 headerBuf) ms
                              else if action = ActionScrape
                              then handleScrape P env transactionID (drop 16 headerBuf) ms
                              else (Inl ''invalid action'', [], ms)) of
                          (Inl err, out, ms) \<Rightarrow> (Inr (), out @ send_error env transactionID err, s, ms)
                        | (Inr _, out, ms) \<Rightarrow> (Inr (), out, s, ms)))))"

text \<open>\<^verbatim>\<open>OnTraffic\<close> and \<^verbatim>\<open>OnTick\<close> hand over to these and emit metrics.\<close>

definition OnTraffic ::
  "('e, 's) PeerManager \<Rightarrow> Config \<Rightarrow> 'e udp_env \<Rightarrow> UDPAddr \<Rightarrow> bytes result \<Rightarrow> UDPServer \<times> 's \<Rightarrow>
   bytes list \<times> UDPServer \<times> 's" where
  "OnTraffic P cfg env remote next st = snd (handleRequest P cfg env remote next st)"

definition OnTick :: "gotime \<Rightarrow> UDPServer \<Rightarrow> UDPServer \<times> int64" where
  "OnTick now s = (fst (cleanConnection now s), 2 * 60 * 1000000000)"

section \<open>Lemmas\<close>

lemma length_go_slice [simp]: "j \<le> length b \<Longrightarrow> length (go_slice i j b) = j - i"
  by (simp add: go_slice_def)

lemma slice_append1: "length a = i \<Longrightarrow> j = i + length b \<Longrightarrow> go_slice i j (a @ b @ c) = b"
  by (simp add: go_slice_def)

lemma scrape_hashes_length: "20 \<le> i \<Longrightarrow> length (scrape_hashes i buf) = (length buf + 20 - i) div 20"
proof (induction i buf rule: scrape_hashes.induct)
  case (1 i buf)
  show ?case
  proof (cases "i \<le> length buf")
    case True
    then have "length buf + 20 - i = Suc 19 + (length buf + 20 - (i + 20))" by simp
    with True 1 show ?thesis by (subst scrape_hashes.simps) (simp add: div_add_self1)
  next
    case False
    with 1(2) show ?thesis by (subst scrape_hashes.simps) simp
  qed
qed

end
