(* ===== verification/Persist_Correct.thy ===== *)
theory Persist_Correct
  imports Persist
begin

text \<open>
  Correctness of the snapshots. First the frames: a reader gets the frames back that the file was made of,
  whatever the buffer boundaries, as long as each fits the buffers. Then storing a loaded peer, on the
  abstract state of the manager. Then a whole snapshot against the records it holds.
\<close>

section \<open>Frames\<close>

definition frame :: "bytes \<Rightarrow> bytes" where
  "frame c = put_le32 (of_nat (length c)) @ c"

text \<open>What fits the buffers; the reader's own buffer bounds it too.\<close>

definition fits :: "nat \<Rightarrow> bytes \<Rightarrow> bool" where
  "fits cap c \<longleftrightarrow> c \<noteq> [] \<and> length c \<le> cap \<and> length c < 4096"

lemma length_overwrite: "length ys \<le> length xs \<Longrightarrow> length (overwrite xs ys) = length xs"
  by (simp add: overwrite_def)

lemma take_overwrite [simp]: "take (length ys) (overwrite xs ys) = ys"
  by (simp add: overwrite_def)

lemma frame_size: "length c < 4096 \<Longrightarrow> unat (get_le32 (put_le32 (of_nat (length c)))) = length c"
  by (simp add: unat_of_nat take_bit_nat_eq_self)

text \<open>A read that comes back short has emptied the buffer.\<close>

lemma rd_Read_short:
  assumes "rd_Read n r = (Some bs, r')" and "length bs < n" and "n < 4096" and "n \<le> length (rd_contents r)"
  shows "rd_buffered r' = []"
  using assms by (auto simp: rd_Read_def rd_contents_def split: if_splits)

text \<open>So the second read gets all that is missing.\<close>

lemma read_more_once:
  assumes "rd_buffered r = []" and "rd_rest r = d @ rest" and "d \<noteq> []" and "length d \<le> length rb"
    and "length d < 4096" and "take n dat = bs" and "length bs = n" and "length (bs @ d) \<le> length dat"
  obtains r' dat' rb' where "read_more (length d) n dat l rb r = Went (dat', n + length d, rb', r')"
    and "rd_contents r' = rest" and "take (n + length d) dat' = bs @ d"
    and "length dat' = length dat" and "length rb' = length rb"
proof -
  define r' where "r' = \<lparr>rd_buffered = drop (length d) (take 4096 (d @ rest)), rd_rest = drop 4096 (d @ rest)\<rparr>"
  have rd: "rd_Read (length d) r = (Some d, r')"
    using assms(1-3,5) by (simp add: rd_Read_def r'_def)
  have tk: "take (length d) (overwrite rb d) = d" by simp
  let ?dat = "overwrite dat (bs @ d)"
  have "read_more (length d) n dat l rb r = Went (?dat, n + length d, overwrite rb d, r')"
    using assms(3,4,6) by (subst read_more.simps) (simp add: rd tk Let_def read_more.simps)
  moreover have "rd_contents r' = rest"
    using rd_Read_SomeD(1) [OF rd] assms(1,2) by (simp add: rd_contents_def)
  moreover have "take (n + length d) ?dat = bs @ d" using assms(7) by (simp add: overwrite_def)
  ultimately show thesis
    by (rule that) (use assms(4,8) in \<open>simp_all add: length_overwrite\<close>)
qed

lemma read_record_frame:
  assumes c: "rd_contents r = frame c @ rest" and f: "fits (length dat) c" "length c \<le> length rb"
  obtains r' dat' rb' where "read_record (r, dat, rb) = Went (c, r', dat', rb')" and "rd_contents r' = rest"
    and "length dat' = length dat" and "length rb' = length rb"
proof -
  have len: "length c < 4096" "c \<noteq> []" "length c \<le> length dat" using f by (auto simp: fits_def)
  obtain r1 where full: "read_full 4 r = (Some (put_le32 (of_nat (length c))), r1)" and c1: "rd_contents r1 = c @ rest"
    using read_full_spec [of 4 r] c by (auto simp: frame_def)
  obtain bs r2 where rd: "rd_Read (length c) r1 = (Some bs, r2)"
    using c1 len(2) rd_Read_NoneD [of "length c" r1] by (cases "rd_Read (length c) r1", cases "fst (rd_Read (length c) r1)") auto
  have bs: "c @ rest = bs @ rd_contents r2" "length bs \<le> length c" using rd_Read_SomeD(1,2) [OF rd] c1 by auto
  define d where "d = drop (length bs) c"
  have cd: "c = bs @ d" using bs(2) arg_cong [OF bs(1), of "take (length bs)"] by (simp add: d_def) (metis append_take_drop_id)
  then have r2: "rd_contents r2 = d @ rest" using bs(1) by simp
  note start = read_record_def full frame_size [OF len(1)] rd Let_def
  show thesis
  proof (cases "d = []")
    case True
    with cd r2 start len show thesis
      by (intro that [of r2 "overwrite dat bs" rb]) (simp_all add: length_overwrite)
  next
    case False
    then have sh: "length bs < length c" using cd by simp
    have "rd_buffered r2 = []" by (rule rd_Read_short [OF rd sh len(1)]) (simp add: c1)
    moreover from this have "rd_rest r2 = d @ rest" using r2 by (simp add: rd_contents_def)
    moreover have "length (bs @ d) \<le> length (overwrite dat bs)" "length d \<le> length rb" "length d < 4096"
      using cd len f(2) by (auto simp: length_overwrite)
    ultimately obtain r3 dat' rb' where
      more: "read_more (length d) (length bs) (overwrite dat bs) (length c) rb r2 = Went (dat', length bs + length d, rb', r3)"
      and rest: "rd_contents r3 = rest" "take (length bs + length d) dat' = bs @ d"
        "length dat' = length (overwrite dat bs)" "length rb' = length rb"
      by (elim read_more_once [OF _ _ False, where n = "length bs" and l = "length c"]) simp_all
    have dl: "length c - length bs = length d" using cd by simp
    have "read_record (r, dat, rb) = Went (c, r3, dat', rb')"
      using start len sh more rest(2) cd dl by simp
    then show thesis by (rule that) (use rest len cd in \<open>simp_all add: length_overwrite\<close>)
  qed
qed

text \<open>The loop over a file of frames is a loop over the frames.\<close>

fun load_records ::
  "persist_codec \<Rightarrow> ('rm, 'pm) maps \<Rightarrow> Config \<Rightarrow> persist_file \<Rightarrow> bytes list \<Rightarrow>
   ('rm, 'pm, 'f, 'i) MuxLocalManager \<times> int \<times> int \<Rightarrow> (('rm, 'pm, 'f, 'i) MuxLocalManager \<times> int \<times> int) result" where
  "load_records C D cfg f [] st = Inr st"
| "load_records C D cfg f (c # cs) st =
     (case load_peer C D cfg f c st of
        Panicked e \<Rightarrow> Inl e
      | Stopped \<Rightarrow> Inr st
      | Went st' \<Rightarrow> load_records C D cfg f cs st')"

lemma load_loop_frames:
  assumes "rd_contents r = concat (map frame cs)" and "\<forall>c \<in> set cs. fits (length dat) c \<and> length c \<le> length rb"
  shows "load_loop C D cfg f (r, dat, rb) st = load_records C D cfg f cs st"
  using assms
proof (induction cs arbitrary: r dat rb st)
  case Nil
  then have "fst (read_full 4 r) = None" by (intro read_full_short) simp
  then have "read_record (r, dat, rb) = Stopped" by (cases "read_full 4 r") (simp add: read_record_def)
  then show ?case by (simp add: load_loop.simps)
next
  case (Cons c cs)
  obtain r' dat' rb' where rr: "read_record (r, dat, rb) = Went (c, r', dat', rb')"
    and r': "rd_contents r' = concat (map frame cs)" "length dat' = length dat" "length rb' = length rb"
    using read_record_frame [of r c "concat (map frame cs)" dat rb] Cons.prems by auto
  have "\<forall>c \<in> set cs. fits (length dat') c \<and> length c \<le> length rb'" using Cons.prems r' by simp
  note IH = Cons.IH [OF r'(1) this]
  show ?case by (subst load_loop.simps) (simp add: rr IH split: io_step.splits)
qed

text \<open>The first frame that does not fit the buffer is a panic.\<close>

lemma load_loop_panic:
  assumes "rd_contents r = frame c @ rest" and "length dat < length c" and "length c < 4096"
  shows "load_loop C D cfg f (r, dat, rb) st = Inl ''slice bounds out of range''"
proof -
  obtain r1 where "read_full 4 r = (Some (put_le32 (of_nat (length c))), r1)"
    using read_full_spec [of 4 r] assms(1) by (auto simp: frame_def)
  then have "read_record (r, dat, rb) = Panicked ''slice bounds out of range''"
    using assms(2) frame_size [OF assms(3)] by (auto simp: read_record_def Let_def)
  then show ?thesis by (simp add: load_loop.simps)
qed

section \<open>Storing a loaded peer\<close>

text \<open>The peer an abstract state holds under an info hash and a peer identifier.\<close>

definition peer_at :: "(string \<rightharpoonup> swarm) \<Rightarrow> string \<Rightarrow> string \<Rightarrow> Peer option" where
  "peer_at v ih k = Option.bind (v ih) (\<lambda>sw. sw k)"

definition add_peer :: "string \<Rightarrow> Peer \<Rightarrow> (string \<rightharpoonup> swarm) \<Rightarrow> (string \<rightharpoonup> swarm)" where
  "add_peer ih p v = v(ih \<mapsto> (case v ih of None \<Rightarrow> Map.empty | Some sw \<Rightarrow> sw)(GetKey p \<mapsto> p))"

lemma peer_at_empty [simp]: "peer_at (\<lambda>_. None) ih k = None"
  by (simp add: peer_at_def)

lemma peer_at_add [simp]:
  "peer_at (add_peer ih p v) ih' k = (if ih' = ih \<and> k = GetKey p then Some p else peer_at v ih' k)"
  by (cases "v ih") (auto simp: peer_at_def add_peer_def)

context local_maps
begin

lemma DirectStore_spec:
  fixes t ih p m
  assumes ok: "mok m" and new: "peer_at (mgr_view D m) ih (GetKey p) = None"
  defines "m' \<equiv> DirectStore D t ih p m"
  shows "mok m'" and "mgr_view D m' = add_peer ih p (mgr_view D m)"
    and "nextRoot m \<le> nextRoot m'" and "\<And>ih'. ih' \<noteq> ih \<Longrightarrow> rootAt m' ih' = rootAt m ih'"
    and "\<And>ptr. ptr < nextRoot m \<Longrightarrow> infoHash (heap m' ptr) = infoHash (heap m ptr) \<and>
      (rootAt m ih \<noteq> Some ptr \<longrightarrow> heap m' ptr = heap m ptr)"
proof -
  obtain m1 ptr known where lor: "load_or_new_root D t ih m = (m1, ptr, known)" and ok1: "mok m1"
    and at: "rootAt m1 = (rootAt m)(ih \<mapsto> ptr)" and view: "rview (heap m1 ptr) (GetKey p) = None"
    and add: "add_peer ih p (mgr_view D m) = (mgr_view D m1)(ih \<mapsto> (rview (heap m1 ptr))(GetKey p \<mapsto> p))"
    and nr: "nextRoot m \<le> nextRoot m1"
    and hp: "\<And>q. q < nextRoot m \<Longrightarrow> heap m1 q = heap m q" and fresh: "rootAt m ih = Some ptr \<or> ptr = nextRoot m"
  proof (cases "rootAt m ih")
    case None
    then obtain m1 where "load_or_new_root D t ih m = (m1, nextRoot m, False)" and "mok m1"
      and "rootAt m1 = (rootAt m)(ih \<mapsto> nextRoot m)" and "mgr_view D m1 = (mgr_view D m)(ih \<mapsto> Map.empty)"
      and "heap m1 = (heap m)(nextRoot m := NewInfoHashRoot (peerOps D) t ih)" and "nextRoot m1 = Suc (nextRoot m)"
      by (rule load_or_new_root_new [OF ok])
    moreover have "mgr_view D m ih = None" using None by (simp add: mgr_view_def)
    ultimately show thesis by (intro that [of m1 "nextRoot m" False]) (simp_all add: P.root_view_New add_peer_def)
  next
    case (Some ptr)
    have "mgr_view D m ih = Some (rview (heap m ptr))" by (rule mgr_view_root [OF Some])
    with new load_or_new_root_known [OF ok Some] ok Some show thesis
      by (intro that [of m ptr True]) (auto simp: peer_at_def add_peer_def fun_upd_idem)
  qed
  let ?r = "Root_Store (peerOps D) (heap m1 ptr) (GetKey p) p"
  let ?m = "set_root ptr ?r m1"
  note rok = mok_rootD(1) [OF ok1, of ptr]
  note st = P.Root_Store_spec [OF rok refl P.root_view_None_maps [OF rok view]]
  have same: "same_but ptr ?r m1 ?m" by (simp add: same_but_def)
  have m': "m' = ?m" by (simp add: m'_def DirectStore_def lor)
  show "mok m'" unfolding m' by (rule mok_same_but [OF ok1 same st(1) infoHash_ops(3)])
  show "mgr_view D m' = add_peer ih p (mgr_view D m)"
    using mgr_view_same_but [OF ok1 same] at st(2) add by (simp add: m')
  show "nextRoot m \<le> nextRoot m'" "\<And>ih'. ih' \<noteq> ih \<Longrightarrow> rootAt m' ih' = rootAt m ih'"
    using nr at by (simp_all add: m')
  show "infoHash (heap m' q) = infoHash (heap m q) \<and> (rootAt m ih \<noteq> Some q \<longrightarrow> heap m' q = heap m q)"
    if "q < nextRoot m" for q using that hp fresh by (auto simp: m' infoHash_ops(3))
qed

lemma mux_DirectStore:
  fixes ih
  assumes ok: "xok m" and new: "peer_at (mux_view D m) ih (GetKey p) = None"
  defines "i \<equiv> shard_of (length (localList m)) ih"
  shows "xok (put_worker i (DirectStore D t ih p (worker i m)) m)"
    and "mux_view D (put_worker i (DirectStore D t ih p (worker i m)) m) = add_peer ih p (mux_view D m)"
proof -
  have okw: "mok (worker i m)" using mux_ok_shard(2) [OF ok] by (simp add: i_def)
  have v: "mux_view D m ih = mgr_view D (worker i m) ih" by (simp add: mux_view_def i_def)
  have nw: "peer_at (mgr_view D (worker i m)) ih (GetKey p) = None" using new by (simp add: peer_at_def v)
  note w = DirectStore_spec [OF okw nw, where t = t]
  note fr = put_worker_frame [OF ok i_def [THEN meta_eq_to_obj_eq] w(1)]
  show "xok (put_worker i (DirectStore D t ih p (worker i m)) m)"
    by (rule fr(1)) (use w(3-5) in auto)
  have "mux_view D (put_worker i (DirectStore D t ih p (worker i m)) m) =
      (mux_view D m)(ih := mgr_view D (DirectStore D t ih p (worker i m)) ih)"
    by (rule fr(2)) (use w(3-5) in auto)
  then show "mux_view D (put_worker i (DirectStore D t ih p (worker i m)) m) = add_peer ih p (mux_view D m)"
    by (simp add: w(2) add_peer_def v)
qed

end

section \<open>Records\<close>

text \<open>
  Thrift does not keep the difference between a nil and an empty byte slice, so peers are compared
  with nil addresses read as empty ones.
\<close>

definition nonil :: "IP \<Rightarrow> IP" where
  "nonil ip = Some (ip_bytes ip)"

definition nonil_idl :: "trunker_Peer \<Rightarrow> trunker_Peer" where
  "nonil_idl q = q\<lparr>tp_Ip := nonil (tp_Ip q), tp_Ipv4 := nonil (tp_Ipv4 q), tp_Ipv6 := nonil (tp_Ipv6 q),
     tp_ClientIp := nonil (tp_ClientIp q)\<rparr>"

definition nonil_peer :: "Peer \<Rightarrow> Peer" where
  "nonil_peer p = p\<lparr>p_IP := nonil (p_IP p), p_IPv4 := nonil (p_IPv4 p), p_IPv6 := nonil (p_IPv6 p),
     p_ClientIP := nonil (p_ClientIP p)\<rparr>"

lemma nonil_PeerIDLToCommon: "nonil_peer (PeerIDLToCommon q) = PeerIDLToCommon (nonil_idl q)"
  by (simp add: nonil_peer_def nonil_idl_def PeerIDLToCommon_def)

lemma nonil_peer_key [simp]: "GetKey (nonil_peer p) = GetKey p"
  by (simp add: nonil_peer_def GetKey_def)

text \<open>What the two libraries document: decoding reverses encoding, and decompression needs room.\<close>

definition codec_laws :: "persist_codec \<Rightarrow> bool" where
  "codec_laws C \<longleftrightarrow>
     (\<forall>s raw. fr_Encode C s = Inr raw \<longrightarrow>
        (\<exists>q. fr_Decode C raw = Inr \<lparr>ts_InfoHash = ts_InfoHash s, ts_Peer = q\<rparr> \<and> nonil_idl q = nonil_idl (ts_Peer s))) \<and>
     (\<forall>raw c n. zs_Compress C raw = Inr c \<longrightarrow> c \<noteq> [] \<and>
        (length raw \<le> n \<longrightarrow> zs_DecompressInto C n c = Inr raw) \<and>
        (n < length raw \<longrightarrow> (\<exists>e. zs_DecompressInto C n c = Inl e)))"

definition record_of :: "persist_codec \<Rightarrow> string \<times> Peer \<Rightarrow> bytes" where
  "record_of C x = projr (zs_Compress C (projr (fr_Encode C \<lparr>ts_InfoHash = fst x, ts_Peer = PeerCommonToIDL (snd x)\<rparr>)))"

definition storable :: "persist_codec \<Rightarrow> nat \<Rightarrow> string \<times> Peer \<Rightarrow> bool" where
  "storable C cap x \<longleftrightarrow>
     (\<exists>raw c. fr_Encode C \<lparr>ts_InfoHash = fst x, ts_Peer = PeerCommonToIDL (snd x)\<rparr> = Inr raw \<and>
        zs_Compress C raw = Inr c \<and> length raw \<le> decompressLen \<and> fits cap c)"

text \<open>Whether a peer with this record is kept when it is read at time \<open>now\<close>.\<close>

definition fresh_at :: "Config \<Rightarrow> gotime \<Rightarrow> Peer \<Rightarrow> bool" where
  "fresh_at cfg now p \<longleftrightarrow>
     \<not> time_Add (of_Unix (time_Unix (p_LastSeen p))) (duration_seconds (t_TTL (c_Tracker cfg))) < now"

definition rkey :: "string \<times> Peer \<Rightarrow> string \<times> string" where
  "rkey x = (fst x, GetKey (snd x))"

lemma storable_fits: "storable C cap x \<Longrightarrow> fits cap (record_of C x)"
  by (auto simp: storable_def record_of_def)

lemma load_peer_storable:
  assumes laws: "codec_laws C" and st: "storable C cap (ih, p)" and pw: "pickWorker m (UnsafeStringToBytes ih) = Inr i"
  shows "\<exists>q. nonil_peer q = nonil_peer (wire_peer p) \<and>
    load_peer C D cfg f (record_of C (ih, p)) (m, n, e) =
      Went (if fresh_at cfg (pf_now f) p then (put_worker i (DirectStore D (pf_later f) ih q (worker i m)) m, n + 1, e)
            else (m, n, e + 1))"
proof -
  obtain raw c where enc: "fr_Encode C \<lparr>ts_InfoHash = ih, ts_Peer = PeerCommonToIDL p\<rparr> = Inr raw"
    and cmp: "zs_Compress C raw = Inr c" and len: "length raw \<le> decompressLen" using st by (auto simp: storable_def)
  obtain q where dec: "fr_Decode C raw = Inr \<lparr>ts_InfoHash = ih, ts_Peer = q\<rparr>" and q: "nonil_idl q = nonil_idl (PeerCommonToIDL p)"
    using laws enc unfolding codec_laws_def by fastforce
  have dcm: "zs_DecompressInto C decompressLen c = Inr raw" using laws cmp len by (simp add: codec_laws_def)
  have "nonil_peer (PeerIDLToCommon q) = nonil_peer (wire_peer p)"
    by (simp only: nonil_PeerIDLToCommon q) (simp add: nonil_PeerIDLToCommon [symmetric])
  moreover from this have "tp_LastSeen q = time_Unix (p_LastSeen p)"
    using arg_cong [OF q, of tp_LastSeen] by (simp add: nonil_idl_def PeerCommonToIDL_def)
  ultimately show ?thesis
    using enc cmp dcm dec pw
    by (intro exI [of _ "PeerIDLToCommon q"]) (simp add: load_peer_def record_of_def fresh_at_def Let_def)
qed

context local_maps
begin

lemma load_records_storable:
  assumes "codec_laws C" and "xok m" and "distinct (map rkey xs)" and "\<forall>x \<in> set xs. storable C cap x"
    and "\<forall>x \<in> set xs. peer_at (mux_view D m) (fst x) (GetKey (snd x)) = None"
  shows "\<exists>m' n' e'. load_records C D cfg f (map (record_of C) xs) (m, n, e) = Inr (m', n', e') \<and> xok m' \<and>
    (\<forall>ih k. map_option nonil_peer (peer_at (mux_view D m') ih k) =
       (case map_of (map (\<lambda>x. (rkey x, snd x)) xs) (ih, k) of
          Some p \<Rightarrow> if fresh_at cfg (pf_now f) p then Some (nonil_peer (wire_peer p)) else None
        | None \<Rightarrow> map_option nonil_peer (peer_at (mux_view D m) ih k)))"
  using assms(2-)
proof (induction xs arbitrary: m n e)
  case Nil
  then show ?case by simp
next
  case (Cons x xs)
  obtain ih p where x: "x = (ih, p)" by fastforce
  let ?i = "shard_of (length (localList m)) ih"
  obtain q where q: "nonil_peer q = nonil_peer (wire_peer p)" and lp: "load_peer C D cfg f (record_of C x) (m, n, e) =
      Went (if fresh_at cfg (pf_now f) p then (put_worker ?i (DirectStore D (pf_later f) ih q (worker ?i m)) m, n + 1, e)
            else (m, n, e + 1))"
    using load_peer_storable [OF assms(1), of cap ih p m ?i D cfg f n e] mux_ok_shard(3) [OF Cons.prems(1)] Cons.prems(3) x
    by auto
  have key: "GetKey q = GetKey p" using arg_cong [OF q, of GetKey] by simp
  have new: "peer_at (mux_view D m) ih (GetKey q) = None" using Cons.prems(4) x key by simp
  have old: "rkey x \<notin> rkey ` set xs" using Cons.prems(2) by simp
  have gone: "map_of (map (\<lambda>x. (rkey x, snd x)) xs) (ih, GetKey p) = None"
    using old by (auto simp: map_of_eq_None_iff image_iff rkey_def x)
  show ?case
  proof (cases "fresh_at cfg (pf_now f) p")
    case True
    let ?m = "put_worker ?i (DirectStore D (pf_later f) ih q (worker ?i m)) m"
    note ds = mux_DirectStore [OF Cons.prems(1) new, of "pf_later f"]
    have "\<forall>y \<in> set xs. peer_at (mux_view D ?m) (fst y) (GetKey (snd y)) = None"
      using Cons.prems(4) old key by (auto simp: ds(2) rkey_def x)
    from Cons.IH [OF ds(1) _ _ this, of "n + 1" e] Cons.prems(2,3) obtain m' n' e'
      where "load_records C D cfg f (map (record_of C) xs) (?m, n + 1, e) = Inr (m', n', e')" and "xok m'"
        and v: "\<And>ih k. map_option nonil_peer (peer_at (mux_view D m') ih k) =
          (case map_of (map (\<lambda>x. (rkey x, snd x)) xs) (ih, k) of
             Some p \<Rightarrow> if fresh_at cfg (pf_now f) p then Some (nonil_peer (wire_peer p)) else None
           | None \<Rightarrow> map_option nonil_peer (peer_at (mux_view D ?m) ih k))" by auto
    then show ?thesis using lp True q gone
      by (intro exI [of _ m'] exI [of _ n'] exI [of _ e']) (simp add: v ds(2) key rkey_def x split: option.splits)
  next
    case False
    from Cons.IH [OF Cons.prems(1), of n "e + 1"] Cons.prems(2-4) obtain m' n' e'
      where "load_records C D cfg f (map (record_of C) xs) (m, n, e + 1) = Inr (m', n', e')" and "xok m'"
        and v: "\<And>ih k. map_option nonil_peer (peer_at (mux_view D m') ih k) =
          (case map_of (map (\<lambda>x. (rkey x, snd x)) xs) (ih, k) of
             Some p \<Rightarrow> if fresh_at cfg (pf_now f) p then Some (nonil_peer (wire_peer p)) else None
           | None \<Rightarrow> map_option nonil_peer (peer_at (mux_view D m) ih k))" by auto
    then show ?thesis using lp False gone new key
      by (intro exI [of _ m'] exI [of _ n'] exI [of _ e']) (simp add: v rkey_def x split: option.splits)
  qed
qed

end

section \<open>Whole snapshots\<close>

definition shard_records :: "('rm, 'pm) maps \<Rightarrow> ('rm, 'pm) Manager \<Rightarrow> (string \<times> Peer) list" where
  "shard_records D w = concat (map (\<lambda>x. map (\<lambda>kp. (fst x, snd kp)) (root_entries (peerOps D) (heap w (snd x))))
     (sm_Range (rootOps D) (infoHashMap w)))"

definition mux_records :: "('rm, 'pm) maps \<Rightarrow> ('rm, 'pm, 'f, 'i) MuxLocalManager \<Rightarrow> (string \<times> Peer) list" where
  "mux_records D m = concat (map (\<lambda>i. shard_records D (worker i m)) [0..<length (localList m)])"

lemma distinct_map_concat:
  assumes "distinct (map h xs)" and "\<And>x. x \<in> set xs \<Longrightarrow> distinct (map f (g x)) \<and> (\<forall>y \<in> set (g x). key (f y) = h x)"
  shows "distinct (map f (concat (map g xs)))"
  using assms
proof (induction xs)
  case (Cons x xs)
  have "f y \<noteq> f z" if "y \<in> set (g x)" "x' \<in> set xs" "z \<in> set (g x')" for x' y z
  proof -
    have "key (f y) = h x" "key (f z) = h x'" using Cons.prems(2) that by auto
    moreover have "h x \<noteq> h x'" using Cons.prems(1) that(2) by (auto simp: image_iff)
    ultimately show ?thesis by metis
  qed
  with Cons show ?case by fastforce
qed simp

lemma go_range_cong:
  "(\<And>s x. x \<in> set xs \<Longrightarrow> f s x = g s x) \<Longrightarrow> go_range f xs s = go_range g xs s"
  by (induction xs arbitrary: s) (auto split: prod.splits)

lemma Root_Range_cong:
  assumes "\<And>s x. x \<in> set (root_entries M i) \<Longrightarrow> f s x = g s x"
  shows "Root_Range M f i s = Root_Range M g i s"
proof -
  have "foldl (\<lambda>s m. go_range f (sm_Range M m) s) s ms = foldl (\<lambda>s m. go_range g (sm_Range M m) s) s ms"
    if "set ms \<subseteq> set (peerMap i)" for ms
    using that
  proof (induction ms arbitrary: s)
    case (Cons m ms)
    have "go_range f (sm_Range M m) s = go_range g (sm_Range M m) s"
      by (rule go_range_cong) (use Cons.prems assms in \<open>auto simp: root_entries_def\<close>)
    with Cons show ?case by simp
  qed simp
  then show ?thesis by (simp add: Root_Range_def)
qed

lemma store_step_storable:
  "storable C cap (ih, p) \<Longrightarrow> store_step C ih (out, n) (k, p) = ((out @ frame (record_of C (ih, p)), n + 1), True)"
  by (auto simp: storable_def store_step_def record_of_def frame_def)

lemma foldl_frames:
  "foldl (\<lambda>st x. (fst st @ h x, snd st + (1::int))) (out, n) xs = (out @ concat (map h xs), n + int (length xs))"
  by (induction xs arbitrary: out n) simp_all

context local_maps
begin

lemma store_shard_frames:
  assumes "\<forall>x \<in> set (shard_records D w). storable C cap x"
  shows "fst (store_shard C D w n) = concat (map (frame \<circ> record_of C) (shard_records D w))"
proof -
  let ?es = "\<lambda>kv. map (\<lambda>kp. (fst kv, snd kp)) (root_entries (peerOps D) (heap w (snd kv)))"
  let ?h = "\<lambda>ih kp. frame (record_of C (ih, snd kp))"
  have root: "Root_Range (peerOps D) (store_step C ih) (heap w ptr) st =
      (fst st @ concat (map (frame \<circ> record_of C) (?es (ih, ptr))), snd st + int (length (?es (ih, ptr))))"
    if "(ih, ptr) \<in> set (sm_Range (rootOps D) (infoHashMap w))" for ih ptr st
  proof -
    have "store_step C ih s x = ((fst s @ ?h ih x, snd s + 1), True)"
      if "x \<in> set (root_entries (peerOps D) (heap w ptr))" for s x
    proof -
      have "storable C cap (ih, snd x)"
        using assms that \<open>(ih, ptr) \<in> _\<close> by (auto simp: shard_records_def)
      then show ?thesis by (cases s, cases x) (simp add: store_step_storable)
    qed
    then have "Root_Range (peerOps D) (store_step C ih) (heap w ptr) st =
        Root_Range (peerOps D) (\<lambda>s x. ((fst s @ ?h ih x, snd s + 1), True)) (heap w ptr) st"
      by (rule Root_Range_cong)
    also have "\<dots> = foldl (\<lambda>s x. (fst s @ ?h ih x, snd s + 1)) st (root_entries (peerOps D) (heap w ptr))"
      by (subst P.Root_Range_fold) simp_all
    finally show ?thesis by (cases st) (simp add: foldl_frames comp_def)
  qed
  have "store_shard C D w n = go_range (\<lambda>st kv. ((fst st @ concat (map (frame \<circ> record_of C) (?es kv)),
      snd st + int (length (?es kv))), True)) (sm_Range (rootOps D) (infoHashMap w)) ([], n)"
    unfolding store_shard_def RangeMap_def by (rule go_range_cong) (auto simp: root simp del: length_map map_map)
  also have "fst \<dots> = concat (map (frame \<circ> record_of C) (concat (map ?es (sm_Range (rootOps D) (infoHashMap w)))))"
  proof -
    have "fst (go_range (\<lambda>st kv. ((fst st @ g kv, snd st + h kv), True)) xs (out, n)) = out @ concat (map g xs)"
      for g :: "string \<times> root_ptr \<Rightarrow> bytes" and h :: "string \<times> root_ptr \<Rightarrow> int" and xs out n
      by (induction xs arbitrary: out n) simp_all
    moreover have "concat (map k (concat (map g xs))) = concat (map (\<lambda>x. concat (map k (g x))) xs)"
      for k :: "string \<times> Peer \<Rightarrow> bytes" and g :: "string \<times> root_ptr \<Rightarrow> (string \<times> Peer) list" and xs
      by (induction xs) simp_all
    ultimately show ?thesis by (simp only: append_Nil)
  qed
  finally show ?thesis by (simp only: shard_records_def)
qed

lemma shard_records_iff:
  assumes "mok w"
  shows "(ih, p) \<in> set (shard_records D w) \<longleftrightarrow> peer_at (mgr_view D w) ih (GetKey p) = Some p"
proof -
  have rv: "rinv (infoHashMap w)" and ro: "\<And>ptr. rok (heap w ptr)" using assms mok_rootD by blast+
  have "(ih, p) \<in> set (shard_records D w) \<longleftrightarrow>
      (\<exists>ptr. (ih, ptr) \<in> set (sm_Range (rootOps D) (infoHashMap w)) \<and>
        (\<exists>k. (k, p) \<in> set (root_entries (peerOps D) (heap w ptr))))"
    unfolding shard_records_def by (auto simp: image_iff) force+
  also have "\<dots> \<longleftrightarrow> (\<exists>ptr k. rootAt w ih = Some ptr \<and> rview (heap w ptr) k = Some p)"
    by (simp add: R.set_Range [OF rv] P.root_entries_iff [OF ro])
  also have "\<dots> \<longleftrightarrow> (\<exists>ptr. rootAt w ih = Some ptr \<and> rview (heap w ptr) (GetKey p) = Some p)"
    using P.root_ok_key [OF ro] by (metis GetKey_def)
  finally show ?thesis by (auto simp: peer_at_def mgr_view_def bind_eq_Some_conv)
qed

lemma shard_records_distinct:
  assumes "mok w"
  shows "distinct (map rkey (shard_records D w))"
  unfolding shard_records_def
proof (rule distinct_map_concat [where h = fst and key = fst])
  have rv: "rinv (infoHashMap w)" and ro: "\<And>ptr. rok (heap w ptr)" using assms mok_rootD by blast+
  show "distinct (map fst (sm_Range (rootOps D) (infoHashMap w)))" by (rule R.Range_distinct [OF rv])
  fix x assume "x \<in> set (sm_Range (rootOps D) (infoHashMap w))"
  obtain ih ptr where x: "x = (ih, ptr)" by fastforce
  let ?es = "root_entries (peerOps D) (heap w ptr)"
  have "map (\<lambda>kp. rkey (ih, snd kp)) ?es = map (\<lambda>kp. (ih, fst kp)) ?es"
    using P.root_entries_iff [OF ro] P.root_ok_key [OF ro] by (auto simp: rkey_def GetKey_def)
  moreover have "distinct (map (\<lambda>kp. (ih, fst kp)) ?es)"
    using P.root_entries_distinct [OF ro] by (auto simp: distinct_map inj_on_def)
  ultimately have "distinct (map (\<lambda>kp. rkey (ih, snd kp)) ?es)" by (simp only:)
  then show "distinct (map rkey (map (\<lambda>kp. (fst x, snd kp)) (root_entries (peerOps D) (heap w (snd x))))) \<and>
      (\<forall>y \<in> set (map (\<lambda>kp. (fst x, snd kp)) (root_entries (peerOps D) (heap w (snd x)))). fst (rkey y) = fst x)"
    by (simp add: x comp_def) (simp add: rkey_def)
qed

lemma mux_records_spec:
  assumes ok: "xok m"
  shows mux_records_iff: "(ih, p) \<in> set (mux_records D m) \<longleftrightarrow> peer_at (mux_view D m) ih (GetKey p) = Some p"
    and mux_records_distinct: "distinct (map rkey (mux_records D m))"
proof -
  let ?n = "length (localList m)"
  have okw: "mok (worker i m)" if "i < ?n" for i using ok that by (simp add: mux_ok_def)
  have at: "peer_at (mgr_view D (worker i m)) ih k = (if shard_of ?n ih = i then peer_at (mux_view D m) ih k else None)"
    if "i < ?n" for i ih k using shard_view [OF ok that] by (simp add: peer_at_def)
  show "(ih, p) \<in> set (mux_records D m) \<longleftrightarrow> peer_at (mux_view D m) ih (GetKey p) = Some p"
    using mux_ok_shard(1) [OF ok, of ih] by (auto simp: mux_records_def shard_records_iff okw at)
  show "distinct (map rkey (mux_records D m))"
    unfolding mux_records_def
  proof (rule distinct_map_concat [where h = id and key = "\<lambda>(ih, k). shard_of ?n ih"])
    fix i assume "i \<in> set [0..<?n]"
    then have i: "i < ?n" by simp
    have "\<forall>y \<in> set (shard_records D (worker i m)). shard_of ?n (fst y) = i"
      using i by (auto simp: shard_records_iff okw at split: if_splits)
    then show "distinct (map rkey (shard_records D (worker i m))) \<and>
        (\<forall>y \<in> set (shard_records D (worker i m)). (\<lambda>(ih, k). shard_of ?n ih) (rkey y) = id i)"
      using shard_records_distinct [OF okw [OF i]] by (simp add: rkey_def)
  qed simp
qed

text \<open>The files of a snapshot, each with the records it was made of.\<close>

definition file_holds :: "persist_codec \<Rightarrow> nat \<Rightarrow> gotime \<Rightarrow> persist_file \<times> (string \<times> Peer) list \<Rightarrow> bool" where
  "file_holds C cap now z \<longleftrightarrow>
     pf_lock (fst z) = Inr True \<and> pf_open (fst z) = Inr (concat (map (frame \<circ> record_of C) (snd z))) \<and>
     pf_now (fst z) = now \<and> cap \<le> length (pf_data (fst z)) \<and> cap \<le> length (pf_raminBuf (fst z))"

lemma fits_mono: "fits a c \<Longrightarrow> a \<le> b \<Longrightarrow> fits b c"
  by (simp add: fits_def)

lemma load_file_holds:
  assumes "file_holds C cap now (f, xs)" and "\<forall>x \<in> set xs. storable C cap x"
  shows "load_file C D cfg f st = load_records C D cfg f (map (record_of C) xs) st"
proof -
  have "load_loop C D cfg f (NewReader (concat (map (frame \<circ> record_of C) xs)), pf_data f, pf_raminBuf f) st =
      load_records C D cfg f (map (record_of C) xs) st"
  proof (rule load_loop_frames)
    show "rd_contents (NewReader (concat (map (frame \<circ> record_of C) xs))) = concat (map frame (map (record_of C) xs))"
      by (simp add: NewReader_def rd_contents_def)
    show "\<forall>c \<in> set (map (record_of C) xs). fits (length (pf_data f)) c \<and> length c \<le> length (pf_raminBuf f)"
    proof
      fix c assume "c \<in> set (map (record_of C) xs)"
      then have "fits cap c" using assms(2) storable_fits by fastforce
      then show "fits (length (pf_data f)) c \<and> length c \<le> length (pf_raminBuf f)"
        using assms(1) by (auto simp: file_holds_def fits_def)
    qed
  qed
  then show ?thesis using assms(1) by (simp add: load_file_def file_holds_def)
qed

abbreviation keyed :: "(string \<times> Peer) list \<Rightarrow> ((string \<times> string) \<times> Peer) list" where
  "keyed xs \<equiv> map (\<lambda>x. (rkey x, snd x)) xs"

lemma keyed_None: "map_of (keyed xs) k = None \<longleftrightarrow> k \<notin> rkey ` set xs"
  by (auto simp: map_of_eq_None_iff image_iff)

lemma load_files_storable:
  assumes "codec_laws C" and "xok m" and "distinct (map rkey (concat (map snd zs)))"
    and "\<forall>x \<in> set (concat (map snd zs)). storable C cap x"
    and "\<forall>x \<in> set (concat (map snd zs)). peer_at (mux_view D m) (fst x) (GetKey (snd x)) = None"
    and "\<forall>z \<in> set zs. file_holds C cap now z"
  shows "\<exists>m' n' e'. load_files C D cfg (map fst zs) (m, n, e) = Inr (m', n', e') \<and> xok m' \<and>
    (\<forall>ih k. map_option nonil_peer (peer_at (mux_view D m') ih k) =
       (case map_of (keyed (concat (map snd zs))) (ih, k) of
          Some p \<Rightarrow> if fresh_at cfg now p then Some (nonil_peer (wire_peer p)) else None
        | None \<Rightarrow> map_option nonil_peer (peer_at (mux_view D m) ih k)))"
  using assms(2-)
proof (induction zs arbitrary: m n e)
  case Nil
  then show ?case by simp
next
  case (Cons z zs)
  obtain f xs where z: "z = (f, xs)" by fastforce
  let ?ys = "concat (map snd zs)"
  have fh: "file_holds C cap now (f, xs)" and nw: "pf_now f = now" using Cons.prems(5) z by (auto simp: file_holds_def)
  have st: "\<forall>x \<in> set xs. storable C cap x" using Cons.prems(3) z by simp
  have disj: "rkey ` set xs \<inter> rkey ` set ?ys = {}" using Cons.prems(2) z by simp
  obtain m1 n1 e1 where l1: "load_file C D cfg f (m, n, e) = Inr (m1, n1, e1)" and ok1: "xok m1"
    and v1: "\<And>ih k. map_option nonil_peer (peer_at (mux_view D m1) ih k) =
       (case map_of (keyed xs) (ih, k) of
          Some p \<Rightarrow> if fresh_at cfg now p then Some (nonil_peer (wire_peer p)) else None
        | None \<Rightarrow> map_option nonil_peer (peer_at (mux_view D m) ih k))"
    using load_records_storable [OF assms(1) Cons.prems(1) _ st, of cfg f n e] Cons.prems(2,4) z nw
    by (auto simp: load_file_holds [OF fh st])
  have none1: "\<forall>x \<in> set ?ys. peer_at (mux_view D m1) (fst x) (GetKey (snd x)) = None"
  proof
    fix x assume x: "x \<in> set ?ys"
    then have "map_of (keyed xs) (rkey x) = None" using disj by (auto simp: keyed_None)
    then show "peer_at (mux_view D m1) (fst x) (GetKey (snd x)) = None"
      using v1 [of "fst x" "GetKey (snd x)"] Cons.prems(4) x by (simp add: rkey_def)
  qed
  obtain m2 n2 e2 where l2: "load_files C D cfg (map fst zs) (m1, n1, e1) = Inr (m2, n2, e2)" and ok2: "xok m2"
    and v2: "\<And>ih k. map_option nonil_peer (peer_at (mux_view D m2) ih k) =
       (case map_of (keyed ?ys) (ih, k) of
          Some p \<Rightarrow> if fresh_at cfg now p then Some (nonil_peer (wire_peer p)) else None
        | None \<Rightarrow> map_option nonil_peer (peer_at (mux_view D m1) ih k))"
    using Cons.IH [OF ok1 _ _ none1, of n1 e1] Cons.prems(2,3,5) z by auto
  have dom: "map_of (keyed xs) k = None \<or> map_of (keyed ?ys) k = None" for k
    using disj by (auto simp: keyed_None)
  have "map_option nonil_peer (peer_at (mux_view D m2) ih k) =
       (case map_of (keyed (concat (map snd (z # zs)))) (ih, k) of
          Some p \<Rightarrow> if fresh_at cfg now p then Some (nonil_peer (wire_peer p)) else None
        | None \<Rightarrow> map_option nonil_peer (peer_at (mux_view D m) ih k))" for ih k
    using dom [of "(ih, k)"] by (auto simp: v2 v1 z map_of_append map_add_def split: option.splits)
  with l1 l2 ok2 show ?case by (simp add: z)
qed

text \<open>The records are the abstract state as a list.\<close>

lemma keyed_records:
  assumes ok: "xok m"
  shows "map_of (keyed (mux_records D m)) (ih, k) = peer_at (mux_view D m) ih k"
proof -
  have d: "distinct (map fst (keyed (mux_records D m)))" using mux_records_distinct [OF ok] by (simp add: comp_def)
  have key: "GetKey p = k" if "peer_at (mux_view D m) ih k = Some p" for p
  proof -
    from that obtain ptr where "rview (mx_heap m ptr) k = Some p"
      by (auto simp: peer_at_def mux_view_def mgr_view_def bind_eq_Some_conv)
    moreover have "rok (mx_heap m ptr)" using mok_rootD(1) [OF mux_ok_shard(2) [OF ok]] by simp
    ultimately show ?thesis using P.root_ok_key by (simp add: GetKey_def)
  qed
  have "map_of (keyed (mux_records D m)) (ih, k) = Some p \<longleftrightarrow> (ih, p) \<in> set (mux_records D m) \<and> GetKey p = k" for p
    unfolding map_of_eq_Some_iff [OF d] by (force simp: image_iff rkey_def)
  then have "map_of (keyed (mux_records D m)) (ih, k) = Some p \<longleftrightarrow> peer_at (mux_view D m) ih k = Some p" for p
    using key by (auto simp: mux_records_iff [OF ok])
  then show ?thesis by (metis option.exhaust)
qed

lemma snapshot_restores:
  assumes laws: "codec_laws C" and ok: "xok m" and ok0: "xok m0" and empty: "mux_view D m0 = Map.empty"
    and on: "mem_EnablePersist (t_Memory (c_Tracker cfg))"
    and env: "se_mkdir env = None" "\<And>i. se_run env i \<and> se_lock env i = None \<and> se_open env i = None"
    and st: "\<And>ih k p. peer_at (mux_view D m) ih k = Some p \<Longrightarrow> storable C cap (ih, p)"
    and files: "map (\<lambda>f. (pf_name f, pf_open f)) fs = map (\<lambda>(name, c). (name, Inr c)) (StoreToPersist C D cfg env m)"
    and fs: "\<And>f. f \<in> set fs \<Longrightarrow> pf_lock f = Inr True \<and> pf_now f = now \<and> cap \<le> length (pf_data f) \<and> cap \<le> length (pf_raminBuf f)"
  shows "\<exists>m1. LoadFromPersist C D cfg fs m0 = Inr (m1, map pf_name fs) \<and> xok m1 \<and>
    (\<forall>ih k. map_option nonil_peer (peer_at (mux_view D m1) ih k) =
       (case peer_at (mux_view D m) ih k of
          Some p \<Rightarrow> if fresh_at cfg now p then Some (nonil_peer (wire_peer p)) else None
        | None \<Rightarrow> None))"
proof -
  let ?n = "length (localList m)"
  define rs where "rs = map (\<lambda>i. shard_records D (worker i m)) [0..<?n]"
  have all: "concat rs = mux_records D m" by (simp add: rs_def mux_records_def)
  have stx: "\<forall>x \<in> set (mux_records D m). storable C cap x"
    using st by (auto simp: mux_records_iff [OF ok])
  have sto: "StoreToPersist C D cfg env m =
      map (\<lambda>i. (persist_fileName cfg i, concat (map (frame \<circ> record_of C) (shard_records D (worker i m))))) [0..<?n]"
  proof -
    have "fst (store_shard C D (worker i m) 0) = concat (map (frame \<circ> record_of C) (shard_records D (worker i m)))"
      if "i < ?n" for i
      by (rule store_shard_frames) (use stx that in \<open>auto simp: mux_records_def\<close>)
    then show ?thesis using on env by (simp add: StoreToPersist_def)
  qed
  have len: "length fs = length rs" using arg_cong [OF files, of length] by (simp add: sto rs_def)
  have op: "pf_open (fs ! i) = Inr (concat (map (frame \<circ> record_of C) (rs ! i)))" if "i < length rs" for i
    using arg_cong [OF files, of "\<lambda>xs. snd (xs ! i)"] that len by (simp add: sto rs_def)
  let ?zs = "zip fs rs"
  have zs: "map fst ?zs = fs" "map snd ?zs = rs" using len by simp_all
  have "\<forall>z \<in> set ?zs. file_holds C cap now z"
    using len op fs by (auto simp: file_holds_def set_zip)
  then obtain m1 n e where l: "load_files C D cfg fs (m0, 0, 0) = Inr (m1, n, e)" and ok1: "xok m1"
    and v: "\<And>ih k. map_option nonil_peer (peer_at (mux_view D m1) ih k) =
       (case map_of (keyed (mux_records D m)) (ih, k) of
          Some p \<Rightarrow> if fresh_at cfg now p then Some (nonil_peer (wire_peer p)) else None
        | None \<Rightarrow> map_option nonil_peer (peer_at (mux_view D m0) ih k))"
    using load_files_storable [OF laws ok0, of ?zs cap now cfg 0 0] mux_records_distinct [OF ok] stx empty
    by (auto simp: zs all peer_at_def simp del: map_fst_zip map_snd_zip)
  have "LoadFromPersist C D cfg fs m0 = Inr (m1, map pf_name fs)" using on l by (simp add: LoadFromPersist_def)
  with ok1 show ?thesis using v by (auto simp: keyed_records [OF ok] empty peer_at_def split: option.splits)
qed

end

end
