(* ===== verification/Local_Props.thy ===== *)
theory Local_Props
  imports Local_Ops
begin

text \<open>
  The properties of the in-memory manager, stated for any pair of lawful string maps, and the
  witnesses that apply them to the repository's own map. The example used by the witnesses is a
  tracker with a time to live of one hour and room for ten peers a torrent, and clients that
  announce the torrent \<^verbatim>\<open>T\<close>.
\<close>

section \<open>An example\<close>

definition demoCfg :: Config where
  "demoCfg = zeroConfig\<lparr>c_Tracker := (c_Tracker zeroConfig)\<lparr>t_TTL := 3600,
     t_Memory := (t_Memory (c_Tracker zeroConfig))\<lparr>mem_MaxPeersPerTorrent := 10\<rparr>\<rparr>\<rparr>"

definition demoReq :: "string \<Rightarrow> string \<Rightarrow> AnnounceRequest" where
  "demoReq peer event = zeroRequest\<lparr>r_InfoHash := ''T'', r_PeerID := peer, r_Event := event,
     r_ClientIP := Some [8, 8, 8, 8], r_Port := 6881, r_NumWant := 50, r_Left := 1000\<rparr>"

text \<open>Times in nanoseconds, given in seconds.\<close>

definition demoEnv :: "int \<Rightarrow> action list \<Rightarrow> announce_env" where
  "demoEnv secs as = \<lparr>now_seen = secs * 1000000000, now_expire = secs * 1000000000, schedule = as\<rparr>"

definition inOrder :: "action list" where
  "inOrder = [Upsert, Collect, Delete, Rotate]"

definition demoPeer :: "string \<Rightarrow> string \<Rightarrow> int \<Rightarrow> Peer" where
  "demoPeer peer event secs = newPeer (demoReq peer event) (secs * 1000000000)"

type_synonym sync_Manager = "((string, root_ptr) Map, (string, Peer) Map) Manager"

definition demoMgr :: sync_Manager where
  "demoMgr = snd (HandleAnnouncePeer syncMaps demoCfg (demoEnv 0 inOrder) (demoReq ''A'' ''started'')
     (NewLocalManger syncMaps))"

lemma demoCfg_TTL: "t_TTL (c_Tracker demoCfg) = 3600"
  by (simp add: demoCfg_def)

lemma demoCfg_simps [simp]:
  "expireTime demoCfg now = now - 3600000000000" "half_limit demoCfg = 5"
  "redis_Enable (c_Cache demoCfg) = False"
proof -
  have "sane_ttl demoCfg" by (simp add: sane_ttl_def demoCfg_TTL)
  then show "expireTime demoCfg now = now - 3600000000000" by (simp add: expireTime_sane demoCfg_TTL)
qed (simp_all add: demoCfg_def half_limit_def zeroConfig_def go_div_def)

lemma demoReq_simps [simp]:
  "r_InfoHash (demoReq peer event) = ''T''" "r_PeerID (demoReq peer event) = peer"
  "r_Event (demoReq peer event) = event" "r_NumWant (demoReq peer event) = 50"
  by (simp_all add: demoReq_def)

lemma demoEnv_simps [simp]:
  "now_seen (demoEnv secs as) = secs * 1000000000" "now_expire (demoEnv secs as) = secs * 1000000000"
  "schedule (demoEnv secs as) = as"
  by (simp_all add: demoEnv_def)

lemma demoPeer_simps [simp]:
  "p_ID (demoPeer peer event secs) = peer" "p_LastSeen (demoPeer peer event secs) = secs * 1000000000"
  "p_Event (demoPeer peer event secs) = ParsePeerEvent event" "p_Type (demoPeer peer event secs) = PeerTypeBittorrent"
  "p_Left (demoPeer peer event secs) = 1000"
  by (simp_all add: demoPeer_def newPeer_def demoReq_def zeroRequest_def PeerTypeBittorrent_def)

lemma demo_valid [simp]: "valid_addresses (newPeer (demoReq peer event) now)"
  by (simp add: valid_addresses_def newPeer_def demoReq_def zeroRequest_def ParseIP_def)

lemma demo_connectable [simp]: "IsPeerConnectable demoCfg (newPeer (demoReq peer event) now)"
  by (simp add: IsPeerConnectable_def newPeer_def demoReq_def zeroRequest_def GetIP_def demoCfg_def zeroConfig_def
      PeerTypeBittorrent_def IsPrivate_def IsLoopback_def To4_def ip_bytes_def Let_def)

lemma inOrder_schedule [simp]: "inOrder \<in> set schedules"
  by (simp add: inOrder_def schedules_def)

lemma not_stopped [simp]: "ParsePeerEvent ''started'' \<noteq> PeerEvent_Stopped" "ParsePeerEvent ''stopped'' = PeerEvent_Stopped"
  by (simp_all add: ParsePeerEvent_def PeerEvent_defs)

lemma demoMgr_spec [simp]:
  "mgr_ok syncMaps map_ok map_ok demoMgr"
  "mgr_view syncMaps demoMgr = [''T'' \<mapsto> [''A'' \<mapsto> demoPeer ''A'' ''started'' 0]]"
proof -
  let ?m = "NewLocalManger syncMaps" and ?e = "demoEnv 0 inOrder" and ?q = "demoReq ''A'' ''started''"
  obtain m' where a: "HandleAnnouncePeer syncMaps demoCfg ?e ?q ?m = (Inr [], m')"
    and ok: "mgr_ok syncMaps map_ok map_ok m'"
    and v: "mgr_view syncMaps m' = (mgr_view syncMaps ?m)(''T'' \<mapsto> [''A'' \<mapsto> demoPeer ''A'' ''started'' 0])"
    by (rule synclocal.announce_first [of ?m ?q ?e demoCfg])
      (simp_all add: synclocal.mok_New synclocal.mgr_view_New demoPeer_def)
  show "mgr_ok syncMaps map_ok map_ok demoMgr"
    "mgr_view syncMaps demoMgr = [''T'' \<mapsto> [''A'' \<mapsto> demoPeer ''A'' ''started'' 0]]"
    using ok v by (simp_all add: demoMgr_def a synclocal.mgr_view_New)
qed

section \<open>Announcing\<close>

text \<open>
  C1. The answer to an announce of a known torrent, whatever the scheduler does: only peers of this
  torrent that are not expired, of the same type, still connected when they are websocket peers, not
  stopped, and not the caller itself; each at most once; and as many of them as there are, up to the
  number wanted (none when that number is not positive).
\<close>

theorem announce_response:
  assumes "local_maps D rinv pinv" and "mgr_ok D rinv pinv m"
    and "valid_addresses (newPeer req (now_seen env))"
    and "ParsePeerEvent (r_Event req) \<noteq> PeerEvent_Stopped"
    and "mgr_view D m (r_InfoHash req) = Some sw" and "schedule env \<in> set schedules"
  shows "\<exists>ps. fst (HandleAnnouncePeer D cfg env req m) = Inr ps \<and> distinct (map p_ID ps) \<and>
    set ps \<subseteq> eligibles (expireTime cfg (now_expire env)) (newPeer req (now_seen env)) sw \<and>
    length ps = min (nat (r_NumWant req))
      (card (eligibles (expireTime cfg (now_expire env)) (newPeer req (now_seen env)) sw))"
proof -
  from assms(5) obtain ptr where p: "sm_Load (rootOps D) (infoHashMap m) (r_InfoHash req) = Some ptr"
    and sw: "sw = root_view (peerOps D) (heap m ptr)" by (auto simp: mgr_view_def)
  have st: "p_Event (newPeer req (now_seen env)) \<noteq> PeerEvent_Stopped" using assms(4) by simp
  let ?m1 = "register_callback req (newPeer req (now_seen env)) ptr m"
  let ?ps = "fst (run_actions D cfg (now_expire env) req ptr (newPeer req (now_seen env)) (schedule env) ([], []) ?m1)"
  have a: "fst (HandleAnnouncePeer D cfg env req m) = Inr ?ps"
    by (rule local_maps.announce_known [OF assms(1,2,3) p st, of cfg]) simp
  have "root_ok (peerOps D) pinv (heap ?m1 ptr)"
    using assms(2) by (simp add: mgr_ok_def local_maps.register_callback_simps [OF assms(1)])
  from local_maps.response_spec [OF assms(1) this assms(6)] a show ?thesis
    by (auto simp: sw local_maps.register_callback_simps [OF assms(1)])
qed

theorem announce_response_witness:
  "\<exists>ps. fst (HandleAnnouncePeer syncMaps demoCfg (demoEnv 60 inOrder) (demoReq ''B'' ''started'') demoMgr) = Inr ps \<and>
    ps = [demoPeer ''A'' ''started'' 0]"
proof -
  let ?el = "eligibles (expireTime demoCfg (now_expire (demoEnv 60 inOrder)))
    (newPeer (demoReq ''B'' ''started'') (now_seen (demoEnv 60 inOrder))) [''A'' \<mapsto> demoPeer ''A'' ''started'' 0]"
  have el: "?el = {demoPeer ''A'' ''started'' 0}"
    by (auto simp: eligibles_def eligible_def newPeer_def demoReq_def zeroRequest_def PeerTypeBittorrent_def
        PeerTypeWebtorrent_def)
  from announce_response [OF synclocal.local_maps_axioms, of demoMgr "demoReq ''B'' ''started''" "demoEnv 60 inOrder"
      "[''A'' \<mapsto> demoPeer ''A'' ''started'' 0]" demoCfg]
  obtain ps where "fst (HandleAnnouncePeer syncMaps demoCfg (demoEnv 60 inOrder) (demoReq ''B'' ''started'') demoMgr) = Inr ps"
    and "set ps \<subseteq> ?el" "length ps = min 50 (card ?el)" by auto
  moreover from this have "ps = [demoPeer ''A'' ''started'' 0]"
    unfolding el by (cases ps) auto
  ultimately show ?thesis by blast
qed

text \<open>
  C2. An announce of a reachable, running peer is on record afterwards, with the time, event and
  transfer counters it reported: for a torrent that is new, and for a known one under every
  schedule in which the deletion of expired peers does not overtake the upsert, or whenever the
  peer's own previous record had not expired.
\<close>

theorem announce_recorded:
  assumes "local_maps D rinv pinv" and "mgr_ok D rinv pinv m"
    and "valid_addresses (newPeer req (now_seen env))" and "IsPeerConnectable cfg (newPeer req (now_seen env))"
    and "ParsePeerEvent (r_Event req) \<noteq> PeerEvent_Stopped"
    and "schedule env \<in> set schedules" and "expireTime cfg (now_expire env) \<le> now_seen env"
    and "overtaken (schedule env) \<Longrightarrow> \<forall>p. mgr_peer D m (r_InfoHash req) (r_PeerID req) = Some p \<longrightarrow>
      expireTime cfg (now_expire env) \<le> p_LastSeen p"
  shows "\<exists>p. mgr_peer D (snd (HandleAnnouncePeer D cfg env req m)) (r_InfoHash req) (r_PeerID req) = Some p \<and>
    announced (newPeer req (now_seen env)) p"
proof (cases "sm_Load (rootOps D) (infoHashMap m) (r_InfoHash req)")
  case None
  let ?peer = "newPeer req (now_seen env)"
  from None have n: "mgr_view D m (r_InfoHash req) = None" by (simp add: mgr_view_def)
  obtain m' where "HandleAnnouncePeer D cfg env req m = (Inr [], m')"
    and "mgr_view D m' = (mgr_view D m)(r_InfoHash req \<mapsto> [r_PeerID req \<mapsto> ?peer])"
    by (rule local_maps.announce_first [OF assms(1,2,3) n, of cfg]) (use assms(4,5) in simp)
  then show ?thesis by (simp add: mgr_peer_def announced_def)
next
  case (Some ptr)
  let ?peer = "newPeer req (now_seen env)"
  let ?r = "run_root D cfg (now_expire env) req ?peer (schedule env) [] (heap m ptr)"
  have st: "p_Event ?peer \<noteq> PeerEvent_Stopped" using assms(5) by simp
  obtain m' where m': "snd (HandleAnnouncePeer D cfg env req m) = m'"
    and v: "mgr_view D m' = (mgr_view D m)(r_InfoHash req \<mapsto> root_view (peerOps D) ?r)"
    by (rule local_maps.announce_known [OF assms(1,2,3) Some st, of cfg]) simp
  have ok: "root_ok (peerOps D) pinv (heap m ptr)" using assms(2) by (simp add: mgr_ok_def)
  have fresh: "expireTime cfg (now_expire env) \<le> p_LastSeen ?peer" using assms(7) by simp
  have race: "\<forall>p. root_view (peerOps D) (heap m ptr) (p_ID ?peer) = Some p \<longrightarrow> expireTime cfg (now_expire env) \<le> p_LastSeen p"
    if "overtaken (schedule env)"
    using assms(8) [OF that] Some by (simp add: mgr_peer_def mgr_view_def)
  from local_maps.run_root_stores [OF assms(1) ok assms(4,6) fresh race, of req "[]"] v show ?thesis
    by (simp add: m' mgr_peer_def)
qed

theorem announce_recorded_witness:
  "\<exists>p. mgr_peer syncMaps (snd (HandleAnnouncePeer syncMaps demoCfg
      (demoEnv 60 [Collect, Upsert, Delete, Rotate]) (demoReq ''A'' ''completed'') demoMgr)) ''T'' ''A'' = Some p \<and>
    p_LastSeen p = 60 * 1000000000 \<and> p_Event p = PeerEvent_Completed"
proof -
  have "\<exists>p. mgr_peer syncMaps (snd (HandleAnnouncePeer syncMaps demoCfg
      (demoEnv 60 [Collect, Upsert, Delete, Rotate]) (demoReq ''A'' ''completed'') demoMgr))
      (r_InfoHash (demoReq ''A'' ''completed'')) (r_PeerID (demoReq ''A'' ''completed'')) = Some p \<and>
    announced (newPeer (demoReq ''A'' ''completed'') (now_seen (demoEnv 60 [Collect, Upsert, Delete, Rotate]))) p"
    by (rule announce_recorded [OF synclocal.local_maps_axioms])
      (simp_all add: schedules_def mgr_peer_def ParsePeerEvent_def PeerEvent_defs)
  then show ?thesis by (auto simp: announced_def ParsePeerEvent_def)
qed


text \<open>
  C9. A peer that reports that it stopped is removed from its torrent and gets no peers; nothing
  else changes.
\<close>

theorem announce_stop:
  assumes "local_maps D rinv pinv" and "mgr_ok D rinv pinv m"
    and "valid_addresses (newPeer req (now_seen env))"
    and "ParsePeerEvent (r_Event req) = PeerEvent_Stopped" and "mgr_view D m (r_InfoHash req) = Some sw"
  shows "fst (HandleAnnouncePeer D cfg env req m) = Inr [] \<and>
    mgr_view D (snd (HandleAnnouncePeer D cfg env req m)) =
      (mgr_view D m)(r_InfoHash req \<mapsto> sw(r_PeerID req := None)) \<and>
    outbox (snd (HandleAnnouncePeer D cfg env req m)) = outbox m"
proof -
  have st: "p_Event (newPeer req (now_seen env)) = PeerEvent_Stopped" using assms(4) by simp
  show ?thesis
    by (rule local_maps.announce_stopped [OF assms(1,2,3,5) st, of cfg]) (simp add: shrinks_def)
qed

theorem announce_stop_witness:
  "mgr_view syncMaps (snd (HandleAnnouncePeer syncMaps demoCfg (demoEnv 60 inOrder) (demoReq ''A'' ''stopped'') demoMgr)) =
    [''T'' \<mapsto> Map.empty]"
  using announce_stop [OF synclocal.local_maps_axioms, of demoMgr "demoReq ''A'' ''stopped''" "demoEnv 60 inOrder"
      "[''A'' \<mapsto> demoPeer ''A'' ''started'' 0]" demoCfg] by simp

text \<open>
  C10. A torrent is created by its first announce, with the announcing peer as its only peer if that
  is reachable and not stopping, and with no peers in the answer; the event is handed to the producer.
\<close>

theorem announce_new_torrent:
  assumes "local_maps D rinv pinv" and "mgr_ok D rinv pinv m"
    and "valid_addresses (newPeer req (now_seen env))" and "mgr_view D m (r_InfoHash req) = None"
  shows "fst (HandleAnnouncePeer D cfg env req m) = Inr [] \<and>
    mgr_view D (snd (HandleAnnouncePeer D cfg env req m)) = (mgr_view D m)(r_InfoHash req \<mapsto>
      (if IsPeerConnectable cfg (newPeer req (now_seen env)) \<and> ParsePeerEvent (r_Event req) \<noteq> PeerEvent_Stopped
       then [r_PeerID req \<mapsto> newPeer req (now_seen env)] else Map.empty)) \<and>
    outbox (snd (HandleAnnouncePeer D cfg env req m)) = outbox m @ [(r_InfoHash req, newPeer req (now_seen env))]"
  by (rule local_maps.announce_first [OF assms, of cfg]) simp

theorem announce_new_torrent_witness:
  "mgr_view syncMaps (snd (HandleAnnouncePeer syncMaps demoCfg (demoEnv 0 inOrder)
     (demoReq ''A'' ''stopped'') (NewLocalManger syncMaps))) = [''T'' \<mapsto> Map.empty]"
  using announce_new_torrent [OF synclocal.local_maps_axioms, of "NewLocalManger syncMaps" "demoReq ''A'' ''stopped''"
      "demoEnv 0 inOrder" demoCfg] by (simp add: synclocal.mok_New synclocal.mgr_view_New)

text \<open>
  C11. Torrents do not interfere: an announce leaves the swarm of every other torrent as it is,
  whatever the schedule, and keeps the invariant of the manager.
\<close>

theorem announce_isolated:
  assumes "local_maps D rinv pinv" and "mgr_ok D rinv pinv m" and "ih \<noteq> r_InfoHash req"
  shows "mgr_view D (snd (HandleAnnouncePeer D cfg env req m)) ih = mgr_view D m ih \<and>
    mgr_ok D rinv pinv (snd (HandleAnnouncePeer D cfg env req m))"
proof -
  let ?peer = "newPeer req (now_seen env)"
  consider "\<not> valid_addresses ?peer" | "valid_addresses ?peer" "mgr_view D m (r_InfoHash req) = None"
    | sw where "valid_addresses ?peer" "mgr_view D m (r_InfoHash req) = Some sw" "p_Event ?peer = PeerEvent_Stopped"
    | ptr where "valid_addresses ?peer" "sm_Load (rootOps D) (infoHashMap m) (r_InfoHash req) = Some ptr"
        "p_Event ?peer \<noteq> PeerEvent_Stopped"
    by (cases "sm_Load (rootOps D) (infoHashMap m) (r_InfoHash req)") (auto simp: mgr_view_def)
  then show ?thesis
  proof cases
    case 1
    then show ?thesis using assms(2) by (simp add: local_maps.announce_invalid [OF assms(1)])
  next
    case 2
    show ?thesis by (rule local_maps.announce_first [OF assms(1,2) 2, of cfg]) (use assms(3) in simp)
  next
    case 3
    show ?thesis
      by (rule local_maps.announce_stopped [OF assms(1,2) 3, of cfg])
        (use assms local_maps.shrinks_mok in auto)
  next
    case 4
    show ?thesis by (rule local_maps.announce_known [OF assms(1,2) 4, of cfg]) (use assms(3) in simp)
  qed
qed

theorem announce_isolated_witness:
  "mgr_view syncMaps (snd (HandleAnnouncePeer syncMaps demoCfg (demoEnv 60 inOrder)
     ((demoReq ''A'' ''started'')\<lparr>r_InfoHash := ''U''\<rparr>) demoMgr)) ''T'' = Some [''A'' \<mapsto> demoPeer ''A'' ''started'' 0]"
  using announce_isolated [OF synclocal.local_maps_axioms, of demoMgr "''T''" "(demoReq ''A'' ''started'')\<lparr>r_InfoHash := ''U''\<rparr>"
      demoCfg "demoEnv 60 inOrder"] by simp

section \<open>Reachable states\<close>

text \<open>
  In every state the manager can reach, by announces under any schedule, scrapes, cleaning runs,
  deletions and closed connections, a torrent holds at most the configured number of peers plus
  three, each under its own identifier, and none that reported that it stopped.
\<close>

theorem reachable_swarms:
  assumes "local_maps D rinv pinv" and "0 \<le> mem_MaxPeersPerTorrent (t_Memory (c_Tracker cfg))"
    and "local_reachable D cfg Client codec (m, c)" and "mgr_view D m ih = Some sw"
  shows "finite (dom sw) \<and> int (card (dom sw)) \<le> mem_MaxPeersPerTorrent (t_Memory (c_Tracker cfg)) + 3 \<and>
    (\<forall>k p. sw k = Some p \<longrightarrow> p_ID p = k \<and> p_Event p \<noteq> PeerEvent_Stopped)"
proof -
  have h: "0 \<le> half_limit cfg" "2 * half_limit cfg \<le> mem_MaxPeersPerTorrent (t_Memory (c_Tracker cfg))"
    using assms(2) by (auto simp: half_limit_def go_div_def sgn_if)
  have inv: "mgr_inv D rinv pinv cfg m"
    using local_maps.mgr_inv_reachable [OF assms(1,3) h(1)] by simp
  note v = local_maps.mgr_inv_view [OF assms(1) inv assms(4)]
  show ?thesis using v(1,2) h(2) v(3) v(4) by (auto simp: running_def)
qed

theorem reachable_swarms_witness:
  "int (card (dom [''A'' \<mapsto> demoPeer ''A'' ''started'' 0])) \<le> 10 + 3"
proof -
  have "local_step syncMaps demoCfg (mapClient :: (string \<rightharpoonup> string) RedisClient) undefined
      (NewLocalManger syncMaps, Map.empty) (demoMgr, Map.empty)"
    unfolding demoMgr_def by (rule step_announce) simp
  then have "local_reachable syncMaps demoCfg (mapClient :: (string \<rightharpoonup> string) RedisClient) undefined
      (demoMgr, Map.empty)"
    by (rule reach_step [OF reach_init])
  from reachable_swarms [OF synclocal.local_maps_axioms _ this, of "''T''" "[''A'' \<mapsto> demoPeer ''A'' ''started'' 0]"]
  show ?thesis by (simp add: demoCfg_def)
qed

section \<open>Scraping, cleaning, counting\<close>

text \<open>
  C15. A scrape that is not served from the cache counts exactly the peers that are not expired:
  complete ones (nothing left or a completion reported), incomplete ones, those with nothing left,
  and among these the ones still running. It removes exactly the expired peers of the torrent. A
  torrent that is not known counts zero throughout.
\<close>

theorem Scrape_counts:
  assumes "local_maps D rinv pinv" and "mgr_ok D rinv pinv m" and "\<not> redis_Enable (c_Cache cfg)"
  shows "fst (Scrape D cfg Client codec now ih (m, c)) =
      (case mgr_view D m ih of None \<Rightarrow> emptyScrapeFile | Some sw \<Rightarrow> scrape_of (expireTime cfg now) sw) \<and>
    mgr_view D (fst (snd (Scrape D cfg Client codec now ih (m, c)))) =
      (case mgr_view D m ih of None \<Rightarrow> mgr_view D m
       | Some sw \<Rightarrow> (mgr_view D m)(ih \<mapsto> live (expireTime cfg now) sw))"
proof (cases "mgr_view D m ih")
  case None
  then show ?thesis by (simp add: Scrape_def mgr_view_def)
next
  case (Some sw)
  then show ?thesis by (simp add: local_maps.Scrape_uncached [OF assms(1,2) Some assms(3)])
qed

theorem Scrape_counts_witness:
  "fst (Scrape syncMaps demoCfg (downClient :: unit RedisClient) undefined (60 * 1000000000) ''T'' (demoMgr, ())) =
    \<lparr>sf_Seeder = 0, sf_Complete = 0, sf_Incomplete = 1, sf_Downloaded = 0\<rparr>"
proof -
  have one: "{k. \<exists>p. (if k = ''A'' then Some x else None) = Some p \<and> Q p} = (if Q x then {''A''} else {})" for Q and x :: Peer
    by auto
  have "ParsePeerEvent ''started'' \<noteq> PeerEvent_Completed" by (simp add: ParsePeerEvent_def PeerEvent_defs)
  with Scrape_counts [OF synclocal.local_maps_axioms, of demoMgr demoCfg downClient undefined "60 * 1000000000" "''T''" "()"]
  show ?thesis by (simp add: scrape_of_def swarm_count_def one)
qed

text \<open>
  The counters of a scrape fit together: complete and incomplete add up to the peers that are
  not expired, and the seeders are among the downloaded, which are among the complete.
\<close>

theorem Scrape_consistent:
  assumes "local_maps D rinv pinv" and "mgr_ok D rinv pinv m" and "\<not> redis_Enable (c_Cache cfg)"
    and "mgr_view D m ih = Some sw"
  shows "let f = fst (Scrape D cfg Client codec now ih (m, c)) in
    sf_Complete f + sf_Incomplete f = int (card (dom (live (expireTime cfg now) sw))) \<and>
    0 \<le> sf_Seeder f \<and> sf_Seeder f \<le> sf_Downloaded f \<and> sf_Downloaded f \<le> sf_Complete f"
proof -
  let ?ex = "expireTime cfg now"
  have f: "fst (Scrape D cfg Client codec now ih (m, c)) = scrape_of ?ex sw"
    by (rule local_maps.Scrape_uncached [OF assms(1,2,4,3)])
  obtain ptr where "sw = root_view (peerOps D) (heap m ptr)" using assms(4) by (auto simp: mgr_view_def)
  moreover have "root_ok (peerOps D) pinv (heap m ptr)" for ptr using assms(2) by (simp add: mgr_ok_def)
  ultimately have fin: "finite (dom sw)"
    using root_maps.finite_root_view assms(1) unfolding local_maps_def by blast
  have sub: "{k. \<exists>p. sw k = Some p \<and> R p} \<subseteq> dom sw" for R by auto
  have mono: "swarm_count ?ex P sw \<le> swarm_count ?ex Q sw" if "\<And>p. P p \<Longrightarrow> Q p" for P Q
    unfolding swarm_count_def using that by (intro card_mono finite_subset [OF sub fin]) auto
  have "dom (live ?ex sw) =
      {k. \<exists>p. sw k = Some p \<and> \<not> ?ex > p_LastSeen p \<and> (p_Left p = 0 \<or> p_Event p = PeerEvent_Completed)} \<union>
      {k. \<exists>p. sw k = Some p \<and> \<not> ?ex > p_LastSeen p \<and> p_Left p \<noteq> 0 \<and> p_Event p \<noteq> PeerEvent_Completed}"
    by (auto simp: live_def split: option.splits if_splits)
  then have "card (dom (live ?ex sw)) =
      swarm_count ?ex (\<lambda>p. p_Left p = 0 \<or> p_Event p = PeerEvent_Completed) sw +
      swarm_count ?ex (\<lambda>p. p_Left p \<noteq> 0 \<and> p_Event p \<noteq> PeerEvent_Completed) sw"
    unfolding swarm_count_def by (simp only:) (rule card_Un_disjoint, auto intro: finite_subset [OF sub fin])
  with mono [of "\<lambda>p. p_Left p = 0 \<and> p_Event p \<noteq> PeerEvent_Stopped" "\<lambda>p. p_Left p = 0"]
    mono [of "\<lambda>p. p_Left p = 0" "\<lambda>p. p_Left p = 0 \<or> p_Event p = PeerEvent_Completed"]
  show ?thesis by (simp add: f scrape_of_def Let_def)
qed

theorem Scrape_consistent_witness:
  "let f = fst (Scrape syncMaps demoCfg (downClient :: unit RedisClient) undefined 0 ''T'' (demoMgr, ())) in
    sf_Complete f + sf_Incomplete f = 1"
proof -
  have "dom (live (0 - 3600000000000) [''A'' \<mapsto> demoPeer ''A'' ''started'' 0]) = {''A''}"
    by (auto simp: live_def split: option.splits if_splits)
  with Scrape_consistent [OF synclocal.local_maps_axioms, of demoMgr demoCfg "''T''"
      "[''A'' \<mapsto> demoPeer ''A'' ''started'' 0]" downClient undefined 0 "()"]
  show ?thesis by (simp add: Let_def)
qed

text \<open>
  A cleaning run, as long as no websocket peer has expired: every torrent that was not cleaned
  within the last time to live keeps exactly its peers that are not expired, a torrent left with
  none is forgotten, and the torrents cleaned recently stay as they are.
\<close>

theorem Clean_exact:
  assumes "local_maps D rinv pinv" and "mgr_ok D rinv pinv m"
    and "\<And>ih sw k p. mgr_view D m ih = Some sw \<Longrightarrow> sw k = Some p \<Longrightarrow> expireTime cfg now > p_LastSeen p \<Longrightarrow>
      \<not> websocket_peer p"
  shows "mgr_view D (snd (Clean D cfg now m)) = clean_torrent D cfg now m"
  by (rule local_maps.Clean_spec [OF assms(1,2)]) (rule assms(3))

theorem Clean_exact_witness:
  "mgr_view syncMaps (snd (Clean syncMaps demoCfg (7200 * 1000000000) demoMgr)) ''T'' = None"
proof -
  have "mgr_view syncMaps (snd (Clean syncMaps demoCfg (7200 * 1000000000) demoMgr)) =
      clean_torrent syncMaps demoCfg (7200 * 1000000000) demoMgr"
    by (rule Clean_exact [OF synclocal.local_maps_axioms])
      (auto simp: websocket_peer_def split: if_splits)
  moreover have "clean_torrent syncMaps demoCfg (7200 * 1000000000) demoMgr ''T'' = None"
  proof -
    have "mgr_view syncMaps demoMgr ''T'' = Some [''A'' \<mapsto> demoPeer ''A'' ''started'' 0]" by simp
    then obtain ptr where p: "sm_Load (rootOps syncMaps) (infoHashMap demoMgr) ''T'' = Some ptr"
      and v: "root_view (peerOps syncMaps) (heap demoMgr ptr) = [''A'' \<mapsto> demoPeer ''A'' ''started'' 0]"
      unfolding mgr_view_def by blast
    have "(case sm_Load (rootOps syncMaps) (infoHashMap demoMgr) ''T'' of None \<Rightarrow> True
        | Some ptr \<Rightarrow> \<not> cleaned_recently demoCfg (7200 * 1000000000) (heap demoMgr ptr))" by code_simp
    with p v show ?thesis
      by (auto simp: clean_torrent_def live_def fun_eq_iff split: option.splits if_splits)
  qed
  ultimately show ?thesis by simp
qed

text \<open>
  Cleaning, scraping, deleting a torrent and closing a connection only ever forget: every
  torrent and every peer there afterwards was there before, unchanged.
\<close>

theorem forgetting_only:
  assumes "local_maps D rinv pinv" and "mgr_ok D rinv pinv m"
    and "m' \<in> {snd (Clean D cfg now m), fst (snd (Scrape D cfg Client codec now ih (m, c))),
      local_DeleteInfoHash D ih m, Conn_Close D conn m}"
    and "mgr_peer D m' ih' k = Some p"
  shows "mgr_peer D m ih' k = Some p"
proof -
  from assms(3) have "shrinks D m m'"
    using local_maps.Clean_shrinks [OF assms(1), of m cfg now]
      local_maps.Scrape_shrinks [OF assms(1), of m cfg Client codec now ih c]
      local_maps.DeleteInfoHash_shrinks(1) [OF assms(1), of m ih]
      local_maps.Conn_Close_shrinks [OF assms(1), of m conn] by auto
  moreover obtain sw' where sw': "mgr_view D m' ih' = Some sw'" "sw' k = Some p"
    using assms(4) by (auto simp: mgr_peer_def split: option.splits)
  ultimately obtain sw where "mgr_view D m ih' = Some sw" "sw' \<subseteq>\<^sub>m sw"
    by (elim local_maps.shrinks_view [OF assms(1) _ assms(2)])
  with sw'(2) show ?thesis by (auto simp: mgr_peer_def map_le_def dom_def)
qed

theorem forgetting_only_witness:
  "\<exists>p. mgr_peer syncMaps demoMgr ''T'' ''A'' = Some p"
proof -
  have "mgr_peer syncMaps (snd (Clean syncMaps demoCfg 0 demoMgr)) ''T'' ''A'' \<noteq> None" by code_simp
  then obtain p where "mgr_peer syncMaps (snd (Clean syncMaps demoCfg 0 demoMgr)) ''T'' ''A'' = Some p" by auto
  then have "mgr_peer syncMaps demoMgr ''T'' ''A'' = Some p"
    by (rule forgetting_only [OF synclocal.local_maps_axioms demoMgr_spec(1), rotated 1,
          where Client = "downClient :: unit RedisClient" and cfg = demoCfg and now = 0]) simp
  then show ?thesis ..
qed

text \<open>
  The statistics report the number of torrents and the number of peers over all torrents.
\<close>

theorem GetStatistic_counts:
  assumes "local_maps D rinv pinv" and "mgr_ok D rinv pinv m"
  shows "GetStatistic D m =
    StatisticInfo (of_nat (\<Sum>ih \<in> dom (mgr_view D m). card (dom (the (mgr_view D m ih)))))
      (of_nat (card (dom (mgr_view D m)))) []"
  by (rule local_maps.GetStatistic_spec [OF assms])

theorem GetStatistic_counts_witness: "GetStatistic syncMaps demoMgr = StatisticInfo 1 1 []"
  using GetStatistic_counts [OF synclocal.local_maps_axioms demoMgr_spec(1)] by simp

section \<open>Peer tables\<close>

text \<open>
  A rotation of a peer table drops exactly the peers of the read-only map; every peer of the
  active map, the ones that announced last, stays, and the table stays well formed.
\<close>

theorem rotation_keeps_recent:
  assumes "root_maps M minv" and "root_ok M minv r"
  shows "root_ok M minv (Root_rotate M cfg r) \<and>
    root_view M (Root_rotate M cfg r) =
      (if rotates M cfg r then root_view M r |` (- dom (sm_Load M (oldestMap r))) else root_view M r)"
  using root_maps.Root_rotate_spec [OF assms] by blast

theorem rotation_keeps_recent_witness:
  "root_view MapOps (Root_rotate MapOps demoCfg (NewInfoHashRoot MapOps 0 ''T'')) = (Map.empty :: string \<rightharpoonup> Peer)"
proof -
  have ok: "root_ok MapOps map_ok (NewInfoHashRoot MapOps 0 ''T'')" by (rule syncroot.root_ok_New)
  show ?thesis
    using rotation_keeps_recent [OF syncroot.root_maps_axioms ok, of demoCfg]
    by (auto simp: syncroot.root_view_New restrict_map_def)
qed

text \<open>
  The three maps of a peer table act as one: removing a peer returns the peer that the table
  held under the identifier, and afterwards the table holds everything else and not this peer;
  \<^verbatim>\<open>Delete\<close> does the same and reports whether there was one.
\<close>

theorem table_removal:
  assumes "root_maps M minv" and "root_ok M minv r"
  shows "snd (Root_LoadAndDelete M r k) = root_view M r k \<and>
    root_view M (fst (Root_LoadAndDelete M r k)) = (root_view M r)(k := None) \<and>
    root_ok M minv (fst (Root_LoadAndDelete M r k)) \<and>
    (snd (Root_Delete M r k) \<longleftrightarrow> root_view M r k \<noteq> None) \<and>
    root_view M (fst (Root_Delete M r k)) = (root_view M r)(k := None) \<and>
    root_ok M minv (fst (Root_Delete M r k))"
  using root_maps.Root_LoadAndDelete_spec [OF assms] root_maps.Root_Delete_spec [OF assms] by blast

theorem table_removal_witness:
  "snd (Root_LoadAndDelete MapOps (NewInfoHashRoot MapOps 0 ''T'') ''A'') = (None :: Peer option)"
  using table_removal [OF syncroot.root_maps_axioms syncroot.root_ok_New, of 0 "''T''" "''A''"]
  by (simp add: syncroot.root_view_New)

text \<open>
  \<^verbatim>\<open>Delete\<close> relies on no identifier being in two of the maps: on a table in which one is, it
  removes only the first record and the peer is still there, while \<^verbatim>\<open>LoadAndDelete\<close> removes both.
\<close>

theorem delete_first_only:
  "let p = demoPeer ''A'' ''started'' 0;
       r = (NewInfoHashRoot MapOps 0 ''T'');
       r = Root_Store MapOps r ''A'' p;
       r = Root_Store MapOps (r\<lparr>currentActive := 1\<rparr>) ''A'' p
   in Root_Load MapOps (fst (Root_Delete MapOps r ''A'')) ''A'' = Some p \<and>
      Root_Load MapOps (fst (Root_LoadAndDelete MapOps r ''A'')) ''A'' = None"
  by code_simp

end
