(* ===== verification/Mux_Props.thy ===== *)
theory Mux_Props
  imports Mux_Manager Local_Props
begin

text \<open>
  The properties of the ban lists, the address filters and the sharded manager, with witnesses on
  the repository's own map, an exact set in place of the Bloom filter, and the fallback filter.
\<close>

section \<open>Ban lists\<close>

text \<open>
  C28. A ban list never forgets: as long as the file system works, banning an identifier of 20 bytes
  succeeds, the identifier and all identifiers banned before test as banned, through the growth of
  the filter as well, and a list reopened from the file knows them all again.
\<close>

theorem ban_list_keeps:
  assumes "bloom_laws B" and "ban_ok B ts i" and "length target = 20"
    and "io_seek io = None" and "io_read io = None" and "io_write io = None" and "io_sync io = None"
  shows "fst (banItem_add B io target i) = Inr () \<and>
    ban_ok B (ts @ [target]) (snd (banItem_add B io target i)) \<and>
    (\<exists>j. newBanItem B io_ok (bi_content (snd (banItem_add B io target i))) = Inr j \<and> ban_ok B (ts @ [target]) j)"
proof -
  note a = banItem_add_spec [OF assms]
  have "\<exists>j. newBanItem B io_ok (concat (map ban_line (ts @ [target]))) = Inr j \<and> ban_ok B (ts @ [target]) j"
    by (rule newBanItem_spec [OF assms(1)]) (use a(2) in \<open>simp_all add: ban_ok_def io_ok_def\<close>)
  with a show ?thesis by (metis ban_ok_def)
qed

definition demoHash :: string where
  "demoHash = ''aaaaabbbbbcccccddddd''"

definition emptyBan :: "bytes list banItem" where
  "emptyBan = \<lparr>bi_filter = [], bi_cap = defaultFilterCap, bi_count = 0, bi_content = []\<rparr>"

lemma emptyBan_ok: "ban_ok exactBloom [] emptyBan"
  by (simp add: ban_ok_def emptyBan_def)

theorem ban_list_keeps_witness:
  "ban_ok exactBloom [demoHash] (snd (banItem_add exactBloom io_ok demoHash emptyBan))"
  using ban_list_keeps [OF exactBloom_laws emptyBan_ok, of demoHash io_ok]
  by (simp add: demoHash_def io_ok_def)

text \<open>
  An identifier of any other length is banned only until the next start: the ban is accepted
  and written to the file, but the reader of the file skips lines that do not decode to 20 bytes.
\<close>

theorem ban_short_lost:
  "let r = banItem_add exactBloom io_ok ''short'' emptyBan in
   fst r = Inr () \<and> banItem_test exactBloom (snd r) (UnsafeStringToBytes ''short'') \<and>
   (case newBanItem exactBloom io_ok (bi_content (snd r)) of
      Inr j \<Rightarrow> \<not> banItem_test exactBloom j (UnsafeStringToBytes ''short'') | Inl _ \<Rightarrow> False)"
  by code_simp

section \<open>Address filters\<close>

text \<open>
  C30. Both address filters, the fallback and the one in the kernel, on the laws of the kernel's maps,
  keep the contract of the interface: an address that was added is blocked in each of its forms until
  it is removed, a removed one is not, and a failed operation changes nothing.
\<close>

theorem filters_contract:
  assumes "bpf_laws (xe_v4 E)" and "bpf_laws (xe_v6 E)"
  shows "ip_filter fallbackOps \<and> ip_filter (xdpOps E) \<and> ip_filter (implOps E)"
  using fallback.ip_filter_axioms xdp_ip_filter [OF assms] impl_ip_filter [OF assms] by blast

definition demoXdp :: "(uint32 list, bytes list) xdp_env" where
  "demoXdp = \<lparr>xe_v4 = setBpf, xe_v6 = setBpf, xe_stats = (\<lambda>_. None), xe_link_Close = None, xe_objs_Close = None\<rparr>"

theorem filters_contract_witness: "ip_filter (implOps demoXdp)"
  using filters_contract [of demoXdp] by (simp add: demoXdp_def setBpf_laws)

text \<open>
  C31. The XDP filter is exact: after adding an address, precisely this address, in whatever form, is
  blocked beside those that were; after removing one, precisely it is no longer.
\<close>

theorem xdp_exact:
  assumes "bpf_laws (xe_v4 E)" and "bpf_laws (xe_v6 E)"
    and "xdp_AddIP E x ip = (r, x')" and "xdp_RemoveIP E x ip = (q, x'')"
  shows "(xdp_TestIP E x' ip' \<longleftrightarrow> xdp_TestIP E x ip' \<or> (r = Inr () \<and> same_addr ip ip')) \<and>
    (xdp_TestIP E x'' ip' \<longleftrightarrow> xdp_TestIP E x ip' \<and> \<not> (q = Inr () \<and> same_addr ip ip'))"
  using xdp_Add_has [OF assms(1,2,3)] xdp_Remove_has [OF assms(1,2,4)] by blast

definition emptyXdp :: "(uint32 list, bytes list) XDPFilter" where
  "emptyXdp = \<lparr>x_BlockedIpv4 = [], x_BlockedIpv6 = [], x_iface = ''eth0'', x_ipv4Count = 0, x_ipv6Count = 0\<rparr>"

theorem xdp_exact_witness:
  "xdp_TestIP demoXdp (snd (xdp_AddIP demoXdp emptyXdp (ParseIP ''8.8.8.8''))) (Some [8, 8, 8, 8])"
proof -
  have "xdp_AddIP demoXdp emptyXdp (ParseIP ''8.8.8.8'') =
      (Inr (), snd (xdp_AddIP demoXdp emptyXdp (ParseIP ''8.8.8.8'')))" by code_simp
  moreover have "same_addr (ParseIP ''8.8.8.8'') (Some [8, 8, 8, 8])" by code_simp
  ultimately show ?thesis
    using xdp_exact [of demoXdp emptyXdp "ParseIP ''8.8.8.8''" _ _ _ _ "Some [8, 8, 8, 8]"]
    by (metis demoXdp_def setBpf_laws surj_pair xdp_env.select_convs(1,2))
qed

text \<open>
  The number of blocked addresses that the XDP filter reports counts additions, not addresses:
  adding an address twice counts it twice.
\<close>

theorem xdp_stats_overcount:
  "let x = snd (xdp_AddIP demoXdp emptyXdp (Some [8, 8, 8, 8]));
       x = snd (xdp_AddIP demoXdp x (Some [8, 8, 8, 8]))
   in fs_TotalIPs (xdp_Stats demoXdp x) = 2 \<and> length (x_BlockedIpv4 x) + length (x_BlockedIpv6 x) = 1"
  by code_simp

section \<open>The sharded manager\<close>

text \<open>
  C12. The shards act as one manager: an announce that is not refused gets the answer of the shard its
  info hash belongs to, changes the swarm of this torrent as that shard does, and no other swarm of any
  shard; the shards stay well formed.
\<close>

theorem mux_announce:
  assumes "local_maps D rinv pinv" and "mux_ok D rinv pinv m" and "mux_refusal B F req (mx_ban m) = None"
  shows "let w = worker (shard_of (length (localList m)) (r_InfoHash req)) m;
             (r, m') = mux_HandleAnnouncePeer D B F cfg env req m
         in r = fst (HandleAnnouncePeer D cfg env req w) \<and> mux_ok D rinv pinv m' \<and>
            mux_view D m' = (mux_view D m)(r_InfoHash req :=
              mgr_view D (snd (HandleAnnouncePeer D cfg env req w)) (r_InfoHash req)) \<and>
            mx_ban m' = mx_ban m"
  using local_maps.mux_announce_spec [OF assms, of cfg env] by (simp add: Let_def prod.case_eq_if)

definition emptyBans :: "(bytes list, fallbackIPFilter) BanManager" where
  "emptyBans = \<lparr>bm_infoHash = emptyBan, bm_peerId = emptyBan, bm_ipFilter = newFallbackIPFilter\<rparr>"

definition demoMux :: "((string, root_ptr) Map, (string, Peer) Map, bytes list, fallbackIPFilter) MuxLocalManager" where
  "demoMux = projr (NewMuxLocalManager syncMaps demoCfg (\<lambda>_. Inr emptyBans) 4)"

lemma demoMux_ok: "mux_ok syncMaps map_ok map_ok demoMux" "mux_view syncMaps demoMux = Map.empty"
  "mx_ban demoMux = emptyBans" "length (localList demoMux) = 4"
proof -
  have new: "NewMuxLocalManager syncMaps demoCfg (\<lambda>_. Inr emptyBans) 4 = Inr demoMux"
    by (simp add: demoMux_def NewMuxLocalManager_def Let_def)
  show "mux_ok syncMaps map_ok map_ok demoMux" "mux_view syncMaps demoMux = Map.empty"
    by (rule synclocal.mux_New [OF _ _ new]; simp)+
  show "mx_ban demoMux = emptyBans" "length (localList demoMux) = 4"
    by (simp_all add: demoMux_def NewMuxLocalManager_def Let_def)
qed

lemma demoMux_admits: "mux_refusal exactBloom fallbackOps (demoReq ''A'' ''started'') (mx_ban demoMux) = None"
  by (simp add: mux_refusal_def demoMux_ok ban_Test_def getItem_def emptyBans_def emptyBan_def banItem_test_def
      exactBloom_def TestIPAddr_def fallbackOps_def fallback_TestIP_def newFallbackIPFilter_def)

theorem mux_announce_witness:
  "mux_ok syncMaps map_ok map_ok (snd (mux_HandleAnnouncePeer syncMaps exactBloom fallbackOps demoCfg
     (demoEnv 0 inOrder) (demoReq ''A'' ''started'') demoMux))"
  using mux_announce [OF synclocal.local_maps_axioms demoMux_ok(1) demoMux_admits]
  by (simp add: Let_def prod.case_eq_if)



lemma mux_BanInfoHash_spec:
  assumes "local_maps D rinv pinv" and "mux_ok D rinv pinv m" and "bloom_laws B"
    and "ban_ok B ts (bm_infoHash (mx_ban m))" and "length ih = 20"
    and "io_seek io = None" and "io_read io = None" and "io_write io = None" and "io_sync io = None"
  obtains m' where "mux_BanInfoHash D B io ih m = (Inr (), m')" and "mux_ok D rinv pinv m'"
    and "mux_view D m' = (mux_view D m)(ih := None)" and "ban_ok B (ts @ [ih]) (bm_infoHash (mx_ban m'))"
proof -
  let ?i = "shard_of (length (localList m)) ih"
  have item: "getItem (mx_ban m) BanTypeInfoHash = Inr (bm_infoHash (mx_ban m))" by (simp add: getItem_def)
  obtain b' i' where ab: "AddBan B io BanTypeInfoHash ih (mx_ban m) = (Inr (), b')"
    and "getItem b' BanTypeInfoHash = Inr i'" and ok: "ban_ok B (ts @ [ih]) i'"
    by (rule AddBan_spec [OF assms(3) item assms(4-9)])
  then have i': "bm_infoHash b' = i'" by (simp add: getItem_def)
  let ?m = "m\<lparr>mx_ban := b'\<rparr>"
  have mok: "mux_ok D rinv pinv ?m" using assms(2) by (simp add: local_maps.mux_ok_ban [OF assms(1)])
  have "mux_BanInfoHash D B io ih m = (Inr (), put_worker ?i (local_DeleteInfoHash D ih (worker ?i ?m)) ?m)"
    using mux_ok_shard(3) [OF mok, of ih]
    by (simp add: mux_BanInfoHash_def ab Let_def local_BanInfoHash_def local_DeleteInfoHash_def)
  then show ?thesis
    by (rule that) (use local_maps.mux_delete_spec [OF assms(1) mok, of ih] ok in
      \<open>simp_all add: i' local_maps.mux_view_ban [OF assms(1)]\<close>)
qed

lemma ban_ok_refuses:
  "ban_ok B ts (bm_infoHash b) \<Longrightarrow> r_InfoHash req \<in> set ts \<Longrightarrow> mux_refusal B F req b = Some ''banned info_hash''"
  by (simp add: mux_refusal_def ban_Test_def getItem_def ban_ok_def)

text \<open>
  C14. Banning an info hash works at once: with the file system working, the ban succeeds, the torrent
  is forgotten, every announce for it is refused from then on, the bans before stay, and all other
  torrents are as they were.
\<close>

theorem mux_ban_info_hash:
  assumes "local_maps D rinv pinv" and "mux_ok D rinv pinv m" and "bloom_laws B"
    and "ban_ok B ts (bm_infoHash (mx_ban m))" and "length ih = 20"
    and "io_seek io = None" and "io_read io = None" and "io_write io = None" and "io_sync io = None"
  shows "let (r, m') = mux_BanInfoHash D B io ih m in
    r = Inr () \<and> mux_ok D rinv pinv m' \<and> mux_view D m' = (mux_view D m)(ih := None) \<and>
    ban_ok B (ts @ [ih]) (bm_infoHash (mx_ban m')) \<and>
    (\<forall>req F. r_InfoHash req = ih \<longrightarrow> mux_refusal B F req (mx_ban m') = Some ''banned info_hash'')"
proof -
  obtain m' where "mux_BanInfoHash D B io ih m = (Inr (), m')" and "mux_ok D rinv pinv m'"
    and "mux_view D m' = (mux_view D m)(ih := None)" and "ban_ok B (ts @ [ih]) (bm_infoHash (mx_ban m'))"
    by (rule mux_BanInfoHash_spec [OF assms])
  then show ?thesis by (auto intro!: ban_ok_refuses [of B "ts @ [ih]"])
qed

theorem mux_ban_info_hash_witness:
  "let m' = snd (mux_BanInfoHash syncMaps exactBloom io_ok demoHash demoMux) in
   mux_refusal exactBloom fallbackOps ((demoReq ''A'' ''started'')\<lparr>r_InfoHash := demoHash\<rparr>) (mx_ban m') =
     Some ''banned info_hash''"
proof -
  have "ban_ok exactBloom [] (bm_infoHash (mx_ban demoMux))" by (simp add: demoMux_ok emptyBans_def emptyBan_ok)
  from mux_ban_info_hash [OF synclocal.local_maps_axioms demoMux_ok(1) exactBloom_laws this, of demoHash io_ok]
  show ?thesis by (simp add: demoHash_def io_ok_def Let_def prod.case_eq_if)
qed

text \<open>
  The statistics of the shards add up: the totals are those of all torrents of all shards, and the
  parts are listed by the number of the shard.
\<close>

theorem mux_statistic:
  assumes "local_maps D rinv pinv" and "mux_ok D rinv pinv m"
  shows "mux_GetStatistic D m =
    StatisticInfo (of_nat (\<Sum>ih \<in> dom (mux_view D m). card (dom (the (mux_view D m ih)))))
      (of_nat (card (dom (mux_view D m))))
      (map (\<lambda>i. (Itoa (int i), GetStatistic D (worker i m))) [0..<length (localList m)])"
  by (rule local_maps.mux_GetStatistic_spec [OF assms])

theorem mux_statistic_witness: "TotalTorrents (mux_GetStatistic syncMaps demoMux) = 0"
  using mux_statistic [OF synclocal.local_maps_axioms demoMux_ok(1)] by (simp add: demoMux_ok)

end
