(* ===== verification/Persist_Props.thy ===== *)
theory Persist_Props
  imports Persist_Correct Mux_Props
begin

text \<open>The properties of the snapshots.\<close>

section \<open>A snapshot and its restoration\<close>

text \<open>
  C8. A snapshot restores the manager: after storing to files and loading these into an empty manager,
  of any number of shards, exactly the peers that are not expired are back, each under its torrent
  and identifier, with the time of the last announce cut to seconds and without its connection. This
  holds as long as every record fits the buffers of the loader.
\<close>

theorem snapshot_roundtrip:
  assumes "local_maps D rinv pinv" and "codec_laws C" and "mux_ok D rinv pinv m" and "mux_ok D rinv pinv m0"
    and "mux_view D m0 = Map.empty" and "mem_EnablePersist (t_Memory (c_Tracker cfg))"
    and "se_mkdir env = None" and "\<And>i. se_run env i \<and> se_lock env i = None \<and> se_open env i = None"
    and "\<And>ih k p. peer_at (mux_view D m) ih k = Some p \<Longrightarrow> storable C cap (ih, p)"
    and "map (\<lambda>f. (pf_name f, pf_open f)) fs = map (\<lambda>(name, c). (name, Inr c)) (StoreToPersist C D cfg env m)"
    and "\<And>f. f \<in> set fs \<Longrightarrow> pf_lock f = Inr True \<and> pf_now f = now \<and>
      cap \<le> length (pf_data f) \<and> cap \<le> length (pf_raminBuf f)"
  shows "\<exists>m1. LoadFromPersist C D cfg fs m0 = Inr (m1, map pf_name fs) \<and> mux_ok D rinv pinv m1 \<and>
    (\<forall>ih k. map_option nonil_peer (peer_at (mux_view D m1) ih k) =
       (case peer_at (mux_view D m) ih k of
          Some p \<Rightarrow> if fresh_at cfg now p then Some (nonil_peer (wire_peer p)) else None
        | None \<Rightarrow> None))"
  by (rule local_maps.snapshot_restores [OF assms])

text \<open>A codec that knows one record, and a manager that holds just that.\<close>

definition singleCodec :: "trunker_Store \<Rightarrow> persist_codec" where
  "singleCodec s = \<lparr>
     fr_Encode = (\<lambda>t. if t = s then Inr [1] else Inl ''unsupported''),
     fr_Decode = (\<lambda>raw. Inr s),
     zs_Compress = (\<lambda>raw. Inr (0 # raw)),
     zs_DecompressInto = (\<lambda>n c. if length (tl c) \<le> n then Inr (tl c) else Inl ''Destination buffer is too small'')\<rparr>"

lemma singleCodec_laws: "codec_laws (singleCodec s)"
  by (cases s) (auto simp: codec_laws_def singleCodec_def)

definition persistCfg :: Config where
  "persistCfg = demoCfg\<lparr>c_Tracker := (c_Tracker demoCfg)\<lparr>t_Memory := \<lparr>mem_PersistFile = ''peers'',
     mem_MaxPeersPerTorrent = 10, mem_Shard = 4, mem_EnablePersist = True\<rparr>\<rparr>\<rparr>"

definition diskEnv :: store_env where
  "diskEnv = \<lparr>se_mkdir = None, se_run = (\<lambda>_. True), se_lock = (\<lambda>_. None), se_open = (\<lambda>_. None)\<rparr>"

definition snapshot_file :: "string \<times> bytes \<Rightarrow> persist_file" where
  "snapshot_file nc = \<lparr>pf_name = fst nc, pf_lock = Inr True, pf_open = Inr (snd nc), pf_now = 60000000000,
     pf_later = 60000000000, pf_data = replicate 512 0, pf_raminBuf = replicate 512 0\<rparr>"

definition storedPeer :: Peer where
  "storedPeer = demoPeer ''A'' ''started'' 5"

definition demoStore :: persist_codec where
  "demoStore = singleCodec \<lparr>ts_InfoHash = demoHash, ts_Peer = PeerCommonToIDL storedPeer\<rparr>"

definition storedMux :: "((string, root_ptr) Map, (string, Peer) Map, bytes list, fallbackIPFilter) MuxLocalManager" where
  "storedMux = (let i = shard_of 4 demoHash
     in put_worker i (DirectStore syncMaps 0 demoHash storedPeer (worker i demoMux)) demoMux)"

lemma storedMux_ok: "mux_ok syncMaps map_ok map_ok storedMux"
  "peer_at (mux_view syncMaps storedMux) ih k =
     (if ih = demoHash \<and> k = GetKey storedPeer then Some storedPeer else None)"
  using synclocal.mux_DirectStore [OF demoMux_ok(1), of demoHash storedPeer 0]
  by (simp_all add: storedMux_def demoMux_ok Let_def)

lemma storedPeer_fresh: "fresh_at persistCfg 60000000000 storedPeer"
proof -
  have "sint (duration_seconds (3600 :: int64)) = 3600000000000" by (simp add: sint_duration_seconds)
  then show ?thesis
    by (simp add: fresh_at_def storedPeer_def demoPeer_def newPeer_def time_Unix_def of_Unix_def time_Add_def
        persistCfg_def demoCfg_TTL)
qed

theorem snapshot_roundtrip_witness:
  "\<exists>m1. LoadFromPersist demoStore syncMaps persistCfg
       (map snapshot_file (StoreToPersist demoStore syncMaps persistCfg diskEnv storedMux)) demoMux =
       Inr (m1, map fst (StoreToPersist demoStore syncMaps persistCfg diskEnv storedMux)) \<and>
     map_option nonil_peer (peer_at (mux_view syncMaps m1) demoHash (GetKey storedPeer)) =
       Some (nonil_peer (wire_peer storedPeer))"
proof -
  let ?fs = "map snapshot_file (StoreToPersist demoStore syncMaps persistCfg diskEnv storedMux)"
  have st: "storable demoStore 512 (demoHash, storedPeer)"
    by (simp add: storable_def demoStore_def singleCodec_def fits_def decompressLen_def)
  obtain m1 where "LoadFromPersist demoStore syncMaps persistCfg ?fs demoMux = Inr (m1, map pf_name ?fs) \<and>
      mux_ok syncMaps map_ok map_ok m1 \<and>
      (\<forall>ih k. map_option nonil_peer (peer_at (mux_view syncMaps m1) ih k) =
         (case peer_at (mux_view syncMaps storedMux) ih k of
            Some p \<Rightarrow> if fresh_at persistCfg 60000000000 p then Some (nonil_peer (wire_peer p)) else None
          | None \<Rightarrow> None))"
    by (atomize_elim, rule snapshot_roundtrip [OF synclocal.local_maps_axioms _ storedMux_ok(1) demoMux_ok(1,2),
          where env = diskEnv and cap = 512])
      (use st in \<open>auto simp: demoStore_def singleCodec_laws persistCfg_def diskEnv_def storedMux_ok snapshot_file_def
        split: if_splits\<close>)
  moreover note storedPeer_fresh
  moreover have "map pf_name ?fs = map fst (StoreToPersist demoStore syncMaps persistCfg diskEnv storedMux)"
    by (simp add: snapshot_file_def)
  ultimately show ?thesis by (intro exI [of _ m1]) (simp add: storedMux_ok)
qed

text \<open>
  C40. One record that is too long loses the rest of its file: a record whose thrift encoding exceeds the
  400 bytes of the decompression buffer ends the loading, so that the records behind it are not
  loaded, whatever they hold, although the file is removed afterwards.
\<close>

theorem long_record_stops:
  assumes "codec_laws C" and "zs_Compress C raw = Inr c" and "400 < length raw" and "fits cap c"
    and "\<forall>x \<in> set cs \<union> set cs'. fits cap x" and "cap \<le> length (pf_data f)" and "cap \<le> length (pf_raminBuf f)"
    and "pf_lock f = Inr True" and "pf_open f = Inr (concat (map frame (cs @ c # cs')))"
    and "mem_EnablePersist (t_Memory (c_Tracker cfg))" and "load_records C D cfg f cs (m, 0, 0) = Inr (m', n, e)"
  shows "LoadFromPersist C D cfg [f] m = Inr (m', [pf_name f])"
proof -
  have stop: "load_peer C D cfg f c (k, i, j) = Stopped" for k i j
    using assms(1-3) by (fastforce simp: codec_laws_def load_peer_def decompressLen_def)
  have "load_records C D cfg f (cs @ c # cs') (m, i, j) = load_records C D cfg f cs (m, i, j)" for i j
    by (induction cs arbitrary: m i j) (simp_all add: stop split: io_step.splits)
  moreover have "load_loop C D cfg f (NewReader (concat (map frame (cs @ c # cs'))), pf_data f, pf_raminBuf f) (m, 0, 0) =
      load_records C D cfg f (cs @ c # cs') (m, 0, 0)"
  proof (rule load_loop_frames)
    have "fits cap x" if "x \<in> set (cs @ c # cs')" for x using assms(4,5) that by auto
    then show "\<forall>x \<in> set (cs @ c # cs'). fits (length (pf_data f)) x \<and> length x \<le> length (pf_raminBuf f)"
      using assms(6,7) by (metis fits_def le_trans)
  qed (simp add: NewReader_def rd_contents_def)
  ultimately show ?thesis using assms(8-11) by (simp add: load_file_def LoadFromPersist_def)
qed

theorem long_record_stops_witness:
  "LoadFromPersist demoStore syncMaps persistCfg
     [snapshot_file (''peers.0'', concat (map frame ([] @ (0 # replicate 401 1) # [[0, 1]])))] demoMux = Inr (demoMux, [''peers.0''])"
proof -
  let ?f = "snapshot_file (''peers.0'', concat (map frame ([] @ (0 # replicate 401 1) # [[0, 1]])))"
  have "LoadFromPersist demoStore syncMaps persistCfg [?f] demoMux = Inr (demoMux, [pf_name ?f])"
    by (rule long_record_stops [where cap = 512 and raw = "replicate 401 1" and c = "0 # replicate 401 1" and cs = "[]" and cs' = "[[0, 1]]" and n = 0 and e = 0])
      (simp_all add: demoStore_def singleCodec_laws, simp_all add: singleCodec_def fits_def snapshot_file_def persistCfg_def)
  then show ?thesis by (simp add: snapshot_file_def)
qed

section \<open>Loading always ends\<close>

lemma read_more_panic: "read_more k rc d l b r = Panicked x \<Longrightarrow> x = ''slice bounds out of range''"
proof (induction k rc d l b r rule: read_more.induct)
  case (1 k rc d l b r)
  show ?case
  proof (cases "k = 0 \<or> k > length b \<or> fst (rd_Read k r) = None")
    case True
    with "1.prems" show ?thesis by (subst (asm) read_more.simps) (auto split: if_splits prod.splits)
  next
    case False
    then obtain bs r' where "rd_Read k r = (Some bs, r')" by (cases "rd_Read k r") auto
    with False "1.prems" show ?thesis
      by (intro "1.IH" [of _ r' bs, OF _ _ _ _ refl refl]) (auto simp: read_more.simps [of k] Let_def)
  qed
qed

lemma read_record_panic:
  assumes "read_record bufs = Panicked x"
  shows "x = ''slice bounds out of range''"
proof -
  obtain r dat rb where bufs: "bufs = (r, dat, rb)" by (cases bufs)
  obtain b r1 where "read_full 4 r = (Some b, r1)"
    using assms by (cases "read_full 4 r", cases "fst (read_full 4 r)") (auto simp: read_record_def bufs)
  with assms show ?thesis
    by (cases "rd_Read (unat (get_le32 b)) r1", cases "fst (rd_Read (unat (get_le32 b)) r1)")
      (auto simp: read_record_def bufs Let_def split: if_splits io_step.splits intro: read_more_panic)
qed

text \<open>One round takes at least five bytes, and counts one record as loaded or as expired.\<close>

lemma load_peer_step:
  assumes "localList m \<noteq> []"
  shows "load_peer C D cfg f rec (m, n, e) = Stopped \<or>
    (\<exists>m' n' e'. load_peer C D cfg f rec (m, n, e) = Went (m', n', e') \<and>
       localList m' \<noteq> [] \<and> n \<le> n' \<and> e \<le> e' \<and> n' + e' = n + e + 1)"
proof (cases "\<exists>raw s. zs_DecompressInto C decompressLen rec = Inr raw \<and> fr_Decode C raw = Inr s")
  case True
  then obtain raw s where dec: "zs_DecompressInto C decompressLen rec = Inr raw" "fr_Decode C raw = Inr s" by blast
  have keep: "localList (put_worker i w m) \<noteq> []" for i w using assms by simp
  show ?thesis using keep by (simp add: load_peer_def dec pickWorker_def assms Let_def)
next
  case False
  then have "load_peer C D cfg f rec (m, n, e) = Stopped" by (auto simp: load_peer_def split: sum.splits)
  then show ?thesis ..
qed

lemma load_loop_ends:
  fixes m :: "('rm, 'pm, 'f, 'i) MuxLocalManager"
  shows "localList m \<noteq> [] \<Longrightarrow> case load_loop C D cfg f bufs (m, n, e) of
      Inl x \<Rightarrow> x = ''slice bounds out of range''
    | Inr (m', n', e') \<Rightarrow>
        n \<le> n' \<and> e \<le> e' \<and> 5 * (n' + e') \<le> 5 * (n + e) + int (length (rd_contents (fst bufs)))"
proof (induction "length (rd_contents (fst bufs))" arbitrary: bufs m n e rule: less_induct)
  case less
  show ?case
  proof (cases "read_record bufs")
    case (Went x)
    then obtain rec bufs' where w: "read_record bufs = Went (rec, bufs')" by (cases x) auto
    then have used: "5 + length (rd_contents (fst bufs')) \<le> length (rd_contents (fst bufs))"
      by (cases bufs, cases bufs') (auto dest: read_record_consumes)
    then have IH: "localList m' \<noteq> [] \<Longrightarrow> case load_loop C D cfg f bufs' (m', n', e') of
        Inl x \<Rightarrow> x = ''slice bounds out of range''
      | Inr (m'', n'', e'') \<Rightarrow>
          n' \<le> n'' \<and> e' \<le> e'' \<and> 5 * (n'' + e'') \<le> 5 * (n' + e') + int (length (rd_contents (fst bufs')))"
      for m' :: "('rm, 'pm, 'f, 'i) MuxLocalManager" and n' e' using less.hyps [of bufs' m' n' e'] by simp
    from load_peer_step [OF less.prems, of C D cfg f rec n e] show ?thesis
    proof (elim disjE exE conjE)
      fix m' n' e'
      assume lp: "load_peer C D cfg f rec (m, n, e) = Went (m', n', e')"
        and step: "n \<le> n'" "e \<le> e'" "n' + e' = n + e + 1" and "localList m' \<noteq> []"
      from IH [OF this(5), of n' e'] step used w lp show ?thesis
        by (subst load_loop.simps) (auto split: sum.splits)
    qed (use w in \<open>simp add: load_loop.simps [of C D cfg f bufs]\<close>)
  qed (simp_all add: load_loop.simps [of C D cfg f bufs] read_record_panic)
qed

text \<open>
  C34. Loading a snapshot file ends whatever its bytes are: it either stops the program because a frame is longer
  than the buffers, or it is done after one record for every five bytes of the file at most, each of them counted
  as loaded or as expired.
\<close>

theorem load_ends:
  assumes "pf_lock f = Inr True" and "pf_open f = Inr file" and "localList m \<noteq> []"
  shows "case load_file C D cfg f (m, 0, 0) of
      Inl x \<Rightarrow> x = ''slice bounds out of range''
    | Inr (m', loaded, expired) \<Rightarrow> 0 \<le> loaded \<and> 0 \<le> expired \<and> 5 * (loaded + expired) \<le> int (length file)"
  using assms load_loop_ends [OF assms(3), where C = C and D = D and cfg = cfg and f = f and n = 0 and e = 0
    and bufs = "(NewReader file, pf_data f, pf_raminBuf f)"]
  by (auto simp: load_file_def NewReader_def rd_contents_def split: sum.splits)

theorem load_ends_witness:
  "case load_file demoStore syncMaps persistCfg (snapshot_file (''peers.0'', [2, 0, 0, 0, 0, 1, 9, 9])) (demoMux, 0, 0) of
     Inl x \<Rightarrow> x = ''slice bounds out of range''
   | Inr (m', loaded, expired) \<Rightarrow> 0 \<le> loaded \<and> 0 \<le> expired \<and> 5 * (loaded + expired) \<le> 8"
proof -
  let ?file = "[2, 0, 0, 0, 0, 1, 9, 9] :: bytes" and ?st = "(demoMux, 0, 0)"
  have "localList demoMux \<noteq> []" using demoMux_ok(4) by auto
  then have "case load_file demoStore syncMaps persistCfg (snapshot_file (''peers.0'', ?file)) ?st of
      Inl x \<Rightarrow> x = ''slice bounds out of range''
    | Inr (m', loaded, expired) \<Rightarrow> 0 \<le> loaded \<and> 0 \<le> expired \<and> 5 * (loaded + expired) \<le> int (length ?file)"
    by (intro load_ends) (simp_all add: snapshot_file_def)
  then show ?thesis by (auto split: sum.splits)
qed

end
