(* ===== verification/UDP_Props.thy ===== *)
theory UDP_Props
  imports UDP_Server Persist_Props
begin

text \<open>
  The properties of the UDP front end: the wire formats can be read back, the connection table
  decides who may announce, and every datagram is answered at most once with its own transaction
  identifier. The witnesses use the in-memory manager on the repository's own map.
\<close>

section \<open>Wire formats\<close>

text \<open>The body of an announce request as BEP 15 lays it out, with an address of any width.\<close>

definition announce_packet ::
  "string \<Rightarrow> string \<Rightarrow> int64 \<Rightarrow> int64 \<Rightarrow> int64 \<Rightarrow> uint32 \<Rightarrow> bytes \<Rightarrow> uint32 \<Rightarrow> uint32 \<Rightarrow> uint16 \<Rightarrow> bytes" where
  "announce_packet ih pid downl left upl event ip key num_want port =
     UnsafeStringToBytes ih @ UnsafeStringToBytes pid @ put_be64 downl @ put_be64 left @ put_be64 upl @
     put_be32 event @ ip @ put_be32 key @ put_be32 num_want @ put_be16 port"



text \<open>
  The event codes are not those of the protocol. BEP 15, and the comment above the parser, give
  1 for completed, 2 for started and 3 for stopped; the parser reads 1 as started, 2 as stopped and
  3 as completed. Only the low eight bits of the code count.
\<close>

theorem event_codes:
  "parse_event (put_be32 0) = ''started'' \<and> parse_event (put_be32 1) = ''started'' \<and>
   parse_event (put_be32 2) = ''stopped'' \<and> parse_event (put_be32 3) = ''completed'' \<and>
   parse_event (put_be32 256) = ''started''"
  by (simp add: parse_event_def PeerEvent_String_def PeerEvent_defs Let_def)

definition reply_entries :: "Config \<Rightarrow> bool \<Rightarrow> Peer list \<Rightarrow> (bytes \<times> uint16) list" where
  "reply_entries cfg isIPv6 ps =
     [(the (if isIPv6 then To16 (GetIP cfg p) else To4 (GetIP cfg p)), of_int (p_Port p)). p \<leftarrow> ps,
        (if isIPv6 then To16 (GetIP cfg p) else To4 (GetIP cfg p)) \<noteq> None]"

text \<open>
  C26. The reply to an announce can be read back: action, transaction identifier, interval, leechers,
  seeders, and then one entry of six bytes, or of 18 over IPv6, for each peer that has an address of
  the kind, in order.
\<close>

theorem announce_reply_decode:
  "let b = announce_reply cfg intn tid isIPv6 res scrape in
   get_be32 (go_slice 0 4 b) = ActionAnnounce \<and> get_be32 (go_slice 4 8 b) = tid \<and>
   get_be32 (go_slice 8 12 b) = ucast (t_TTL (c_Tracker cfg) + of_int (intn - 100)) \<and>
   get_be32 (go_slice 12 16 b) = of_int (sf_Incomplete scrape) \<and>
   get_be32 (go_slice 16 20 b) = of_int (sf_Seeder scrape) \<and>
   compact_decode (if isIPv6 then 18 else 6) (drop 20 b) = reply_entries cfg isIPv6 res"
proof -
  have body: "concat (map (peer_entry cfg isIPv6) res) = concat (map entry_bytes (reply_entries cfg isIPv6 res))"
    by (induction res) (auto simp: peer_entry_def reply_entries_def entry_bytes_def split: option.splits)
  have w: "\<forall>e \<in> set (reply_entries cfg isIPv6 res). length (fst e) = (if isIPv6 then 16 else 4)"
    by (auto simp: reply_entries_def dest: To4_length To16_length)
  have "compact_decode (if isIPv6 then 18 else 6) (concat (map entry_bytes (reply_entries cfg isIPv6 res))) =
      reply_entries cfg isIPv6 res"
    using compact_decode_concat [OF w] by (simp split: if_splits)
  then show ?thesis
    by (simp add: announce_reply_def writeHeader_def go_slice_def Let_def body)
qed

section \<open>Connections\<close>

lemma cleanConnection_spec:
  assumes "map_ok (connectionList s)"
  shows "map_ok (connectionList (fst (cleanConnection t s))) \<and>
    Map_Load (connectionList (fst (cleanConnection t s))) cid =
      (case Map_Load (connectionList s) cid of
         Some c \<Rightarrow> if time_Add (cx_time c) connectionTimeout < t then None else Some c
       | None \<Rightarrow> None)"
proof -
  let ?old = "\<lambda>c. time_Add (cx_time c) connectionTimeout < t"
  have loop: "map_ok (connectionList (fst (foldl (\<lambda>s x. fst (clean_connection_step t s x)) (s', n) xs))) \<and>
      Map_Load (connectionList (fst (foldl (\<lambda>s x. fst (clean_connection_step t s x)) (s', n) xs))) =
        Map_Load (connectionList s') |` (- {k. \<exists>c. (k, c) \<in> set xs \<and> ?old c})"
    if "map_ok (connectionList s')" for s' n xs
    using that
  proof (induction xs arbitrary: s' n)
    case Nil
    then show ?case by simp
  next
    case (Cons x xs)
    obtain k c where x: "x = (k, c)" by (cases x)
    let ?d = "s'\<lparr>connectionList := fst (Map_Delete (connectionList s') k)\<rparr>"
    have d: "map_ok (fst (Map_Delete (connectionList s') k))"
      "Map_Load (fst (Map_Delete (connectionList s') k)) = (Map_Load (connectionList s'))(k := None)"
      using syncmap.minv_Delete [OF Cons.prems, of k] syncmap.Load_Delete [OF Cons.prems, of k]
      by (simp_all add: MapOps_def)
    show ?case
    proof (cases "?old c")
      case True
      with Cons.IH [of ?d "n + 1"] d(1) show ?thesis
        by (auto simp: x clean_connection_step_def d(2) restrict_map_def fun_eq_iff)
    next
      case False
      with Cons.IH [OF Cons.prems, of n] show ?thesis
        by (auto simp: x clean_connection_step_def restrict_map_def fun_eq_iff)
    qed
  qed
  have "cleanConnection t s = foldl (\<lambda>s x. fst (clean_connection_step t s x)) (s, 0) (Map_Range (connectionList s))"
    unfolding cleanConnection_def by (rule go_range_always) (simp add: clean_connection_step_def split: prod.split)
  moreover have "(k, c) \<in> set (Map_Range (connectionList s)) \<longleftrightarrow> Map_Load (connectionList s) k = Some c" for k c
    using syncmap.set_Range [OF assms, of k c] by (simp add: MapOps_def)
  ultimately show ?thesis using loop [OF assms, of 0 "Map_Range (connectionList s)"]
    by (auto simp: restrict_map_def split: option.split)
qed

text \<open>
  The cleaning of the connection table removes exactly the connections older than the timeout.
\<close>

theorem connections_expire:
  assumes "map_ok (connectionList s)"
  shows "map_ok (connectionList (fst (cleanConnection t s))) \<and>
    Map_Load (connectionList (fst (cleanConnection t s))) cid =
      (case Map_Load (connectionList s) cid of
         Some c \<Rightarrow> if cx_time c + 2 * 60 * 1000000000 < t then None else Some c
       | None \<Rightarrow> None)"
proof -
  have "time_Add u connectionTimeout = u + 2 * 60 * 1000000000" for u
    by (simp add: time_Add_def connectionTimeout_def)
  with cleanConnection_spec [OF assms, of t cid] show ?thesis
    by (cases "Map_Load (connectionList s) cid") simp_all
qed

definition twoConnections :: UDPServer where
  "twoConnections = (let remote = \<lparr>ua_IP = Some [8, 8, 8, 8], ua_Port = 6881, ua_Zone = []\<rparr> in
     \<lparr>connectionList = Map_Store (Map_Store NewSyncMap 1 \<lparr>cx_id = 1, cx_remoteAddr = remote, cx_time = 0\<rparr>) 2
        \<lparr>cx_id = 2, cx_remoteAddr = remote, cx_time = 60000000000\<rparr>\<rparr>)"

theorem connections_expire_witness:
  "Map_Load (connectionList (fst (cleanConnection 150000000000 twoConnections))) 1 = None \<and>
   Map_Load (connectionList (fst (cleanConnection 150000000000 twoConnections))) 2 \<noteq> None"
proof -
  let ?l = "Map_Load (connectionList twoConnections)"
  have "map_ok (Map_Store (Map_Store NewSyncMap k c) k' c')" for k k' :: uint64 and c c' :: connection
    using syncmap.minv_Store [OF syncmap.minv_Store [OF syncmap.minv_New]] by (simp add: MapOps_def)
  then have ok: "map_ok (connectionList twoConnections)" by (simp add: twoConnections_def Let_def)
  have "map_option cx_time (?l 1) = Some 0" "map_option cx_time (?l 2) = Some 60000000000" by code_simp+
  then show ?thesis
    using connections_expire [OF ok, of 150000000000 1] connections_expire [OF ok, of 150000000000 2] by auto
qed

text \<open>
  A connect request is answered with its transaction identifier and the new connection
  identifier; if that identifier is not in use, the connection is in the table with the sender's
  address and the current time, and all other connections are as before.
\<close>

theorem connect_registers:
  assumes "map_ok (connectionList s)" and "ue_gen env = Inr cid" and "ue_write env = None"
    and "Map_Load (connectionList s) cid = None" and "length b = 16"
    and "get_be64 (go_slice 0 8 b) = ProtocolID" and "get_be32 (go_slice 8 12 b) = ActionConnect"
  shows "\<exists>s'. handleRequest P cfg env remote (Inr b) (s, ms) =
      (Inr (), [writeHeader ActionConnect (get_be32 (go_slice 12 16 b)) @ put_be64 cid], s', ms) \<and>
    map_ok (connectionList s') \<and>
    Map_Load (connectionList s') =
      (Map_Load (connectionList s))(cid \<mapsto> \<lparr>cx_id = cid, cx_remoteAddr = remote, cx_time = ue_now env\<rparr>)"
proof -
  let ?c = "\<lparr>cx_id = cid, cx_remoteAddr = remote, cx_time = ue_now env\<rparr>"
  have "map_ok (fst (Map_LoadOrStore (connectionList s) cid ?c)) \<and>
      Map_Load (fst (Map_LoadOrStore (connectionList s) cid ?c)) = (Map_Load (connectionList s))(cid \<mapsto> ?c)"
    using syncmap.minv_LoadOrStore [OF assms(1), of cid ?c] syncmap.Load_LoadOrStore [OF assms(1), of cid ?c] assms(4)
    by (simp add: MapOps_def)
  then show ?thesis
    using assms by (simp add: handleRequest_def handleConnection_def Let_def)
qed

definition demoUdpEnv :: "int64 \<Rightarrow> mux_env udp_env" where
  "demoUdpEnv cid = \<lparr>ue_gen = Inr cid, ue_now = 0, ue_write = None, ue_Intn = 100,
     ue_call = (\<lambda>_. \<lparr>me_announce = demoEnv 0 inOrder, me_now = 0, me_io = io_ok, me_files = [], me_store = diskEnv\<rparr>)\<rparr>"

definition demoRemote :: UDPAddr where
  "demoRemote = \<lparr>ua_IP = Some [8, 8, 8, 8], ua_Port = 6881, ua_Zone = []\<rparr>"

definition demoPM :: "(mux_env, ((string, root_ptr) Map, (string, Peer) Map, bytes list, fallbackIPFilter) MuxLocalManager \<times> unit) PeerManager" where
  "demoPM = mux_PeerManager syncMaps exactBloom fallbackOps demoCfg downClient \<lparr>co_Marshal = (\<lambda>_. Inl []), co_Unmarshal = (\<lambda>_. Inl [])\<rparr> demoStore"

theorem connect_registers_witness:
  "Map_Load (connectionList (fst (snd (snd (handleRequest demoPM demoCfg (demoUdpEnv 7) demoRemote
     (Inr (put_be64 ProtocolID @ put_be32 ActionConnect @ put_be32 99)) (NewUDPServer, demoMux, ())))))) 7 =
   Some \<lparr>cx_id = 7, cx_remoteAddr = demoRemote, cx_time = 0\<rparr>"
proof -
  have "map_ok (connectionList NewUDPServer)"
    using syncmap.minv_New by (simp add: NewUDPServer_def MapOps_def)
  moreover have "Map_Load (connectionList NewUDPServer) 7 = None"
    by (simp add: NewUDPServer_def NewSyncMap_def Map_Load_def)
  ultimately obtain s' where "handleRequest demoPM demoCfg (demoUdpEnv 7) demoRemote
      (Inr (put_be64 ProtocolID @ put_be32 ActionConnect @ put_be32 99)) (NewUDPServer, demoMux, ()) =
      (Inr (), [writeHeader ActionConnect 99 @ put_be64 7], s', demoMux, ())"
    and "Map_Load (connectionList s') 7 = Some \<lparr>cx_id = 7, cx_remoteAddr = demoRemote, cx_time = 0\<rparr>"
    using connect_registers [of NewUDPServer "demoUdpEnv 7" 7 "put_be64 ProtocolID @ put_be32 ActionConnect @ put_be32 99"
        demoPM demoCfg demoRemote "(demoMux, ())"]
    by (auto simp: demoUdpEnv_def go_slice_def)
  then show ?thesis by simp
qed

text \<open>
  C24. Without a connection of its own a client cannot reach the peer manager: a datagram that is not
  a connect request and whose connection identifier is unknown, or belongs to another address, is
  answered by an error and changes nothing.
\<close>

theorem connection_required:
  assumes "16 \<le> length b" and "\<not> (get_be64 (go_slice 0 8 b) = ProtocolID \<and> get_be32 (go_slice 8 12 b) = ActionConnect)"
    and "\<forall>c. Map_Load (connectionList s) (get_be64 (go_slice 0 8 b)) = Some c \<longrightarrow>
      UDPAddr_String (cx_remoteAddr c) \<noteq> UDPAddr_String remote"
  shows "\<exists>err. handleRequest P cfg env remote (Inr b) (s, ms) =
      (Inr (), send_error env (get_be32 (go_slice 12 16 b)) err, s, ms) \<and>
    err \<in> {''connection expired'', ''connection mismatch''}"
  using assms by (auto simp: handleRequest_def Let_def split: option.split)

theorem connection_required_witness:
  "handleRequest demoPM demoCfg (demoUdpEnv 7) demoRemote (Inr (put_be64 5 @ put_be32 1 @ put_be32 9)) (NewUDPServer, demoMux, ()) =
    (Inr (), [responseError 9 ''connection expired''], NewUDPServer, demoMux, ())"
proof -
  let ?b = "put_be64 5 @ put_be32 1 @ put_be32 9"
  have b: "get_be64 (go_slice 0 8 ?b) = 5" "get_be32 (go_slice 8 12 ?b) = 1" "get_be32 (go_slice 12 16 ?b) = 9" "length ?b = 16"
    by (simp_all add: go_slice_def)
  have none: "Map_Load (connectionList NewUDPServer) c = None" for c
    by (simp add: NewUDPServer_def NewSyncMap_def Map_Load_def)
  have "\<exists>err. handleRequest demoPM demoCfg (demoUdpEnv 7) demoRemote (Inr ?b) (NewUDPServer, demoMux, ()) =
      (Inr (), send_error (demoUdpEnv 7) (get_be32 (go_slice 12 16 ?b)) err, NewUDPServer, demoMux, ()) \<and>
    err \<in> {''connection expired'', ''connection mismatch''}"
    by (rule connection_required) (simp_all add: b none ActionConnect_def)
  moreover have "fst (snd (handleRequest demoPM demoCfg (demoUdpEnv 7) demoRemote (Inr ?b) (NewUDPServer, demoMux, ()))) =
      send_error (demoUdpEnv 7) 9 ''connection expired''"
    by (simp add: handleRequest_def Let_def none b ActionConnect_def)
  ultimately show ?thesis by (auto simp: b send_error_def demoUdpEnv_def)
qed

lemma handleAnnounce_out:
  assumes "handleAnnounce P cfg env remote tid b st = (r, out, st')"
  shows "(r = Inr () \<longrightarrow> out = [] \<or> (\<exists>body. out = [writeHeader ActionAnnounce tid @ body])) \<and> (r \<noteq> Inr () \<longrightarrow> out = [])"
  using assms
  by (auto simp: handleAnnounce_def announce_reply_def Let_def split: sum.splits prod.splits option.splits if_splits)

lemma scrape_loop_out: "scrape_loop P call n hs res st = (Inr b, st') \<Longrightarrow> \<exists>body. b = res @ body"
  by (induction hs arbitrary: n res st) (fastforce split: prod.splits sum.splits)+

lemma handleScrape_out:
  assumes "handleScrape P env tid b st = (r, out, st')"
  shows "(r = Inr () \<longrightarrow> out = [] \<or> (\<exists>body. out = [writeHeader ActionScrape tid @ body])) \<and> (r \<noteq> Inr () \<longrightarrow> out = [])"
  using assms
  by (auto simp: handleScrape_def split: sum.splits prod.splits option.splits dest: scrape_loop_out)

text \<open>
  C23. Every datagram is answered at most once, and the answer carries the transaction identifier of
  the request behind the action of the request or the error action.
\<close>

theorem one_answer:
  assumes "handleRequest P cfg env remote (Inr b) st = (r, out, st')" and "16 \<le> length b"
  shows "out = [] \<or> (\<exists>action body. out = [writeHeader action (get_be32 (go_slice 12 16 b)) @ body] \<and>
    action \<in> {get_be32 (go_slice 8 12 b), ActionError})"
proof -
  let ?tid = "get_be32 (go_slice 12 16 b)" and ?act = "get_be32 (go_slice 8 12 b)"
  define good where "good out \<longleftrightarrow> out = [] \<or> (\<exists>action body. out = [writeHeader action ?tid @ body] \<and>
    action \<in> {?act, ActionError})" for out :: "bytes list"
  have err: "good (send_error env ?tid e)" for e
    by (auto simp: good_def send_error_def responseError_def split: option.split)
  obtain s ms where st: "st = (s, ms)" by (cases st)
  let ?sub = "if ?act = ActionAnnounce then handleAnnounce P cfg env remote ?tid (drop 16 b) ms
    else if ?act = ActionScrape then handleScrape P env ?tid (drop 16 b) ms else (Inl ''invalid action'', [], ms)"
  obtain q o' ms' where sub: "?sub = (q, o', ms')" by (cases ?sub)
  have subout: "good o'" "q \<noteq> Inr () \<Longrightarrow> o' = []"
    using sub handleAnnounce_out [of P cfg env remote ?tid "drop 16 b" ms q o' ms']
      handleScrape_out [of P env ?tid "drop 16 b" ms q o' ms'] by (auto simp: good_def split: if_splits)
  have "good out"
  proof (cases "get_be64 (go_slice 0 8 b) = ProtocolID \<and> ?act = ActionConnect")
    case True
    with assms show ?thesis
      by (auto simp: good_def handleRequest_def handleConnection_def st Let_def split: sum.splits option.splits)
  next
    case other: False
    show ?thesis
    proof (cases "Map_Load (connectionList s) (get_be64 (go_slice 0 8 b))")
      case None
      with other assms have "out = send_error env ?tid ''connection expired''"
        by (auto simp: handleRequest_def st Let_def)
      with err show ?thesis by simp
    next
      case (Some c)
      show ?thesis
      proof (cases "UDPAddr_String (cx_remoteAddr c) = UDPAddr_String remote")
        case False
        with Some other assms have "out = send_error env ?tid ''connection mismatch''"
          by (auto simp: handleRequest_def st Let_def)
        with err show ?thesis by simp
      next
        case True
        have "out = (case q of Inl e \<Rightarrow> o' @ send_error env ?tid e | Inr _ \<Rightarrow> o')"
          using assms Some True other sub by (auto simp: handleRequest_def st Let_def split: sum.splits)
        with subout err show ?thesis by (cases q) simp_all
      qed
    qed
  qed
  then show ?thesis by (simp add: good_def)
qed

theorem one_answer_witness:
  "length (fst (snd (handleRequest demoPM demoCfg (demoUdpEnv 7) demoRemote (Inr (replicate 16 1)) (NewUDPServer, demoMux, ())))) \<le> 1"
proof -
  obtain r out st' where h: "handleRequest demoPM demoCfg (demoUdpEnv 7) demoRemote (Inr (replicate 16 1)) (NewUDPServer, demoMux, ()) =
      (r, out, st')" using prod_cases3 by blast
  from one_answer [OF this] show ?thesis by (auto simp: h)
qed

text \<open>
  A scrape answers for every complete info hash of the datagram: with a manager that does not
  fail, the reply has eight bytes of header and twelve for each of the hashes, of which there are as
  many as fit.
\<close>

theorem scrape_reply_length:
  assumes "\<forall>e ih st. \<exists>f st'. pm_Scrape P e ih st = (Inr f, st')" and "ue_write env = None"
  shows "\<exists>res st'. handleScrape P env tid buf st = (Inr (), [res], st') \<and> length res = 8 + 12 * (length buf div 20)"
proof -
  have "\<exists>res' st'. scrape_loop P call n hs res st = (Inr res', st') \<and> length res' = length res + 12 * length hs" for call n hs res st
  proof (induction hs arbitrary: n res st)
    case (Cons h hs)
    obtain f st' where "pm_Scrape P (call n) h st = (Inr f, st')" using assms(1) by blast
    with Cons.IH [of "n + 1" "res @ put_be32 (of_int (sf_Seeder f)) @ put_be32 (of_int (sf_Complete f)) @
        put_be32 (of_int (sf_Incomplete f))" st'] show ?case by auto
  qed simp
  then obtain res st' where "scrape_loop P (ue_call env) 0 (scrape_hashes 20 buf) (writeHeader ActionScrape tid) st = (Inr res, st')"
    and "length res = length (writeHeader ActionScrape tid) + 12 * length (scrape_hashes 20 buf)" by blast
  then show ?thesis by (simp add: handleScrape_def assms(2) scrape_hashes_length writeHeader_def)
qed

definition stubPM :: "(unit, unit) PeerManager" where
  "stubPM = \<lparr>pm_HandleAnnouncePeer = (\<lambda>_ _ s. (Inr [], s)), pm_Scrape = (\<lambda>_ _ s. (Inr emptyScrapeFile, s)),
     pm_Clean = (\<lambda>_ s. (0, s)), pm_LoadFromPersist = (\<lambda>_ s. Inr s), pm_StoreToPersist = (\<lambda>_ _. []), pm_GetStatistic = (\<lambda>_ _. Inr (StatisticInfo 0 0 [])),
     pm_BanInfoHash = (\<lambda>_ _ s. (Inr (), s)), pm_BanPeer = (\<lambda>_ _ s. (Inr (), s)),
     pm_ClearBanInfoHash = (\<lambda>_ s. s), pm_ClearBanPeer = (\<lambda>_ s. s), pm_GetPeers = (\<lambda>_ _ _. Inr []),
     pm_DeleteInfoHash = (\<lambda>_ _ s. (Inr (), s)), pm_BanIP = (\<lambda>_ _ s. (Inr (), s)), pm_UnbanIP = (\<lambda>_ _ s. (Inr (), s)),
     pm_ClearBanIP = (\<lambda>_ s. (Inr (), s)), pm_GetIPFilterStats = (\<lambda>_ _. None)\<rparr>"

theorem scrape_reply_length_witness:
  "\<exists>res st'. handleScrape stubPM \<lparr>ue_gen = Inr 1, ue_now = 0, ue_write = None, ue_Intn = 0, ue_call = (\<lambda>_. ())\<rparr>
     7 (replicate 47 0) () = (Inr (), [res], st') \<and> length res = 32"
  using scrape_reply_length [of stubPM "\<lparr>ue_gen = Inr 1, ue_now = 0, ue_write = None, ue_Intn = 0, ue_call = (\<lambda>_. ())\<rparr>"
      7 "replicate 47 0" "()"] by (simp add: stubPM_def)

end
