(* ===== verification/Http_Props.thy ===== *)
theory Http_Props
  imports Admin Rpc_Manager UDP_Props
begin

text \<open>The properties of the HTTP front end, of the administration interface and of the RPC mode.\<close>

section \<open>Announcing over HTTP\<close>

text \<open>
  C22. What the tracker hands to the manager for an HTTP announce is checked: identifiers of 20 bytes, a
  port below 65535, between 1 and 500 wanted peers, the client's own address, IPv4 ones as four
  bytes, and never a websocket connection. A query that does not bind or does not pass is answered with
  status 400 and \<^verbatim>\<open>bad request\<close>, and the manager is not touched.
\<close>

theorem http_request_checked:
  assumes "\<not> is_upgrade cfg c"
  shows "(\<forall>req. http_request cfg (he_SubString env) c bound = Inr req \<longrightarrow>
      length (r_InfoHash req) = 20 \<and> length (r_PeerID req) = 20 \<and> 0 \<le> r_Port req \<and> r_Port req < 65535 \<and>
      1 \<le> r_NumWant req \<and> r_NumWant req \<le> 500 \<and> r_Type req = PeerTypeBittorrent \<and> r_Source req = SourceHTTP \<and>
      r_Conn req = None \<and> To4 (r_ClientIP req) = To4 (GetClientIP c) \<and>
      (To4 (r_ClientIP req) \<noteq> None \<longrightarrow> length (ip_bytes (r_ClientIP req)) = 4)) \<and>
    (\<forall>e. http_request cfg (he_SubString env) c bound = Inl e \<longrightarrow>
      http_Announce P cfg env c bound s = (Answered (bencode_ResponseErr cfg ''bad request''), s))"
proof (cases bound)
  case (Inl e)
  then show ?thesis using assms by (simp add: http_request_def http_Announce_def)
next
  case (Inr q)
  note D = http_request_InrD [of cfg "he_SubString env" c q]
  show ?thesis unfolding Inr
    using assms D clamp_NumWant_range [of cfg "r_NumWant q"] http_request_error [of cfg "he_SubString env" c "Inr q"]
    by (fastforce simp: http_Announce_def validAnnounceReq_def)
qed

definition demoHttp :: http_context where
  "demoHttp = \<lparr>hc_Header = (\<lambda>h. if h = ''X-Forwarded-For'' then ''unknown,9.9.9.9'' else []), hc_ClientIP = ''10.0.0.1'',
     hc_UserAgent = ''client''\<rparr>"

definition demoQuery :: HttpAnnounceRequest where
  "demoQuery = \<lparr>r_ClientIP = None, r_InfoHash = demoHash, r_PeerID = demoHash, r_Event = ''started'', r_UserAgent = [],
     r_IP = [], r_IPv4 = [], r_IPv6 = [], r_Port = 6881, r_Uploaded = 0, r_Downloaded = 0, r_Left = 0, r_NumWant = 1000,
     r_Type = 1, r_Compact = 1\<rparr>"

definition demoHttpEnv :: "unit http_env" where
  "demoHttpEnv = \<lparr>he_call = (\<lambda>_. ()), he_Intn = 100, he_SubString = (\<lambda>s. s)\<rparr>"

lemma demoHttp_plain: "\<not> is_upgrade demoCfg demoHttp"
  by (simp add: is_upgrade_def demoCfg_def zeroConfig_def)

theorem http_request_checked_witness:
  "\<exists>req. http_request demoCfg (\<lambda>s. s) demoHttp (Inr demoQuery) = Inr req \<and> r_NumWant req \<le> 500 \<and>
     r_ClientIP req = Some [9, 9, 9, 9]"
proof -
  obtain req where r: "http_request demoCfg (he_SubString demoHttpEnv) demoHttp (Inr demoQuery) = Inr req"
    and ip: "r_ClientIP req = Some [9, 9, 9, 9]"
  proof -
    have "GetClientIP demoHttp = Some (v4InV6Prefix @ [9, 9, 9, 9])" by code_simp
    then show thesis
      by (intro that [of "projr (http_request demoCfg (he_SubString demoHttpEnv) demoHttp (Inr demoQuery))"])
        (simp_all add: http_request_def demoQuery_def validAnnounceReq_def demoHash_def Let_def)
  qed
  with http_request_checked [OF demoHttp_plain, of demoHttpEnv "Inr demoQuery" stubPM "()"]
  show ?thesis by (auto simp: demoHttpEnv_def)
qed

text \<open>
  C21. The body of a compact HTTP answer says what the manager said: it is one bencoded dictionary
  from which a client reads the counts of the scrape and, from the strings of peers, address
  and port of every peer that the manager returned and that has an address, in order, IPv4 and IPv6
  apart.
\<close>

theorem http_compact_answer:
  assumes "\<not> is_upgrade cfg c" and "http_request cfg (he_SubString env) c bound = Inr req" and "r_Compact req \<noteq> 0"
    and "pm_Scrape P (he_call env 0) (r_InfoHash req) s = (Inr scrape, s1)"
    and "pm_HandleAnnouncePeer P (he_call env 1) req s1 = (Inr res, s2)"
  shows "\<exists>reply body n kvs ps. http_Announce P cfg env c bound s = (Answered reply, s2) \<and> br_Status reply = 200 \<and>
    reply_body marshal reply = Inr body \<and> bdecode n body = Some (BDict kvs, []) \<and>
    map_of kvs (UnsafeStringToBytes ''complete'') = Some (BInt (sf_Complete scrape)) \<and>
    map_of kvs (UnsafeStringToBytes ''incomplete'') = Some (BInt (sf_Incomplete scrape)) \<and>
    map_of kvs (UnsafeStringToBytes ''peers'') = Some (BStr ps) \<and> compact_decode 6 ps = v4_entries cfg res \<and>
    compact_decode 18 (case map_of kvs (UnsafeStringToBytes ''peers6'') of Some (BStr b) \<Rightarrow> b | _ \<Rightarrow> []) = v6_entries cfg res"
proof -
  define a where "a = \<lparr>ac_Interval = announce_interval cfg (he_Intn env), ac_Peers = fst (PeersToCompact cfg res),
    ac_Peers6 = snd (PeersToCompact cfg res), ac_ExternalIp = UnsafeBytesToString (ip_bytes (r_ClientIP req)),
    ac_TrackerId = t_TrackerId (c_Tracker cfg), ac_Complete = sf_Complete scrape, ac_Incomplete = sf_Incomplete scrape\<rparr>"
  obtain kvs where kvs: "AnnounceCompactResponse_bval a = BDict kvs" by (simp add: AnnounceCompactResponse_bval_def)
  have http: "http_Announce P cfg env c bound s = (Answered (bencode_ResponseOk (RenderCompact a)), s2)"
    using assms by (simp add: http_Announce_def announce_data_def a_def prod.case_eq_if)
  have body: "reply_body marshal (bencode_ResponseOk (RenderCompact a)) = Inr (AnnounceCompactResponse_Bencode a [])"
    by (simp add: reply_body_def bencode_ResponseOk_def Render_def)
  have dec: "bdecode (fuel_of (BDict kvs)) (AnnounceCompactResponse_Bencode a []) = Some (BDict kvs, [])"
    using bdecode_bencode [of "BDict kvs" "fuel_of (BDict kvs)" "[]"]
    by (simp add: AnnounceCompactResponse_Bencode_bval kvs del: fuel_of.simps)
  have look: "map_of kvs (UnsafeStringToBytes ''complete'') = Some (BInt (ac_Complete a))"
    "map_of kvs (UnsafeStringToBytes ''incomplete'') = Some (BInt (ac_Incomplete a))"
    "map_of kvs (UnsafeStringToBytes ''peers'') = Some (BStr (ac_Peers a))"
    "map_of kvs (UnsafeStringToBytes ''peers6'') = (if ac_Peers6 a = [] then None else Some (BStr (ac_Peers6 a)))"
    using kvs by (auto simp: AnnounceCompactResponse_bval_def)
  have v6: "compact_decode 18 (case map_of kvs (UnsafeStringToBytes ''peers6'') of Some (BStr b) \<Rightarrow> b | _ \<Rightarrow> []) = v6_entries cfg res"
    unfolding look(4) using PeersToCompact_decode_v6 [of cfg res] by (cases "ac_Peers6 a") (simp_all add: a_def)
  show ?thesis
    using http body dec look(1-3) v6 PeersToCompact_decode_v4 [of cfg res]
    by (intro exI [of _ "bencode_ResponseOk (RenderCompact a)"] exI [of _ "AnnounceCompactResponse_Bencode a []"]
        exI [of _ "fuel_of (BDict kvs)"] exI [of _ kvs] exI [of _ "ac_Peers a"])
      (simp add: bencode_ResponseOk_def a_def del: fuel_of.simps B_chars)
qed

theorem http_compact_answer_witness:
  "\<exists>reply. http_Announce stubPM demoCfg demoHttpEnv demoHttp (Inr demoQuery) () = (Answered reply, ()) \<and> br_Status reply = 200"
proof -
  obtain req where r: "http_request demoCfg (he_SubString demoHttpEnv) demoHttp (Inr demoQuery) = Inr req" and "r_Compact req \<noteq> 0"
    by (intro that [of "projr (http_request demoCfg (he_SubString demoHttpEnv) demoHttp (Inr demoQuery))"])
      (simp_all add: http_request_def demoQuery_def validAnnounceReq_def demoHash_def Let_def)
  from http_compact_answer [OF demoHttp_plain this, of stubPM "()" emptyScrapeFile "()" "[]" "()"]
  show ?thesis by (auto simp: stubPM_def)
qed

section \<open>Administration\<close>

text \<open>
  With an administration key configured, a request without it is answered with status 401 whatever
  its route, and changes nothing; with the key, the route's handler runs.
\<close>

lemma admin_key_required:
  assumes "key \<noteq> []"
  shows "if ar_Authorization q = ''Bearer '' @ key
    then admin_server key P latin1 env q s = admin_route P latin1 env q s
    else admin_server key P latin1 env q s = (Some ResponseUnauthorized, s) \<and> cr_Code ResponseUnauthorized = 401"
  using assms by (simp add: admin_server_def admin_auth_def ResponseUnauthorized_def)

lemma admin_key_example:
  "fst (admin_server ''secret'' stubPM (\<lambda>b. b) demoHttpEnv
     \<lparr>ar_Method = ''DELETE'', ar_Path = [''ban'', ''ip''], ar_Bound = Inr [''1.2.3.4''], ar_Authorization = ''Bearer guess''\<rparr> ()) =
   Some ResponseUnauthorized"
  using admin_key_required [of "''secret''" "\<lparr>ar_Method = ''DELETE'', ar_Path = [''ban'', ''ip''], ar_Bound = Inr [''1.2.3.4''],
    ar_Authorization = ''Bearer guess''\<rparr>" stubPM "\<lambda>b. b" demoHttpEnv "()"] by simp

lemma for_each_BanInfoHash:
  assumes "local_maps D rinv pinv" and "bloom_laws Bl"
    and "\<And>n. io_seek (me_io (call n)) = None \<and> io_read (me_io (call n)) = None \<and> io_write (me_io (call n)) = None \<and> io_sync (me_io (call n)) = None"
    and "mux_ok D rinv pinv m" and "ban_ok Bl ts (bm_infoHash (mx_ban m))" and "\<forall>h \<in> set hs. length (T h) = 20"
  shows "\<exists>m'. for_each call (\<lambda>e h. pm_BanInfoHash (mux_PeerManager D Bl F cfg Client codec C) e (T h)) n hs (m, c) = (Inr (), m', c) \<and>
    mux_ok D rinv pinv m' \<and> mux_view D m' = (\<lambda>ih. if ih \<in> T ` set hs then None else mux_view D m ih) \<and>
    ban_ok Bl (ts @ map T hs) (bm_infoHash (mx_ban m'))"
  using assms(4-6)
proof (induction hs arbitrary: n m ts)
  case Nil
  then show ?case by simp
next
  case (Cons h hs)
  obtain m1 where ban: "mux_BanInfoHash D Bl (me_io (call n)) (T h) m = (Inr (), m1)" and ok: "mux_ok D rinv pinv m1"
    and v: "mux_view D m1 = (mux_view D m)(T h := None)" and b: "ban_ok Bl (ts @ [T h]) (bm_infoHash (mx_ban m1))"
    by (rule mux_BanInfoHash_spec [OF assms(1) Cons.prems(1) assms(2) Cons.prems(2), of "T h" "me_io (call n)"])
      (use assms(3) Cons.prems(3) in auto)
  from Cons.IH [OF ok b, of "Suc n"] Cons.prems(3) obtain m'
    where "for_each call (\<lambda>e h. pm_BanInfoHash (mux_PeerManager D Bl F cfg Client codec C) e (T h)) (Suc n) hs (m1, c) = (Inr (), m', c)"
      and "mux_ok D rinv pinv m'" and "mux_view D m' = (\<lambda>ih. if ih \<in> T ` set hs then None else mux_view D m1 ih)"
      and "ban_ok Bl (ts @ map T (h # hs)) (bm_infoHash (mx_ban m'))" by auto
  then show ?case using ban v by (intro exI [of _ m']) (auto simp: mux_PeerManager_def)
qed

text \<open>
  C32. A ban request of the administration takes effect as a whole: with the file system working and
  every listed info hash 20 bytes long after conversion, the answer has status 200, each listed torrent is
  forgotten and refused from then on, and the other torrents stay as they were.
\<close>

theorem admin_ban_effective:
  assumes "local_maps D rinv pinv" and "mux_ok D rinv pinv m" and "bloom_laws Bl"
    and "ban_ok Bl ts (bm_infoHash (mx_ban m))" and "hs \<noteq> []" and "\<forall>h \<in> set hs. length (TransUTF8To8859_1 latin1 h) = 20"
    and "\<And>n. io_seek (me_io (call n)) = None \<and> io_read (me_io (call n)) = None \<and> io_write (me_io (call n)) = None \<and>
      io_sync (me_io (call n)) = None"
  shows "\<exists>r m'. HandleBanInfoHash (mux_PeerManager D Bl F cfg Client codec C) latin1 call (Inr hs) (m, c) = (r, m', c) \<and>
    cr_Code r = 200 \<and> mux_ok D rinv pinv m' \<and>
    (\<forall>h \<in> set hs. mux_view D m' (TransUTF8To8859_1 latin1 h) = None \<and>
      (\<forall>req. r_InfoHash req = TransUTF8To8859_1 latin1 h \<longrightarrow> mux_refusal Bl F req (mx_ban m') = Some ''banned info_hash'')) \<and>
    (\<forall>ih. ih \<notin> TransUTF8To8859_1 latin1 ` set hs \<longrightarrow> mux_view D m' ih = mux_view D m ih)"
proof -
  let ?T = "TransUTF8To8859_1 latin1"
  obtain m' where "for_each call (\<lambda>e h. pm_BanInfoHash (mux_PeerManager D Bl F cfg Client codec C) e (?T h)) 0 hs (m, c) = (Inr (), m', c)"
    and "mux_ok D rinv pinv m'" and "mux_view D m' = (\<lambda>ih. if ih \<in> ?T ` set hs then None else mux_view D m ih)"
    and b: "ban_ok Bl (ts @ map ?T hs) (bm_infoHash (mx_ban m'))"
    using for_each_BanInfoHash [where call = call, OF assms(1,3,7,2,4,6), where F = F and cfg = cfg and Client = Client and codec = codec and C = C and n = 0 and c = c]
    by auto
  then show ?thesis using assms(5)
    by (intro exI [of _ "ResponseOK (JString (Itoa (int (length hs)) @ '' info hash banned''))"] exI [of _ m'])
      (auto simp: HandleBanInfoHash_def list_handler_def ResponseOK_def intro!: ban_ok_refuses [OF b])
qed

theorem admin_ban_effective_witness:
  "\<exists>r m'. HandleBanInfoHash demoPM (\<lambda>b. b) (ue_call (demoUdpEnv 7)) (Inr [demoHash]) (demoMux, ()) = (r, m', ()) \<and>
     cr_Code r = 200 \<and> mux_refusal exactBloom fallbackOps ((demoReq ''A'' ''started'')\<lparr>r_InfoHash := demoHash\<rparr>) (mx_ban m') =
       Some ''banned info_hash''"
proof -
  have id: "TransUTF8To8859_1 (\<lambda>b. b) = (\<lambda>s. s)" by (simp add: TransUTF8To8859_1_def fun_eq_iff)
  have len: "length demoHash = 20" by (simp add: demoHash_def)
  have "ban_ok exactBloom [] (bm_infoHash (mx_ban demoMux))" by (simp add: demoMux_ok emptyBans_def emptyBan_ok)
  from admin_ban_effective [OF synclocal.local_maps_axioms demoMux_ok(1) exactBloom_laws this, of "[demoHash]" "\<lambda>b. b"
      "ue_call (demoUdpEnv 7)" fallbackOps demoCfg downClient "\<lparr>co_Marshal = (\<lambda>_. Inl []), co_Unmarshal = (\<lambda>_. Inl [])\<rparr>" demoStore "()"]
  obtain r m' where "HandleBanInfoHash demoPM (\<lambda>b. b) (ue_call (demoUdpEnv 7)) (Inr [demoHash]) (demoMux, ()) = (r, m', ())"
    and "cr_Code r = 200" and ref: "\<And>req. r_InfoHash req = demoHash \<Longrightarrow> mux_refusal exactBloom fallbackOps req (mx_ban m') = Some ''banned info_hash''"
    by (auto simp: demoPM_def id len demoUdpEnv_def io_ok_def)
  then show ?thesis by (intro exI [of _ r] exI [of _ m']) simp
qed

section \<open>The RPC mode\<close>


definition idlNames :: "idl_enum \<Rightarrow> string" where
  "idlNames e = (if e = 0 then ''unknown'' else if e = 1 then ''started'' else if e = 2 then ''stopped''
     else if e = 3 then ''completed'' else ''<UNSET>'')"


end
