(* ===== verification/Webtorrent_Props.thy ===== *)
theory Webtorrent_Props
  imports Webtorrent_Correct Http_Props
begin

text \<open>
  The properties of the websocket tracker: announces, the sessions of the message loop, closing, scrapes.
\<close>

section \<open>Announces\<close>

text \<open>
  C17. An announce over a websocket that is not refused, for a new torrent or of a peer that does not stop: whichever
  of the two goroutines runs first, the answer holds only eligible peers of the torrent, each once, and
  min(wanted, available) of them; the torrent then has the announcing peer on record, the other torrents are
  as they were, and the invariant of the manager holds.
\<close>

theorem ws_announce:
  assumes "ws_tracker W rinv pinv" and "ws_inv W rinv pinv s" and "ws_refusal Bl F req (ws_ban s) = None"
    and "r_Conn req = Some c" and "valid_addresses (ws_newPeer req (we_now env))"
    and "ws_torrents W s (r_InfoHash req) = None \<or> ParsePeerEvent (r_Event req) \<noteq> PeerEvent_Stopped"
  shows "\<exists>res s'. ws_HandleAnnouncePeer W Bl F env req s = (Inr res, s') \<and> ws_inv W rinv pinv s' \<and>
    (let peer = ws_newPeer req (we_now env); sw = ws_torrent W s (r_InfoHash req) in
     ws_torrents W s' = (ws_torrents W s)(r_InfoHash req \<mapsto> ws_upsert_swarm peer sw) \<and>
     set res \<subseteq> {p \<in> ran sw. ws_eligible peer p} \<and> distinct (map p_ID res) \<and>
     length res = min (nat (r_NumWant req)) (card {p \<in> ran sw. ws_eligible peer p}))"
  by (rule ws_tracker.ws_announce_spec [OF assms]) (simp add: Let_def)

text \<open>A tracker with two shards, and clients on connections 1 and 2.\<close>

definition demoWs :: "((string, (string, Peer) Map) Map, bytes list, fallbackIPFilter, unit) WebsocketMuxManager" where
  "demoWs = projr (NewWSMuxLocalManager syncWs (Inr emptyBans) 2)"

definition wsReq :: "string \<Rightarrow> string \<Rightarrow> conn_id \<Rightarrow> AnnounceRequest" where
  "wsReq ih pid c = (demoReq pid ''started'')\<lparr>r_InfoHash := ih, r_Conn := Some c, r_Type := PeerTypeWebtorrent, r_Source := SourceWS\<rparr>"

definition wsEnv :: ws_env where
  "wsEnv = \<lparr>we_now = 0, we_upsertFirst = True\<rparr>"

definition wsAnnounce where
  "wsAnnounce = ws_HandleAnnouncePeer syncWs exactBloom fallbackOps wsEnv"

lemma demoWs_new: "NewWSMuxLocalManager syncWs (Inr emptyBans) 2 = Inr demoWs"
  by (simp add: demoWs_def NewWSMuxLocalManager_def)

lemma demoWs_inv: "ws_inv syncWs map_ok map_ok demoWs"
  by (rule syncws.winv_new [OF demoWs_new]) simp_all

lemma demoWs_admits: "ws_refusal exactBloom fallbackOps (wsReq ih pid c) emptyBans = None"
  by (simp add: ws_refusal_def ban_Test_def getItem_def emptyBans_def emptyBan_def banItem_test_def
      exactBloom_def TestIPAddr_def fallbackOps_def fallback_TestIP_def newFallbackIPFilter_def wsReq_def)

lemma demoWs_ban [simp]: "ws_ban demoWs = emptyBans"
  by (simp add: demoWs_def NewWSMuxLocalManager_def)

lemma wsReq_simps [simp]:
  "r_Conn (wsReq ih pid c) = Some c" "r_InfoHash (wsReq ih pid c) = ih" "r_PeerID (wsReq ih pid c) = pid"
  "r_Event (wsReq ih pid c) = ''started''" "r_Uploaded (wsReq ih pid c) = 0" "r_Left (wsReq ih pid c) = 1000"
  by (simp_all add: wsReq_def demoReq_def zeroRequest_def)

lemma wsReq_valid: "valid_addresses (ws_newPeer (wsReq ih pid c) now)"
proof -
  have "ParseIP [] = None" by code_simp
  then show ?thesis by (simp add: valid_addresses_def ws_newPeer_def newPeer_def wsReq_def demoReq_def zeroRequest_def)
qed

lemma wsReq_running: "ParsePeerEvent ''started'' \<noteq> PeerEvent_Stopped"
  by (simp add: ParsePeerEvent_def PeerEvent_defs)

theorem ws_announce_witness:
  "\<exists>res s'. wsAnnounce (wsReq ''T'' ''A'' 1) demoWs = (Inr res, s') \<and> ws_inv syncWs map_ok map_ok s'"
  using ws_announce [OF syncws.ws_tracker_axioms demoWs_inv, of exactBloom fallbackOps "wsReq ''T'' ''A'' 1" 1 wsEnv]
  by (auto simp: wsAnnounce_def demoWs_admits wsReq_valid wsReq_running)

section \<open>Sessions\<close>

text \<open>
  C18. Whatever messages a websocket client sends, valid or not, in whatever order, and whatever the library makes of
  them: the handler ends with the connection closed, and the manager keeps its invariant, that is, every peer is
  under its identifier, every torrent in its shard, and the closing callbacks refer to torrents that exist.
\<close>

theorem ws_session:
  assumes "ws_tracker (wd_maps X) rinv pinv" and "ws_inv (wd_maps X) rinv pinv s"
    and "HandleWebTorrent X h conn msgs (s, c) = (s', c')"
  shows "ws_inv (wd_maps X) rinv pinv s' \<and> wc_closed (ws_conns s' conn)"
  using ws_tracker.winv_session [OF assms(1,2) refl assms(3)] by simp

definition wsDeps :: "((string, (string, Peer) Map) Map, (string, Peer) Map, bytes list, fallbackIPFilter, unit) ws_deps" where
  "wsDeps = \<lparr>wd_maps = syncWs, wd_bloom = exactBloom, wd_filter = fallbackOps, wd_cfg = demoCfg, wd_client = downClient,
     wd_codec = \<lparr>co_Marshal = (\<lambda>_. Inl []), co_Unmarshal = (\<lambda>_. Inl [])\<rparr>, wd_latin1 = (\<lambda>b. b), wd_utf8 = (\<lambda>b. b),
     wd_SubString = (\<lambda>s. s)\<rparr>"

definition wsHandlerEnv :: ws_handler_env where
  "wsHandlerEnv = \<lparr>we_now = 0, we_upsertFirst = True, we_Intn = 100, we_pick = (\<lambda>i offers. hd offers), we_write = (\<lambda>_. None)\<rparr>"

definition wsMessage :: "string \<Rightarrow> string \<Rightarrow> unit ws_message" where
  "wsMessage action pid = \<lparr>wm_action = Inr action, wm_answer = False, wm_info_hash = Inr demoHash, wm_to_peer_id = Inl ''no field'',
     wm_announce = Inr (wsReq demoHash pid 0), wm_scrape = Inr (NString demoHash), wm_object = []\<rparr>"

theorem ws_session_witness:
  "\<exists>s'. HandleWebTorrent wsDeps demoHttp 1 [(wsHandlerEnv, wsMessage ''announce'' demoHash), (wsHandlerEnv, wsMessage ''bye'' [])]
     (demoWs, ()) = (s', ()) \<and> ws_inv syncWs map_ok map_ok s' \<and> wc_closed (ws_conns s' 1)"
proof -
  let ?msgs = "[(wsHandlerEnv, wsMessage ''announce'' demoHash), (wsHandlerEnv, wsMessage ''bye'' [])]"
  from surj_pair [of "HandleWebTorrent wsDeps demoHttp 1 ?msgs (demoWs, ())"]
  obtain s' u where r: "HandleWebTorrent wsDeps demoHttp 1 ?msgs (demoWs, ()) = (s', u)" by blast
  have m: "wd_maps wsDeps = syncWs" by (simp add: wsDeps_def)
  have "ws_inv syncWs map_ok map_ok s' \<and> wc_closed (ws_conns s' 1)"
    using ws_session [OF _ _ r, of map_ok map_ok] syncws.ws_tracker_axioms demoWs_inv by (simp only: m)
  then show ?thesis by (intro exI [of _ s'] conjI r [unfolded unit_eq [of u]]) simp_all
qed

section \<open>Closing\<close>

text \<open>
  C39. A connection remembers one callback, that of its last announce. A client that announces two torrents on one
  connection and disconnects is removed from the second; from the first it is not.
\<close>

theorem ws_close_last_only:
  assumes "ws_tracker W rinv pinv" and "ws_inv W rinv pinv s" and "\<not> wc_closed (ws_conns s c)"
    and "r_Conn req1 = Some c" and "r_Conn req2 = Some c" and "r_InfoHash req1 \<noteq> r_InfoHash req2"
    and "ParsePeerEvent (r_Event req1) \<noteq> PeerEvent_Stopped" and "ParsePeerEvent (r_Event req2) \<noteq> PeerEvent_Stopped"
    and "ws_HandleAnnouncePeer W Bl F env1 req1 s = (Inr res1, s1)"
    and "ws_HandleAnnouncePeer W Bl F env2 req2 s1 = (Inr res2, s2)"
  shows "r_PeerID req2 \<notin> dom (ws_torrent W (ws_Close W c s2) (r_InfoHash req2)) \<and>
    r_PeerID req1 \<in> dom (ws_torrent W (ws_Close W c s2) (r_InfoHash req1))"
proof -
  have one: "ws_inv W rinv pinv s' \<and> \<not> wc_closed (ws_conns s' c) \<and>
      ws_torrents W s' = (ws_torrents W t)(r_InfoHash req \<mapsto> ws_upsert_swarm (ws_newPeer req (we_now env)) (ws_torrent W t (r_InfoHash req))) \<and>
      (\<exists>i. wc_callback (ws_conns s' c) = Some (i, r_InfoHash req, r_PeerID req))"
    if inv: "ws_inv W rinv pinv t" "\<not> wc_closed (ws_conns t c)" and r: "r_Conn req = Some c" "ParsePeerEvent (r_Event req) \<noteq> PeerEvent_Stopped"
      and h: "ws_HandleAnnouncePeer W Bl F env req t = (Inr res, s')" for env req res s' and t :: "('a, 'c, 'd, 'e) WebsocketMuxManager"
  proof -
    have ref: "ws_refusal Bl F req (ws_ban t) = None"
      using h by (auto simp: ws_HandleAnnouncePeer_def split: option.splits)
    from ws_announce_success [OF h] have v: "valid_addresses (ws_newPeer req (we_now env))" by blast
    show ?thesis
      by (rule ws_tracker.ws_announce_spec [OF assms(1) inv(1) ref r(1) v]) (use r(2) h inv(2) in auto)
  qed
  note s1 = one [OF assms(2,3,4,7,9)]
  then have s1': "ws_inv W rinv pinv s1" "\<not> wc_closed (ws_conns s1 c)" by simp_all
  note s2 = one [OF this assms(5,8,10)]
  then obtain i where cb: "wc_callback (ws_conns s2 c) = Some (i, r_InfoHash req2, r_PeerID req2)" by blast
  have "ws_torrents W (ws_Close W c s2) = (ws_torrents W s2)(r_InfoHash req2 \<mapsto> (ws_torrent W s2 (r_InfoHash req2))(r_PeerID req2 := None))"
    by (rule ws_tracker.ws_close_torrents [OF assms(1) _ _ cb]) (use s2 in simp_all)
  then show ?thesis using s1 s2 assms(6) by (simp add: ws_torrent_def [of W "ws_Close W c s2"] ws_upsert_swarm_def)
qed

theorem ws_close_last_only_witness:
  "\<exists>s1 s2. wsAnnounce (wsReq ''T'' ''A'' 1) demoWs = (Inr [], s1) \<and> wsAnnounce (wsReq ''U'' ''A'' 1) s1 = (Inr [], s2) \<and>
     ''A'' \<notin> dom (ws_torrent syncWs (ws_Close syncWs 1 s2) ''U'') \<and> ''A'' \<in> dom (ws_torrent syncWs (ws_Close syncWs 1 s2) ''T'')"
proof -
  define s1 where "s1 = snd (wsAnnounce (wsReq ''T'' ''A'' 1) demoWs)"
  have "fst (wsAnnounce (wsReq ''T'' ''A'' 1) demoWs) = Inr []" by code_simp
  then have a1: "wsAnnounce (wsReq ''T'' ''A'' 1) demoWs = (Inr [], s1)" by (simp add: s1_def prod_eq_iff)
  define s2 where "s2 = snd (wsAnnounce (wsReq ''U'' ''A'' 1) s1)"
  have "fst (wsAnnounce (wsReq ''U'' ''A'' 1) s1) = Inr []" unfolding s1_def by code_simp
  then have a2: "wsAnnounce (wsReq ''U'' ''A'' 1) s1 = (Inr [], s2)" by (simp add: s2_def prod_eq_iff)
  have "\<not> wc_closed (ws_conns demoWs 1)" by code_simp
  from ws_close_last_only [OF syncws.ws_tracker_axioms demoWs_inv this _ _ _ _ _ a1 [unfolded wsAnnounce_def] a2 [unfolded wsAnnounce_def]]
  have "''A'' \<notin> dom (ws_torrent syncWs (ws_Close syncWs 1 s2) ''U'') \<and> ''A'' \<in> dom (ws_torrent syncWs (ws_Close syncWs 1 s2) ''T'')"
    by (simp add: wsReq_running)
  with a1 a2 show ?thesis by blast
qed

section \<open>Scrapes\<close>

text \<open>
  What a scrape reports right after the first announce of a torrent, the cache being off: the peer counts as
  complete if it says so with its event or has uploaded nothing, and as incomplete otherwise; how much it has left to
  download makes no difference, as \<^verbatim>\<open>Left\<close> is filled from \<^verbatim>\<open>req.Uploaded\<close>.
\<close>

theorem ws_scrape_uploaded:
  assumes "ws_tracker W rinv pinv" and "ws_inv W rinv pinv s" and "ws_torrents W s (r_InfoHash req) = None"
    and "ws_HandleAnnouncePeer W Bl F env req s = (Inr res, s')" and "\<not> redis_Enable (c_Cache cfg)" and "0 \<le> sint (r_Left req)"
  shows "\<exists>f. ws_Scrape W cfg Client codec (r_InfoHash req) s' c = (Inr f, c) \<and>
    (if r_Uploaded req = 0 \<or> ParsePeerEvent (r_Event req) = PeerEvent_Completed
     then sf_Complete f = 1 \<and> sf_Incomplete f = 0 else sf_Complete f = 0 \<and> sf_Incomplete f = 1)"
proof -
  let ?ih = "r_InfoHash req" and ?peer = "ws_newPeer req (we_now env)"
  have ref: "ws_refusal Bl F req (ws_ban s) = None"
    using assms(4) by (auto simp: ws_HandleAnnouncePeer_def split: option.splits)
  obtain conn where "r_Conn req = Some conn" "valid_addresses ?peer" by (rule ws_announce_success [OF assms(4)])
  then obtain inv: "ws_inv W rinv pinv s'" and t: "ws_torrents W s' ?ih = Some [r_PeerID req \<mapsto> ?peer]"
    by (rule ws_tracker.ws_announce_spec [OF assms(1,2) ref]) (use assms(3,4) in \<open>auto simp: ws_torrent_def ws_upsert_swarm_def\<close>)
  have sc: "ws_Scrape W cfg Client codec ?ih s' c = (Inr (scrapeFile_of (count_peer zeroCounters ?peer)), c)"
    by (rule ws_tracker.ws_Scrape_single [OF assms(1) inv t assms(5)])
  have "p_Left ?peer = r_Uploaded req" "p_Event ?peer = ParsePeerEvent (r_Event req)"
    using assms(6) by (simp_all add: ws_newPeer_def newPeer_def)
  then show ?thesis by (simp add: sc count_peer_def scrapeFile_of_def zeroCounters_def Let_def)
qed

theorem ws_scrape_uploaded_witness:
  "\<exists>f. fst (ws_Scrape syncWs demoCfg downClient \<lparr>co_Marshal = (\<lambda>_. Inl []), co_Unmarshal = (\<lambda>_. Inl [])\<rparr> ''T''
     (snd (wsAnnounce (wsReq ''T'' ''A'' 1) demoWs)) ()) = Inr f \<and> sf_Complete f = 1 \<and> sf_Incomplete f = 0 \<and>
     r_Left (wsReq ''T'' ''A'' 1) = 1000"
proof -
  have "fst (wsAnnounce (wsReq ''T'' ''A'' 1) demoWs) = Inr []" by code_simp
  then have a: "wsAnnounce (wsReq ''T'' ''A'' 1) demoWs = (Inr [], snd (wsAnnounce (wsReq ''T'' ''A'' 1) demoWs))" by (simp add: prod_eq_iff)
  have none: "ws_torrents syncWs demoWs (r_InfoHash (wsReq ''T'' ''A'' 1)) = None" by code_simp
  from ws_scrape_uploaded [OF syncws.ws_tracker_axioms demoWs_inv none a [unfolded wsAnnounce_def],
      of demoCfg downClient "\<lparr>co_Marshal = (\<lambda>_. Inl []), co_Unmarshal = (\<lambda>_. Inl [])\<rparr>" "()"]
  show ?thesis by (auto simp: wsAnnounce_def)
qed

end
