(* ===== verification/Database.thy ===== *)
theory Database
  imports Peer_Manager "HOL-Library.Multiset"
begin

text \<open>
  The peer manager over a database, \<^verbatim>\<open>biz/services/peer/database\<close>: the rows (\<^verbatim>\<open>entity\<close>), the repositories with
  their statements (\<^verbatim>\<open>data\<close>), the conversions and the manager. The database behind gorm is a parameter: a
  record of the statements the code issues. A statement carries its conditions as data, and each call gets an
  argument \<open>'q\<close> that stands for what the server decides (failures, the random order).
\<close>

section \<open>Rows and statements\<close>

record Peers =
  e_Ip :: IP
  e_Ipv4 :: IP
  e_Ipv6 :: IP
  e_ClientIp :: IP
  e_LastSeen :: gotime
  e_Offers :: "Offer list"
  e_UpdatedAt :: gotime
  e_InfoHash :: string
  e_PeerID :: string
  e_UserAgent :: string
  e_ID :: uint64
  e_Port :: int
  e_Left :: uint64
  e_Uploaded :: uint64
  e_Downloaded :: uint64
  e_Type :: PeerType
  e_Source :: Source
  e_Event :: "8 word"

type_synonym BlockType = "8 word"

definition BlockTypeInfoHash :: BlockType where "BlockTypeInfoHash = 0"

definition BlockTypePeerID :: BlockType where "BlockTypePeerID = 1"

record BlockList =
  bk_ID :: uint64
  bk_Target :: string
  bk_Type :: BlockType
  bk_CreatedAt :: gotime

text \<open>The conditions of the \<^verbatim>\<open>Where\<close> clauses, always joined by \<^verbatim>\<open>AND\<close>.\<close>

datatype peer_cond =
  InfoHashIs string
| PeerIdIsNot string
| SeenAfter gotime
| EventIs "8 word"
| EventIsNot "8 word"
| TypeIs PeerType
| LeftIs uint64
| LeftPositive

record ('q, 'd) gorm =
  g_Find :: "'q \<Rightarrow> peer_cond list \<Rightarrow> 'd \<Rightarrow> Peers list result"
  g_FindRandom :: "'q \<Rightarrow> peer_cond list \<Rightarrow> int \<Rightarrow> 'd \<Rightarrow> Peers list result"
  g_Count :: "'q \<Rightarrow> peer_cond list \<Rightarrow> 'd \<Rightarrow> int64 result"
  g_CountInfoHash :: "'q \<Rightarrow> peer_cond list \<Rightarrow> 'd \<Rightarrow> int64 result"
  g_Save :: "'q \<Rightarrow> string list \<Rightarrow> Peers \<Rightarrow> 'd \<Rightarrow> error option \<times> 'd"
  g_Delete :: "'q \<Rightarrow> peer_cond list \<Rightarrow> 'd \<Rightarrow> error option \<times> 'd"
  g_CreateBlock :: "'q \<Rightarrow> BlockList \<Rightarrow> 'd \<Rightarrow> error option \<times> 'd"
  g_FindBlock :: "'q \<Rightarrow> BlockType \<Rightarrow> 'd \<Rightarrow> BlockList list result"

section \<open>Conversions\<close>

definition hex_of :: "string \<Rightarrow> string" where
  "hex_of raw = hex_EncodeToString (UnsafeStringToBytes raw)"

definition CommonToDB :: "gotime \<Rightarrow> string \<Rightarrow> Peer \<Rightarrow> Peers" where
  "CommonToDB now ih peer = \<lparr>
     e_Ip = p_IP peer, e_Ipv4 = p_IPv4 peer, e_Ipv6 = p_IPv6 peer, e_ClientIp = p_ClientIP peer,
     e_LastSeen = p_LastSeen peer, e_Offers = p_Offers peer, e_UpdatedAt = now,
     e_InfoHash = hex_of ih, e_PeerID = hex_of (p_ID peer), e_UserAgent = p_UserAgent peer, e_ID = 0,
     e_Port = p_Port peer, e_Left = p_Left peer, e_Uploaded = p_Uploaded peer, e_Downloaded = p_Downloaded peer,
     e_Type = p_Type peer, e_Source = p_Source peer, e_Event = p_Event peer\<rparr>"

definition DBToCommon :: "Peers \<Rightarrow> Peer" where
  "DBToCommon peer = (let peerId = fst (hex_DecodeString (e_PeerID peer)) in \<lparr>
     p_IP = e_Ip peer, p_IPv4 = e_Ipv4 peer, p_IPv6 = e_Ipv6 peer, p_ClientIP = e_ClientIp peer,
     p_LastSeen = e_LastSeen peer, p_Offers = e_Offers peer, p_ID = UnsafeBytesToString peerId,
     p_UserAgent = e_UserAgent peer, p_Port = e_Port peer, p_Left = e_Left peer, p_Uploaded = e_Uploaded peer,
     p_Downloaded = e_Downloaded peer, p_Conn = None, p_Type = e_Type peer, p_Event = e_Event peer,
     p_Source = e_Source peer\<rparr>)"

section \<open>The repositories\<close>

definition PickPeers ::
  "('q, 'd) gorm \<Rightarrow> Config \<Rightarrow> gotime \<Rightarrow> 'q \<Rightarrow> string \<Rightarrow> string \<Rightarrow> int \<Rightarrow> PeerType \<Rightarrow> 'd \<Rightarrow> Peers list result" where
  "PickPeers G cfg now q currentPeerID infoHashRaw numWant peerType d =
     g_FindRandom G q [InfoHashIs (hex_of infoHashRaw), PeerIdIsNot currentPeerID, SeenAfter (expireTime cfg now),
       EventIsNot PeerEvent_Stopped, TypeIs peerType] numWant d"

definition saveColumns :: "string list" where
  "saveColumns = [''ip'', ''ipv4'', ''ipv6'', ''client_ip'', ''port'', ''left'', ''uploaded'', ''downloaded'', ''last_seen'',
     ''user_agent'', ''event'', ''offers'', ''updated_at'']"

definition SavePeer :: "('q, 'd) gorm \<Rightarrow> 'q \<Rightarrow> Peers \<Rightarrow> 'd \<Rightarrow> error option \<times> 'd" where
  "SavePeer G q peer d = g_Save G q saveColumns peer d"

definition GetDownloadedCount :: "('q, 'd) gorm \<Rightarrow> 'q \<Rightarrow> string \<Rightarrow> 'd \<Rightarrow> int64 result" where
  "GetDownloadedCount G q ih d = g_Count G q [InfoHashIs ih, EventIs 3] d"

definition GetCompleteCount :: "('q, 'd) gorm \<Rightarrow> Config \<Rightarrow> gotime \<Rightarrow> 'q \<Rightarrow> string \<Rightarrow> 'd \<Rightarrow> int64 result" where
  "GetCompleteCount G cfg now q ih d = g_Count G q [InfoHashIs ih, SeenAfter (expireTime cfg now), LeftIs 0] d"

definition GetSeederCount :: "('q, 'd) gorm \<Rightarrow> Config \<Rightarrow> gotime \<Rightarrow> 'q \<Rightarrow> string \<Rightarrow> 'd \<Rightarrow> int64 result" where
  "GetSeederCount G cfg now q ih d = g_Count G q [InfoHashIs ih, SeenAfter (expireTime cfg now), LeftIs 0, EventIsNot 2] d"

definition GetInCompleteCount :: "('q, 'd) gorm \<Rightarrow> Config \<Rightarrow> gotime \<Rightarrow> 'q \<Rightarrow> string \<Rightarrow> 'd \<Rightarrow> int64 result" where
  "GetInCompleteCount G cfg now q ih d = g_Count G q [InfoHashIs ih, SeenAfter (expireTime cfg now), LeftPositive] d"

definition GetPeersCount :: "('q, 'd) gorm \<Rightarrow> Config \<Rightarrow> gotime \<Rightarrow> 'q \<Rightarrow> 'd \<Rightarrow> int64 result" where
  "GetPeersCount G cfg now q d = g_Count G q [SeenAfter (expireTime cfg now)] d"

definition GetInfoHashCount :: "('q, 'd) gorm \<Rightarrow> Config \<Rightarrow> gotime \<Rightarrow> 'q \<Rightarrow> 'd \<Rightarrow> int64 result" where
  "GetInfoHashCount G cfg now q d = g_CountInfoHash G q [SeenAfter (expireTime cfg now)] d"

definition repo_GetPeers :: "('q, 'd) gorm \<Rightarrow> Config \<Rightarrow> gotime \<Rightarrow> 'q \<Rightarrow> string \<Rightarrow> 'd \<Rightarrow> Peers list result" where
  "repo_GetPeers G cfg now q infoHashRaw d = g_Find G q [InfoHashIs (hex_of infoHashRaw), SeenAfter (expireTime cfg now)] d"

definition repo_DeleteInfoHash :: "('q, 'd) gorm \<Rightarrow> 'q \<Rightarrow> string \<Rightarrow> 'd \<Rightarrow> error option \<times> 'd" where
  "repo_DeleteInfoHash G q infoHashRaw d = g_Delete G q [InfoHashIs (hex_of infoHashRaw)] d"

definition AddToBlockList :: "('q, 'd) gorm \<Rightarrow> gotime \<Rightarrow> 'q \<Rightarrow> string \<Rightarrow> BlockType \<Rightarrow> 'd \<Rightarrow> error option \<times> 'd" where
  "AddToBlockList G now q targetRaw blockType d =
     g_CreateBlock G q \<lparr>bk_ID = 0, bk_Target = hex_of targetRaw, bk_Type = blockType, bk_CreatedAt = now\<rparr> d"

definition GetBlockList :: "('q, 'd) gorm \<Rightarrow> 'q \<Rightarrow> BlockType \<Rightarrow> 'd \<Rightarrow> BlockList list result" where
  "GetBlockList G q blockType d = g_FindBlock G q blockType d"

section \<open>The manager\<close>

record ('f, 'd) DBManager =
  dbm_banInfoHash :: 'f
  dbm_banPeerId :: 'f
  dbm_db :: 'd

text \<open>
  What a call asks of the outside: the clock readings and the database's choices in the order of the code, and
  whether the goroutine that saves the peer runs before the query for the answer.
\<close>

record 'q db_env =
  de_time :: "nat \<Rightarrow> gotime"
  de_call :: "nat \<Rightarrow> 'q"
  de_saveFirst :: bool

definition db_newPeer :: "AnnounceRequest \<Rightarrow> gotime \<Rightarrow> Peer" where
  "db_newPeer req now = (newPeer req now)\<lparr>p_Conn := None, p_Source := 0\<rparr>"

definition db_save ::
  "('q, 'd) gorm \<Rightarrow> Config \<Rightarrow> 'q db_env \<Rightarrow> AnnounceRequest \<Rightarrow> Peer \<Rightarrow> ('f, 'd) DBManager \<Rightarrow> ('f, 'd) DBManager" where
  "db_save G cfg env req peer m =
     (if IsPeerConnectable cfg peer
      then m\<lparr>dbm_db := snd (SavePeer G (de_call env 0) (CommonToDB (de_time env 1) (r_InfoHash req) peer) (dbm_db m))\<rparr>
      else m)"

definition db_HandleAnnouncePeer ::
  "('q, 'd) gorm \<Rightarrow> 'f bloom \<Rightarrow> Config \<Rightarrow> 'q db_env \<Rightarrow> AnnounceRequest \<Rightarrow> ('f, 'd) DBManager \<Rightarrow>
   Peer list result \<times> ('f, 'd) DBManager" where
  "db_HandleAnnouncePeer G B cfg env req m =
     (if bl_Test B (dbm_banInfoHash m) (UnsafeStringToBytes (r_InfoHash req)) then (Inl ''banned'', m)
      else if bl_Test B (dbm_banPeerId m) (UnsafeStringToBytes (r_PeerID req)) then (Inl ''banned'', m)
      else
        (let peer = db_newPeer req (de_time env 0);
             pick = (\<lambda>m. PickPeers G cfg (de_time env 2) (de_call env 1) (hex_of (p_ID peer)) (r_InfoHash req) (r_NumWant req)
                           (r_Type req) (dbm_db m));
             m' = db_save G cfg env req peer m
         in if \<not> valid_addresses peer then (Inl ''invalid address'', m)
            else case pick (if de_saveFirst env then m' else m) of
              Inl e \<Rightarrow> (Inl e, m')
            | Inr peers \<Rightarrow> (Inr (map DBToCommon peers), m')))"

definition db_Scrape ::
  "('q, 'd) gorm \<Rightarrow> Config \<Rightarrow> 'q db_env \<Rightarrow> string \<Rightarrow> ('f, 'd) DBManager \<Rightarrow> ScrapeFile result" where
  "db_Scrape G cfg env infoHashRaw m =
     (let ih = hex_of infoHashRaw; d = dbm_db m in
      case GetCompleteCount G cfg (de_time env 0) (de_call env 0) ih d of Inl e \<Rightarrow> Inl e | Inr complete \<Rightarrow>
     (case GetSeederCount G cfg (de_time env 1) (de_call env 1) ih d of Inl e \<Rightarrow> Inl e | Inr seeder \<Rightarrow>
     (case GetDownloadedCount G (de_call env 2) ih d of Inl e \<Rightarrow> Inl e | Inr downloaded \<Rightarrow>
     (case GetInCompleteCount G cfg (de_time env 2) (de_call env 3) ih d of Inl e \<Rightarrow> Inl e | Inr incomplete \<Rightarrow>
        Inr \<lparr>sf_Seeder = sint seeder, sf_Complete = sint complete, sf_Incomplete = sint incomplete, sf_Downloaded = sint downloaded\<rparr>))))"

definition db_GetStatistic :: "('q, 'd) gorm \<Rightarrow> Config \<Rightarrow> 'q db_env \<Rightarrow> ('f, 'd) DBManager \<Rightarrow> StatisticInfo result" where
  "db_GetStatistic G cfg env m =
     (case GetPeersCount G cfg (de_time env 0) (de_call env 0) (dbm_db m) of Inl e \<Rightarrow> Inl e | Inr peersCount \<Rightarrow>
     (case GetInfoHashCount G cfg (de_time env 1) (de_call env 1) (dbm_db m) of Inl e \<Rightarrow> Inl e | Inr infoHashCount \<Rightarrow>
        Inr (StatisticInfo peersCount infoHashCount [(''all'', StatisticInfo peersCount infoHashCount [])])))"

definition of_error :: "error option \<Rightarrow> unit result" where
  "of_error e = (case e of None \<Rightarrow> Inr () | Some e \<Rightarrow> Inl e)"

definition db_BanInfoHash ::
  "('q, 'd) gorm \<Rightarrow> 'f bloom \<Rightarrow> 'q db_env \<Rightarrow> string \<Rightarrow> ('f, 'd) DBManager \<Rightarrow> unit result \<times> ('f, 'd) DBManager" where
  "db_BanInfoHash G B env ih m =
     (let m = m\<lparr>dbm_banInfoHash := bl_Add B (dbm_banInfoHash m) (UnsafeStringToBytes ih)\<rparr> in
      case AddToBlockList G (de_time env 0) (de_call env 0) ih BlockTypeInfoHash (dbm_db m) of
        (e, d) \<Rightarrow> (of_error e, m\<lparr>dbm_db := d\<rparr>))"

definition db_BanPeer ::
  "('q, 'd) gorm \<Rightarrow> 'f bloom \<Rightarrow> 'q db_env \<Rightarrow> string \<Rightarrow> ('f, 'd) DBManager \<Rightarrow> unit result \<times> ('f, 'd) DBManager" where
  "db_BanPeer G B env peerID m =
     (let m = m\<lparr>dbm_banPeerId := bl_Add B (dbm_banPeerId m) (UnsafeStringToBytes peerID)\<rparr> in
      case AddToBlockList G (de_time env 0) (de_call env 0) peerID BlockTypePeerID (dbm_db m) of
        (e, d) \<Rightarrow> (of_error e, m\<lparr>dbm_db := d\<rparr>))"

text \<open>Both clear the filter of the peer identifiers, and neither the table. \<^verbatim>\<open>ClearAll\<close> makes a filter empty.\<close>

definition db_ClearBanInfoHash :: "'f bloom \<Rightarrow> ('f, 'd) DBManager \<Rightarrow> ('f, 'd) DBManager" where
  "db_ClearBanInfoHash B m = m\<lparr>dbm_banPeerId := bl_New B 10000\<rparr>"

definition db_ClearBanPeer :: "'f bloom \<Rightarrow> ('f, 'd) DBManager \<Rightarrow> ('f, 'd) DBManager" where
  "db_ClearBanPeer B m = m\<lparr>dbm_banPeerId := bl_New B 10000\<rparr>"

definition db_GetPeers :: "('q, 'd) gorm \<Rightarrow> Config \<Rightarrow> 'q db_env \<Rightarrow> string \<Rightarrow> ('f, 'd) DBManager \<Rightarrow> Peer list result" where
  "db_GetPeers G cfg env ih m =
     (case repo_GetPeers G cfg (de_time env 0) (de_call env 0) ih (dbm_db m) of
        Inl e \<Rightarrow> Inl e | Inr peers \<Rightarrow> Inr (map DBToCommon peers))"

definition db_DeleteInfoHash ::
  "('q, 'd) gorm \<Rightarrow> 'q db_env \<Rightarrow> string \<Rightarrow> ('f, 'd) DBManager \<Rightarrow> unit result \<times> ('f, 'd) DBManager" where
  "db_DeleteInfoHash G env ih m =
     (case repo_DeleteInfoHash G (de_call env 0) ih (dbm_db m) of (e, d) \<Rightarrow> (of_error e, m\<lparr>dbm_db := d\<rparr>))"

definition add_targets :: "'f bloom \<Rightarrow> BlockList list \<Rightarrow> 'f \<Rightarrow> 'f" where
  "add_targets B items f = foldl (bl_Add B) f (map (\<lambda>item. fst (hex_DecodeString (bk_Target item))) items)"

definition restoreBlockList ::
  "('q, 'd) gorm \<Rightarrow> 'f bloom \<Rightarrow> 'q db_env \<Rightarrow> ('f, 'd) DBManager \<Rightarrow> ('f, 'd) DBManager" where
  "restoreBlockList G B env m =
     (let m = (case GetBlockList G (de_call env 0) BlockTypeInfoHash (dbm_db m) of
                 Inl e \<Rightarrow> m | Inr infoHashList \<Rightarrow> m\<lparr>dbm_banInfoHash := add_targets B infoHashList (dbm_banInfoHash m)\<rparr>)
      in case GetBlockList G (de_call env 1) BlockTypePeerID (dbm_db m) of
           Inl e \<Rightarrow> m | Inr peerList \<Rightarrow> m\<lparr>dbm_banPeerId := add_targets B peerList (dbm_banPeerId m)\<rparr>)"

definition NewDBManager :: "('q, 'd) gorm \<Rightarrow> 'f bloom \<Rightarrow> 'q db_env \<Rightarrow> 'd \<Rightarrow> ('f, 'd) DBManager" where
  "NewDBManager G B env db =
     restoreBlockList G B env \<lparr>dbm_banInfoHash = bl_New B 10000, dbm_banPeerId = bl_New B 10000, dbm_db = db\<rparr>"

definition db_BanIP :: "string \<Rightarrow> 's \<Rightarrow> unit result \<times> 's" where
  "db_BanIP ip m = (Inl ''IP banning is not supported in database mode, use memory mode with XDP config'', m)"

definition db_UnbanIP :: "string \<Rightarrow> 's \<Rightarrow> unit result \<times> 's" where
  "db_UnbanIP ip m = (Inl ''IP unbanning is not supported in database mode, use memory mode with XDP config'', m)"

definition db_ClearBanIP :: "'s \<Rightarrow> unit result \<times> 's" where
  "db_ClearBanIP m = (Inl ''IP ban clearing is not supported in database mode, use memory mode with XDP config'', m)"

definition db_GetIPFilterStats :: "'s \<Rightarrow> IPFilterStats option" where
  "db_GetIPFilterStats m = None"

definition db_Clean :: "'s \<Rightarrow> int \<times> 's" where
  "db_Clean m = (0, m)"

definition db_LoadFromPersist :: "'s \<Rightarrow> 's result" where
  "db_LoadFromPersist m = Inr m"

definition db_StoreToPersist :: "'s \<Rightarrow> (string \<times> bytes) list" where
  "db_StoreToPersist m = []"

definition db_PeerManager :: "('q, 'd) gorm \<Rightarrow> 'f bloom \<Rightarrow> Config \<Rightarrow> ('q db_env, ('f, 'd) DBManager) PeerManager" where
  "db_PeerManager G B cfg = \<lparr>
     pm_HandleAnnouncePeer = db_HandleAnnouncePeer G B cfg,
     pm_Scrape = (\<lambda>e ih m. (db_Scrape G cfg e ih m, m)),
     pm_Clean = (\<lambda>e. db_Clean),
     pm_LoadFromPersist = (\<lambda>e. db_LoadFromPersist),
     pm_StoreToPersist = (\<lambda>e. db_StoreToPersist),
     pm_GetStatistic = db_GetStatistic G cfg,
     pm_BanInfoHash = db_BanInfoHash G B,
     pm_BanPeer = db_BanPeer G B,
     pm_ClearBanInfoHash = (\<lambda>e. db_ClearBanInfoHash B),
     pm_ClearBanPeer = (\<lambda>e. db_ClearBanPeer B),
     pm_GetPeers = db_GetPeers G cfg,
     pm_DeleteInfoHash = db_DeleteInfoHash G,
     pm_BanIP = (\<lambda>e. db_BanIP),
     pm_UnbanIP = (\<lambda>e. db_UnbanIP),
     pm_ClearBanIP = (\<lambda>e. db_ClearBanIP),
     pm_GetIPFilterStats = (\<lambda>e. db_GetIPFilterStats)\<rparr>"

end
