(* ===== verification/Database_Correct.thy ===== *)
theory Database_Correct
  imports Database
begin

text \<open>
  What the code relies on in the database (\<open>db_laws\<close>: the meaning of the conditions, the unique key of the table of
  peers, an insert that updates on a conflict), the table as a map of swarms, and the lemmas on the manager.
\<close>

section \<open>What the database promises\<close>

fun holds :: "peer_cond \<Rightarrow> Peers \<Rightarrow> bool" where
  "holds (InfoHashIs h) r = (e_InfoHash r = h)"
| "holds (PeerIdIsNot i) r = (e_PeerID r \<noteq> i)"
| "holds (SeenAfter t) r = (t < e_LastSeen r)"
| "holds (EventIs e) r = (e_Event r = e)"
| "holds (EventIsNot e) r = (e_Event r \<noteq> e)"
| "holds (TypeIs t) r = (e_Type r = t)"
| "holds (LeftIs l) r = (e_Left r = l)"
| "holds LeftPositive r = (0 < e_Left r)"

definition where_all :: "peer_cond list \<Rightarrow> Peers \<Rightarrow> bool" where
  "where_all cs r \<longleftrightarrow> list_all (\<lambda>c. holds c r) cs"

lemma where_all_simps [simp]: "where_all [] r" "where_all (c # cs) r \<longleftrightarrow> holds c r \<and> where_all cs r"
  by (simp_all add: where_all_def)

definition row_key :: "Peers \<Rightarrow> string \<times> string" where
  "row_key r = (e_InfoHash r, e_PeerID r)"

definition row_at :: "Peers list \<Rightarrow> string \<times> string \<rightharpoonup> Peers" where
  "row_at rs k = find (\<lambda>r. row_key r = k) rs"

definition assign_column :: "Peers \<Rightarrow> Peers \<Rightarrow> string \<Rightarrow> Peers" where
  "assign_column new old col =
     (if col = ''ip'' then old\<lparr>e_Ip := e_Ip new\<rparr>
      else if col = ''ipv4'' then old\<lparr>e_Ipv4 := e_Ipv4 new\<rparr>
      else if col = ''ipv6'' then old\<lparr>e_Ipv6 := e_Ipv6 new\<rparr>
      else if col = ''client_ip'' then old\<lparr>e_ClientIp := e_ClientIp new\<rparr>
      else if col = ''port'' then old\<lparr>e_Port := e_Port new\<rparr>
      else if col = ''left'' then old\<lparr>e_Left := e_Left new\<rparr>
      else if col = ''uploaded'' then old\<lparr>e_Uploaded := e_Uploaded new\<rparr>
      else if col = ''downloaded'' then old\<lparr>e_Downloaded := e_Downloaded new\<rparr>
      else if col = ''last_seen'' then old\<lparr>e_LastSeen := e_LastSeen new\<rparr>
      else if col = ''user_agent'' then old\<lparr>e_UserAgent := e_UserAgent new\<rparr>
      else if col = ''event'' then old\<lparr>e_Event := e_Event new\<rparr>
      else if col = ''offers'' then old\<lparr>e_Offers := e_Offers new\<rparr>
      else if col = ''updated_at'' then old\<lparr>e_UpdatedAt := e_UpdatedAt new\<rparr>
      else if col = ''type'' then old\<lparr>e_Type := e_Type new\<rparr>
      else if col = ''source'' then old\<lparr>e_Source := e_Source new\<rparr>
      else old)"

definition assign_columns :: "string list \<Rightarrow> Peers \<Rightarrow> Peers \<Rightarrow> Peers" where
  "assign_columns cols new old = foldl (assign_column new) old cols"

text \<open>A column of type timestamp keeps whole seconds, and the server numbers the rows.\<close>

definition same_row :: "Peers \<Rightarrow> Peers \<Rightarrow> bool" where
  "same_row r r' \<longleftrightarrow> r\<lparr>e_ID := 0, e_LastSeen := 0, e_UpdatedAt := 0\<rparr> = r'\<lparr>e_ID := 0, e_LastSeen := 0, e_UpdatedAt := 0\<rparr> \<and>
     \<bar>e_LastSeen r - e_LastSeen r'\<bar> < 1000000000"

definition block_key :: "BlockList \<Rightarrow> BlockType \<times> string" where
  "block_key b = (bk_Type b, bk_Target b)"

text \<open>The unique key of the table.\<close>

definition unique_rows :: "Peers list \<Rightarrow> bool" where
  "unique_rows rs \<longleftrightarrow> distinct (map row_key rs)"

definition find_laws :: "('q, 'd) gorm \<Rightarrow> ('d \<Rightarrow> Peers list) \<Rightarrow> bool" where
  "find_laws G rows \<longleftrightarrow>
     (\<forall>q cs d ps. g_Find G q cs d = Inr ps \<longrightarrow> mset ps = mset (filter (where_all cs) (rows d))) \<and>
     (\<forall>q cs n d ps. g_FindRandom G q cs n d = Inr ps \<longrightarrow> 0 \<le> n \<longrightarrow>
        length ps = min (nat n) (length (filter (where_all cs) (rows d))) \<and>
        (\<exists>rest. mset (ps @ rest) = mset (filter (where_all cs) (rows d)))) \<and>
     (\<forall>q cs d k. g_Count G q cs d = Inr k \<longrightarrow> k = of_nat (length (filter (where_all cs) (rows d)))) \<and>
     (\<forall>q cs d k. g_CountInfoHash G q cs d = Inr k \<longrightarrow> k = of_nat (card (e_InfoHash ` set (filter (where_all cs) (rows d)))))"

definition save_laws :: "('q, 'd) gorm \<Rightarrow> ('d \<Rightarrow> Peers list) \<Rightarrow> ('d \<Rightarrow> BlockList list) \<Rightarrow> bool" where
  "save_laws G rows blocks \<longleftrightarrow>
     (\<forall>q cols p d e d'. unique_rows (rows d) \<longrightarrow> g_Save G q cols p d = (e, d') \<longrightarrow>
        blocks d' = blocks d \<and> unique_rows (rows d') \<and>
        (case e of Some _ \<Rightarrow> rows d' = rows d
         | None \<Rightarrow> e_ID p = 0 \<longrightarrow>
             (\<forall>k. k \<noteq> row_key p \<longrightarrow> row_at (rows d') k = row_at (rows d) k) \<and>
             (\<exists>r. row_at (rows d') (row_key p) = Some r \<and>
                same_row r (case row_at (rows d) (row_key p) of None \<Rightarrow> p | Some old \<Rightarrow> assign_columns cols p old)))) \<and>
     (\<forall>q cs d e d'. g_Delete G q cs d = (e, d') \<longrightarrow> blocks d' = blocks d \<and>
        rows d' = (if e = None then filter (\<lambda>r. \<not> where_all cs r) (rows d) else rows d))"

definition block_laws :: "('q, 'd) gorm \<Rightarrow> ('d \<Rightarrow> Peers list) \<Rightarrow> ('d \<Rightarrow> BlockList list) \<Rightarrow> bool" where
  "block_laws G rows blocks \<longleftrightarrow>
     (\<forall>q b d e d'. g_CreateBlock G q b d = (e, d') \<longrightarrow> rows d' = rows d \<and>
        block_key ` set (blocks d') = (if e = None then insert (block_key b) (block_key ` set (blocks d)) else block_key ` set (blocks d))) \<and>
     (\<forall>q t d bs. g_FindBlock G q t d = Inr bs \<longrightarrow> mset bs = mset (filter (\<lambda>b. bk_Type b = t) (blocks d)))"

definition db_laws :: "('q, 'd) gorm \<Rightarrow> ('d \<Rightarrow> Peers list) \<Rightarrow> ('d \<Rightarrow> BlockList list) \<Rightarrow> bool" where
  "db_laws G rows blocks \<longleftrightarrow> find_laws G rows \<and> save_laws G rows blocks \<and> block_laws G rows blocks"

section \<open>A table that keeps the promises\<close>

definition table_save :: "string list \<Rightarrow> Peers \<Rightarrow> Peers list \<Rightarrow> Peers list" where
  "table_save cols p rs =
     (if row_at rs (row_key p) = None then rs @ [p]
      else map (\<lambda>r. if row_key r = row_key p then assign_columns cols p r else r) rs)"

definition tableDB :: "(unit, Peers list \<times> BlockList list) gorm" where
  "tableDB = \<lparr>
     g_Find = (\<lambda>_ cs (rs, bs). Inr (filter (where_all cs) rs)),
     g_FindRandom = (\<lambda>_ cs n (rs, bs). Inr (take (nat n) (filter (where_all cs) rs))),
     g_Count = (\<lambda>_ cs (rs, bs). Inr (of_nat (length (filter (where_all cs) rs)))),
     g_CountInfoHash = (\<lambda>_ cs (rs, bs). Inr (of_nat (length (remdups (map e_InfoHash (filter (where_all cs) rs)))))),
     g_Save = (\<lambda>_ cols p (rs, bs). (None, table_save cols p rs, bs)),
     g_Delete = (\<lambda>_ cs (rs, bs). (None, filter (\<lambda>r. \<not> where_all cs r) rs, bs)),
     g_CreateBlock = (\<lambda>_ b (rs, bs). (None, rs, if block_key b \<in> block_key ` set bs then bs else bs @ [b])),
     g_FindBlock = (\<lambda>_ t (rs, bs). Inr (filter (\<lambda>b. bk_Type b = t) bs))\<rparr>"

lemma row_at_Some: "row_at rs k = Some r \<Longrightarrow> r \<in> set rs \<and> row_key r = k"
  unfolding row_at_def by (induction rs) (auto split: if_splits)

lemma row_at_None: "row_at rs k = None \<longleftrightarrow> k \<notin> row_key ` set rs"
  unfolding row_at_def by (induction rs) auto

lemma row_at_unique: "unique_rows rs \<Longrightarrow> r \<in> set rs \<Longrightarrow> row_at rs (row_key r) = Some r"
  unfolding row_at_def unique_rows_def by (induction rs) (auto simp: image_iff)

lemma row_at_iff: "unique_rows rs \<Longrightarrow> row_at rs k = Some r \<longleftrightarrow> r \<in> set rs \<and> row_key r = k"
  using row_at_Some row_at_unique by blast

lemma row_key_assign_column [simp]: "row_key (assign_column new old col) = row_key old"
  by (simp add: assign_column_def row_key_def)

lemma row_key_assign [simp]: "row_key (assign_columns cols new old) = row_key old"
  unfolding assign_columns_def by (induction cols arbitrary: old) simp_all

lemma same_row_refl [simp]: "same_row r r"
  by (simp add: same_row_def)

lemma table_save_key: "unique_rows rs \<Longrightarrow> unique_rows (table_save cols p rs)"
  by (auto simp: table_save_def unique_rows_def row_at_None comp_def if_distrib cong: if_cong)

lemma table_save_at:
  "row_at (table_save cols p rs) k =
     (if k = row_key p then Some (case row_at rs (row_key p) of None \<Rightarrow> p | Some old \<Rightarrow> assign_columns cols p old) else row_at rs k)"
proof (cases "row_at rs (row_key p)")
  case None
  have "row_at (rs @ [p]) k = (case row_at rs k of None \<Rightarrow> if k = row_key p then Some p else None | Some r \<Rightarrow> Some r)"
    unfolding row_at_def by (induction rs) auto
  with None show ?thesis by (auto simp: table_save_def split: option.split)
next
  case (Some old)
  have "row_at (map (\<lambda>r. if row_key r = row_key p then assign_columns cols p r else r) rs) k =
      map_option (\<lambda>r. if row_key r = row_key p then assign_columns cols p r else r) (row_at rs k)"
    unfolding row_at_def by (induction rs) auto
  with Some show ?thesis by (cases "row_at rs k") (auto simp: table_save_def dest: row_at_Some)
qed

lemma tableDB_laws: "db_laws tableDB fst snd"
proof -
  have rest: "\<exists>rest. mset (take n xs @ rest) = mset xs" for n and xs :: "Peers list"
    by (rule exI [of _ "drop n xs"]) (simp only: append_take_drop_id)
  have "length (remdups xs) = card (set xs)" for xs :: "string list" by (simp add: length_remdups_card_conv)
  then have "find_laws tableDB fst"
    unfolding find_laws_def tableDB_def using rest
    by (simp add: min.commute del: mset_append mset_filter set_filter)
  moreover have "save_laws tableDB fst snd"
    by (auto simp: save_laws_def tableDB_def table_save_key table_save_at)
  moreover have "block_laws tableDB fst snd" by (auto simp: block_laws_def tableDB_def)
  ultimately show ?thesis by (simp add: db_laws_def)
qed

section \<open>The table as a map of swarms\<close>

definition db_view :: "Peers list \<Rightarrow> string \<Rightarrow> string \<rightharpoonup> Peer" where
  "db_view rs ih pid = map_option DBToCommon (row_at rs (hex_of ih, hex_of pid))"

text \<open>The rows that the code has written: the keys are hexadecimal, and each is there once.\<close>

definition rows_ok :: "Peers list \<Rightarrow> bool" where
  "rows_ok rs \<longleftrightarrow> unique_rows rs \<and> (\<forall>r \<in> set rs. \<exists>ih pid. row_key r = (hex_of ih, hex_of pid))"

lemma hex_of_inject [simp]: "hex_of a = hex_of b \<longleftrightarrow> a = b"
  unfolding hex_of_def by (metis hex_encode_inject string_bytes_inverse)

lemma hex_of_decode [simp]: "UnsafeBytesToString (fst (hex_DecodeString (hex_of s))) = s"
  by (simp add: hex_of_def)

lemma rows_ok_unique: "rows_ok rs \<Longrightarrow> unique_rows rs"
  by (simp add: rows_ok_def)

lemma p_ID_row: "row_key r = (hex_of ih, hex_of pid) \<Longrightarrow> p_ID (DBToCommon r) = pid"
  by (simp add: DBToCommon_def Let_def row_key_def)

lemma rows_ok_id:
  assumes "rows_ok rs" and "r \<in> set rs"
  shows "e_PeerID r = hex_of (p_ID (DBToCommon r))"
proof -
  from assms obtain ih pid where k: "row_key r = (hex_of ih, hex_of pid)" by (auto simp: rows_ok_def)
  then show ?thesis using p_ID_row [OF k] by (simp add: row_key_def)
qed

lemma db_view_iff:
  assumes "rows_ok rs"
  shows "db_view rs ih pid = Some p \<longleftrightarrow> (\<exists>r \<in> set rs. e_InfoHash r = hex_of ih \<and> DBToCommon r = p \<and> p_ID p = pid)"
proof
  assume "db_view rs ih pid = Some p"
  then obtain r where r: "row_at rs (hex_of ih, hex_of pid) = Some r" "p = DBToCommon r" by (auto simp: db_view_def)
  then show "\<exists>r \<in> set rs. e_InfoHash r = hex_of ih \<and> DBToCommon r = p \<and> p_ID p = pid"
    using row_at_Some [OF r(1)] p_ID_row by (auto simp: row_key_def)
next
  assume "\<exists>r \<in> set rs. e_InfoHash r = hex_of ih \<and> DBToCommon r = p \<and> p_ID p = pid"
  then obtain r where r: "r \<in> set rs" "e_InfoHash r = hex_of ih" "DBToCommon r = p" "p_ID p = pid" by blast
  then have "row_key r = (hex_of ih, hex_of pid)" using rows_ok_id [OF assms r(1)] by (simp add: row_key_def)
  with row_at_unique [OF rows_ok_unique [OF assms] r(1)] r(3) show "db_view rs ih pid = Some p" by (simp add: db_view_def)
qed

lemma db_query:
  assumes ok: "rows_ok rs"
    and Q: "\<And>r. r \<in> set rs \<Longrightarrow> e_InfoHash r = hex_of ih \<Longrightarrow> where_all cs r \<longleftrightarrow> Q (DBToCommon r)"
  defines "xs \<equiv> filter (where_all (InfoHashIs (hex_of ih) # cs)) rs"
  shows "DBToCommon ` set xs = {p \<in> ran (db_view rs ih). Q p}" and "distinct (map p_ID (map DBToCommon xs))"
    and "length xs = card {p \<in> ran (db_view rs ih). Q p}"
proof -
  have mem: "r \<in> set xs \<longleftrightarrow> r \<in> set rs \<and> e_InfoHash r = hex_of ih \<and> Q (DBToCommon r)" for r
    using Q by (auto simp: xs_def)
  show set: "DBToCommon ` set xs = {p \<in> ran (db_view rs ih). Q p}"
    by (auto simp: ran_def db_view_iff [OF ok] mem) blast
  have inj: "inj_on (p_ID \<circ> DBToCommon) (set xs)"
  proof (rule inj_onI)
    fix r r' assume r: "r \<in> set xs" "r' \<in> set xs" "(p_ID \<circ> DBToCommon) r = (p_ID \<circ> DBToCommon) r'"
    then have in_rs: "r \<in> set rs" "r' \<in> set rs" and h: "e_InfoHash r = hex_of ih" "e_InfoHash r' = hex_of ih" by (simp_all add: mem)
    have "e_PeerID r = hex_of (p_ID (DBToCommon r))" by (rule rows_ok_id [OF ok in_rs(1)])
    also have "\<dots> = hex_of (p_ID (DBToCommon r'))" using r(3) by simp
    also have "\<dots> = e_PeerID r'" by (rule rows_ok_id [OF ok in_rs(2), symmetric])
    finally have "row_key r = row_key r'" by (simp only: row_key_def h)
    then have "Some r = Some r'"
      by (metis row_at_unique [OF rows_ok_unique [OF ok] in_rs(1)] row_at_unique [OF rows_ok_unique [OF ok] in_rs(2)])
    then show "r = r'" by (rule option.inject [THEN iffD1])
  qed
  have d: "distinct xs" using rows_ok_unique [OF ok] by (simp add: xs_def unique_rows_def distinct_map)
  with inj show "distinct (map p_ID (map DBToCommon xs))" by (simp add: distinct_map)
  have "card (DBToCommon ` set xs) = length xs"
    using inj_on_imageI2 [OF inj] d by (simp add: card_image distinct_card)
  then show "length xs = card {p \<in> ran (db_view rs ih). Q p}" by (simp add: set)
qed

section \<open>Saving a peer\<close>

lemma CommonToDB_key [simp]: "row_key (CommonToDB now ih p) = (hex_of ih, hex_of (p_ID p))"
  by (simp add: row_key_def CommonToDB_def)

lemma DB_roundtrip: "DBToCommon (CommonToDB now ih p) = p\<lparr>p_Conn := None\<rparr>"
  by (simp add: DBToCommon_def CommonToDB_def Let_def)

text \<open>What is kept of a row on a conflict: its source and its type, which are not among the assigned columns.\<close>

definition saved_peer :: "Peer option \<Rightarrow> Peer \<Rightarrow> Peer" where
  "saved_peer old p = (case old of None \<Rightarrow> p | Some o' \<Rightarrow> p\<lparr>p_Type := p_Type o', p_Source := p_Source o'\<rparr>)"

definition close_peer :: "Peer \<Rightarrow> Peer \<Rightarrow> bool" where
  "close_peer p p' \<longleftrightarrow> p\<lparr>p_LastSeen := 0\<rparr> = p'\<lparr>p_LastSeen := 0\<rparr> \<and> \<bar>p_LastSeen p - p_LastSeen p'\<bar> < 1000000000"

lemma same_row_close: "same_row r r' \<Longrightarrow> close_peer (DBToCommon r) (DBToCommon r')"
  by (cases r, cases r') (simp add: same_row_def close_peer_def DBToCommon_def Let_def)

lemma DBToCommon_assign:
  "row_key old = row_key (CommonToDB now ih p) \<Longrightarrow>
   DBToCommon (assign_columns saveColumns (CommonToDB now ih p) old) = saved_peer (Some (DBToCommon old)) (p\<lparr>p_Conn := None\<rparr>)"
  by (cases old) (simp add: assign_columns_def saveColumns_def assign_column_def DBToCommon_def CommonToDB_def Let_def saved_peer_def row_key_def)

lemma save_law:
  assumes "db_laws G rows blocks" and "unique_rows (rows d)" and "g_Save G q cols p d = (e, d')"
  shows "blocks d' = blocks d \<and> unique_rows (rows d') \<and>
    (case e of Some _ \<Rightarrow> rows d' = rows d
     | None \<Rightarrow> e_ID p = 0 \<longrightarrow>
         (\<forall>k. k \<noteq> row_key p \<longrightarrow> row_at (rows d') k = row_at (rows d) k) \<and>
         (\<exists>r. row_at (rows d') (row_key p) = Some r \<and>
            same_row r (case row_at (rows d) (row_key p) of None \<Rightarrow> p | Some old \<Rightarrow> assign_columns cols p old)))"
  using assms unfolding db_laws_def save_laws_def by blast

lemma SavePeer_spec:
  assumes laws: "db_laws G rows blocks" and ok: "rows_ok (rows d)" and sv: "SavePeer G q (CommonToDB now ih p) d = (e, d')"
    and conn: "p_Conn p = None"
  shows "rows_ok (rows d')" and "blocks d' = blocks d"
    and "ih' \<noteq> ih \<or> pid \<noteq> p_ID p \<Longrightarrow> db_view (rows d') ih' pid = db_view (rows d) ih' pid"
    and "e = None \<Longrightarrow> \<exists>p'. db_view (rows d') ih (p_ID p) = Some p' \<and> close_peer p' (saved_peer (db_view (rows d) ih (p_ID p)) p)"
    and "e \<noteq> None \<Longrightarrow> rows d' = rows d"
proof -
  let ?p = "CommonToDB now ih p" and ?k = "(hex_of ih, hex_of (p_ID p))"
  have gs: "g_Save G q saveColumns ?p d = (e, d')" using sv by (simp add: SavePeer_def)
  have law: "blocks d' = blocks d \<and> unique_rows (rows d') \<and>
      (case e of Some _ \<Rightarrow> rows d' = rows d
       | None \<Rightarrow> (\<forall>k. k \<noteq> ?k \<longrightarrow> row_at (rows d') k = row_at (rows d) k) \<and>
           (\<exists>r. row_at (rows d') ?k = Some r \<and>
              same_row r (case row_at (rows d) ?k of None \<Rightarrow> ?p | Some old \<Rightarrow> assign_columns saveColumns ?p old)))"
  proof -
    have id: "e_ID ?p = 0" by (simp add: CommonToDB_def)
    from save_law [OF laws rows_ok_unique [OF ok] gs] show ?thesis by (simp only: id CommonToDB_key simp_thms)
  qed
  then show bl: "blocks d' = blocks d" by simp
  show fail: "rows d' = rows d" if "e \<noteq> None" using law that by (auto split: option.splits)
  have other: "row_at (rows d') k = row_at (rows d) k" if "k \<noteq> ?k" for k
    using law that by (cases e) (simp_all del: split_paired_All)
  show "db_view (rows d') ih' pid = db_view (rows d) ih' pid" if "ih' \<noteq> ih \<or> pid \<noteq> p_ID p"
    unfolding db_view_def by (subst other) (use that in auto)
  show "\<exists>p'. db_view (rows d') ih (p_ID p) = Some p' \<and> close_peer p' (saved_peer (db_view (rows d) ih (p_ID p)) p)" if "e = None"
  proof -
    from law that obtain r where r: "row_at (rows d') ?k = Some r"
      "same_row r (case row_at (rows d) ?k of None \<Rightarrow> ?p | Some old \<Rightarrow> assign_columns saveColumns ?p old)" by auto
    have "DBToCommon (case row_at (rows d) ?k of None \<Rightarrow> ?p | Some old \<Rightarrow> assign_columns saveColumns ?p old) =
        saved_peer (db_view (rows d) ih (p_ID p)) p"
      using row_at_Some [of "rows d" ?k] conn
      by (auto simp: db_view_def DB_roundtrip DBToCommon_assign saved_peer_def split: option.split)
    with same_row_close [OF r(2)] r(1) show ?thesis by (simp add: db_view_def)
  qed
  show "rows_ok (rows d')"
  proof -
    have u: "unique_rows (rows d')" using law by simp
    have "\<exists>ih pid. row_key r = (hex_of ih, hex_of pid)" if r: "r \<in> set (rows d')" for r
    proof (cases "row_key r = ?k")
      case False
      with other row_at_unique [OF u r] have "row_at (rows d) (row_key r) = Some r" by simp
      with ok show ?thesis by (auto simp: rows_ok_def dest: row_at_Some)
    qed blast
    with u show ?thesis by (simp add: rows_ok_def)
  qed
qed

section \<open>Announces\<close>

definition db_eligible :: "gotime \<Rightarrow> AnnounceRequest \<Rightarrow> Peer \<Rightarrow> bool" where
  "db_eligible valid req p \<longleftrightarrow> p_ID p \<noteq> r_PeerID req \<and> valid < p_LastSeen p \<and> p_Event p \<noteq> PeerEvent_Stopped \<and> p_Type p = r_Type req"

lemma DBToCommon_simps [simp]:
  "p_LastSeen (DBToCommon r) = e_LastSeen r" "p_Event (DBToCommon r) = e_Event r" "p_Type (DBToCommon r) = e_Type r"
  "p_Left (DBToCommon r) = e_Left r"
  by (simp_all add: DBToCommon_def Let_def)

lemma PickPeers_spec:
  assumes laws: "db_laws G rows blocks" and ok: "rows_ok (rows d)" and n: "0 \<le> r_NumWant req"
    and pick: "PickPeers G cfg now q (hex_of (r_PeerID req)) (r_InfoHash req) (r_NumWant req) (r_Type req) d = Inr ps"
  defines "E \<equiv> {p \<in> ran (db_view (rows d) (r_InfoHash req)). db_eligible (expireTime cfg now) req p}"
  shows "DBToCommon ` set ps \<subseteq> E" and "distinct (map p_ID (map DBToCommon ps))"
    and "length ps = min (nat (r_NumWant req)) (card E)"
proof -
  let ?cs = "[PeerIdIsNot (hex_of (r_PeerID req)), SeenAfter (expireTime cfg now), EventIsNot PeerEvent_Stopped, TypeIs (r_Type req)]"
  let ?xs = "filter (where_all (InfoHashIs (hex_of (r_InfoHash req)) # ?cs)) (rows d)"
  have Q: "where_all ?cs r \<longleftrightarrow> db_eligible (expireTime cfg now) req (DBToCommon r)"
    if "r \<in> set (rows d)" "e_InfoHash r = hex_of (r_InfoHash req)" for r
    using rows_ok_id [OF ok that(1)] by (auto simp: db_eligible_def)
  note q = db_query [where ih = "r_InfoHash req", OF ok Q, folded E_def]
  have "g_FindRandom G q (InfoHashIs (hex_of (r_InfoHash req)) # ?cs) (r_NumWant req) d = Inr ps"
    using pick by (simp add: PickPeers_def)
  with laws n obtain rest where len: "length ps = min (nat (r_NumWant req)) (length ?xs)" and ms: "mset (ps @ rest) = mset ?xs"
    unfolding db_laws_def find_laws_def by blast
  have "set ps \<subseteq> set ?xs" using mset_eq_setD [OF ms] by auto
  then have "DBToCommon ` set ps \<subseteq> DBToCommon ` set ?xs" by (rule image_mono)
  also have "\<dots> = E" by (rule q(1))
  finally show "DBToCommon ` set ps \<subseteq> E" .
  have "mset (map p_ID (map DBToCommon (ps @ rest))) = mset (map p_ID (map DBToCommon ?xs))"
    using ms by (simp only: mset_map)
  moreover have "distinct (map p_ID (map DBToCommon ?xs))" by (rule q(2))
  ultimately have "distinct (map p_ID (map DBToCommon (ps @ rest)))" using mset_eq_imp_distinct_iff by blast
  then show "distinct (map p_ID (map DBToCommon ps))" by simp
  show "length ps = min (nat (r_NumWant req)) (card E)" using len q(3) by simp
qed

text \<open>The announcing peer's own row does not matter for the answer.\<close>

lemma db_eligible_other:
  assumes "\<And>pid. pid \<noteq> r_PeerID req \<Longrightarrow> v' pid = v pid"
    and "\<And>pid p. v pid = Some p \<Longrightarrow> p_ID p = pid" and "\<And>pid p. v' pid = Some p \<Longrightarrow> p_ID p = pid"
  shows "{p \<in> ran v'. db_eligible t req p} = {p \<in> ran v. db_eligible t req p}"
proof -
  have "v' pid = Some p \<and> db_eligible t req p \<longleftrightarrow> v pid = Some p \<and> db_eligible t req p" for pid p
    using assms by (cases "pid = r_PeerID req") (auto simp: db_eligible_def)
  then show ?thesis unfolding ran_def by blast
qed

lemma db_view_id: "rows_ok rs \<Longrightarrow> db_view rs ih pid = Some p \<Longrightarrow> p_ID p = pid"
  by (auto simp: db_view_iff)

lemma db_newPeer_simps [simp]: "p_ID (db_newPeer req now) = r_PeerID req" "p_Conn (db_newPeer req now) = None"
  by (simp_all add: db_newPeer_def newPeer_def)

lemma db_announce_spec:
  assumes laws: "db_laws G rows blocks" and ok: "rows_ok (rows (dbm_db m))" and n: "0 \<le> r_NumWant req"
    and h: "db_HandleAnnouncePeer G B cfg env req m = (Inr res, m')"
  defines "v \<equiv> db_view (rows (dbm_db m))" and "v' \<equiv> db_view (rows (dbm_db m'))"
  defines "E \<equiv> {p \<in> ran (v (r_InfoHash req)). db_eligible (expireTime cfg (de_time env 2)) req p}"
  shows "set res \<subseteq> E" and "distinct (map p_ID res)" and "length res = min (nat (r_NumWant req)) (card E)"
    and "rows_ok (rows (dbm_db m'))"
    and "ih \<noteq> r_InfoHash req \<or> pid \<noteq> r_PeerID req \<Longrightarrow> v' ih pid = v ih pid"
    and "m' = db_save G cfg env req (db_newPeer req (de_time env 0)) m"
proof -
  let ?peer = "db_newPeer req (de_time env 0)"
  let ?pick = "\<lambda>m. PickPeers G cfg (de_time env 2) (de_call env 1) (hex_of (r_PeerID req)) (r_InfoHash req) (r_NumWant req) (r_Type req) (dbm_db m)"
  show m': "m' = db_save G cfg env req ?peer m"
    using h by (auto simp: db_HandleAnnouncePeer_def Let_def split: if_splits sum.splits)
  obtain ps where pick: "?pick (if de_saveFirst env then m' else m) = Inr ps" and res: "res = map DBToCommon ps"
    using h by (auto simp: db_HandleAnnouncePeer_def Let_def m' split: if_splits sum.splits)
  have sv: "rows_ok (rows (dbm_db m')) \<and> (\<forall>ih pid. ih \<noteq> r_InfoHash req \<or> pid \<noteq> r_PeerID req \<longrightarrow> v' ih pid = v ih pid)"
  proof (cases "IsPeerConnectable cfg ?peer")
    case True
    let ?s = "SavePeer G (de_call env 0) (CommonToDB (de_time env 1) (r_InfoHash req) ?peer) (dbm_db m)"
    have "?s = (fst ?s, snd ?s)" by simp
    note s = SavePeer_spec [OF laws ok this]
    show ?thesis using s(1) s(3) True by (auto simp: v_def v'_def m' db_save_def)
  next
    case False
    with ok show ?thesis by (simp add: v_def v'_def m' db_save_def)
  qed
  then show "v' ih pid = v ih pid" if "ih \<noteq> r_InfoHash req \<or> pid \<noteq> r_PeerID req" using that by blast
  show "rows_ok (rows (dbm_db m'))" using sv by simp
  let ?d = "if de_saveFirst env then m' else m"
  have okd: "rows_ok (rows (dbm_db ?d))" using ok sv by simp
  have E: "{p \<in> ran (db_view (rows (dbm_db ?d)) (r_InfoHash req)). db_eligible (expireTime cfg (de_time env 2)) req p} = E"
    unfolding E_def by (rule db_eligible_other) (use sv ok okd in \<open>auto simp: v_def v'_def dest: db_view_id\<close>)
  note p = PickPeers_spec [OF laws okd n pick, unfolded E]
  show "set res \<subseteq> E" "distinct (map p_ID res)" "length res = min (nat (r_NumWant req)) (card E)"
    using p by (simp_all add: res)
qed

section \<open>Counting\<close>

lemma db_count:
  assumes laws: "db_laws G rows blocks" and ok: "rows_ok (rows d)" and small: "length (rows d) < 2 ^ 63"
    and c: "g_Count G q (InfoHashIs (hex_of ih) # cs) d = Inr k"
    and Q: "\<And>r. r \<in> set (rows d) \<Longrightarrow> e_InfoHash r = hex_of ih \<Longrightarrow> where_all cs r \<longleftrightarrow> Q (DBToCommon r)"
  shows "sint k = int (card {p \<in> ran (db_view (rows d) ih). Q p})"
proof -
  let ?n = "length (filter (where_all (InfoHashIs (hex_of ih) # cs)) (rows d))"
  have k: "k = of_nat ?n" using laws c unfolding db_laws_def find_laws_def by blast
  have "?n < 2 ^ 63" using small length_filter_le [of "where_all (InfoHashIs (hex_of ih) # cs)" "rows d"] by linarith
  then have "sint k = int ?n" using sint_of_int64 [of "int ?n"] by (simp add: k)
  then show ?thesis using db_query(3) [OF ok Q] by simp
qed

lemma db_finite: "rows_ok rs \<Longrightarrow> finite (ran (db_view rs ih))"
  by (rule finite_subset [of _ "DBToCommon ` set rs"]) (auto simp: ran_def db_view_iff)

section \<open>Bans\<close>

lemma create_block_law:
  assumes "db_laws G rows blocks" and "g_CreateBlock G q b d = (e, d')"
  shows "rows d' = rows d"
    and "block_key ` set (blocks d') = (if e = None then insert (block_key b) (block_key ` set (blocks d)) else block_key ` set (blocks d))"
  using assms unfolding db_laws_def block_laws_def by blast+

lemma find_block_law:
  assumes "db_laws G rows blocks" and "g_FindBlock G q t d = Inr bs"
  shows "set bs = {b \<in> set (blocks d). bk_Type b = t}"
proof -
  have "mset bs = mset (filter (\<lambda>b. bk_Type b = t) (blocks d))" using assms unfolding db_laws_def block_laws_def by blast
  from mset_eq_setD [OF this] show ?thesis by auto
qed

lemma add_targets_test:
  assumes "bloom_laws B" and "b \<in> set bs" and "bk_Target b = hex_of target"
  shows "bl_Test B (add_targets B bs f) (UnsafeStringToBytes target)"
  unfolding add_targets_def
  by (rule foldl_Add_test [OF assms(1)]) (use assms(2,3) in \<open>auto simp: hex_of_def image_iff intro!: bexI [of _ b]\<close>)

lemma restored_bans:
  assumes laws: "db_laws G rows blocks" and B: "bloom_laws B"
    and g: "\<And>i. i < 2 \<Longrightarrow> \<not> isl (g_FindBlock G (de_call env i) (of_nat i) d)"
  shows "(BlockTypeInfoHash, hex_of t) \<in> block_key ` set (blocks d) \<Longrightarrow>
      bl_Test B (dbm_banInfoHash (NewDBManager G B env d)) (UnsafeStringToBytes t)"
    and "(BlockTypePeerID, hex_of t) \<in> block_key ` set (blocks d) \<Longrightarrow>
      bl_Test B (dbm_banPeerId (NewDBManager G B env d)) (UnsafeStringToBytes t)"
proof -
  obtain hs ps where hs: "g_FindBlock G (de_call env 0) BlockTypeInfoHash d = Inr hs"
    and ps: "g_FindBlock G (de_call env 1) BlockTypePeerID d = Inr ps"
    using g [of 0] g [of 1] by (auto simp: BlockTypeInfoHash_def BlockTypePeerID_def isl_def split: sum.splits) (metis sum.exhaust)
  note sets = find_block_law [OF laws hs] find_block_law [OF laws ps]
  show "bl_Test B (dbm_banInfoHash (NewDBManager G B env d)) (UnsafeStringToBytes t)"
    if "(BlockTypeInfoHash, hex_of t) \<in> block_key ` set (blocks d)"
  proof -
    from that obtain b where "b \<in> set (blocks d)" "block_key b = (BlockTypeInfoHash, hex_of t)" by force
    then have "b \<in> set hs" "bk_Target b = hex_of t" by (simp_all add: sets block_key_def)
    then show ?thesis
      by (simp add: NewDBManager_def restoreBlockList_def GetBlockList_def hs ps Let_def add_targets_test [OF B] del: One_nat_def)
  qed
  show "bl_Test B (dbm_banPeerId (NewDBManager G B env d)) (UnsafeStringToBytes t)"
    if "(BlockTypePeerID, hex_of t) \<in> block_key ` set (blocks d)"
  proof -
    from that obtain b where "b \<in> set (blocks d)" "block_key b = (BlockTypePeerID, hex_of t)" by force
    then have "b \<in> set ps" "bk_Target b = hex_of t" by (simp_all add: sets block_key_def)
    then show ?thesis
      by (simp add: NewDBManager_def restoreBlockList_def GetBlockList_def hs ps Let_def add_targets_test [OF B] del: One_nat_def)
  qed
qed

end
