(* ===== verification/Database_Props.thy ===== *)
theory Database_Props
  imports Database_Correct Mux_Props
begin

text \<open>
  The properties of the database mode, for every database that keeps the promises of \<^const>\<open>db_laws\<close>; the witnesses
  use the table \<^const>\<open>tableDB\<close>.
\<close>

section \<open>Announces\<close>


definition demoDbEnv :: "bool \<Rightarrow> int \<Rightarrow> unit db_env" where
  "demoDbEnv first secs = \<lparr>de_time = (\<lambda>_. secs * 1000000000), de_call = (\<lambda>_. ()), de_saveFirst = first\<rparr>"

definition emptyDb :: "(bytes list, Peers list \<times> BlockList list) DBManager" where
  "emptyDb = NewDBManager tableDB exactBloom (demoDbEnv True 0) ([], [])"

definition oneDb :: "(bytes list, Peers list \<times> BlockList list) DBManager" where
  "oneDb = snd (db_HandleAnnouncePeer tableDB exactBloom demoCfg (demoDbEnv True 0) (demoReq ''A'' ''started'') emptyDb)"

lemma emptyDb_rows: "fst (dbm_db emptyDb) = []"
  by code_simp

lemma oneDb_rows: "rows_ok (fst (dbm_db oneDb))"
proof -
  have "db_HandleAnnouncePeer tableDB exactBloom demoCfg (demoDbEnv True 0) (demoReq ''A'' ''started'') emptyDb = (Inr [], oneDb)"
  proof -
    have "fst (db_HandleAnnouncePeer tableDB exactBloom demoCfg (demoDbEnv True 0) (demoReq ''A'' ''started'') emptyDb) = Inr []"
      by code_simp
    then show ?thesis by (simp add: oneDb_def prod_eq_iff)
  qed
  then show ?thesis
    by (rule db_announce_spec(4) [OF tableDB_laws, rotated 2]) (simp_all add: emptyDb_rows rows_ok_def unique_rows_def)
qed


section \<open>Scrapes\<close>

text \<open>
  A scrape in database mode counts the rows of the torrent exactly: complete and incomplete are the peers seen within the
  TTL with nothing and with something left, seeders the complete ones that have not stopped, downloaded all that
  reported completion. When the clock readings coincide, complete and incomplete add up to the live peers.
\<close>

theorem db_scrape_counts:
  assumes "db_laws G rows blocks" and "rows_ok (rows (dbm_db m))" and "length (rows (dbm_db m)) < 2 ^ 63"
    and "db_Scrape G cfg env ih m = Inr f"
  shows "let S = ran (db_view (rows (dbm_db m)) ih); live = (\<lambda>n p. expireTime cfg (de_time env n) < p_LastSeen p) in
    sf_Complete f = int (card {p \<in> S. live 0 p \<and> p_Left p = 0}) \<and>
    sf_Seeder f = int (card {p \<in> S. live 1 p \<and> p_Left p = 0 \<and> p_Event p \<noteq> PeerEvent_Stopped}) \<and>
    sf_Incomplete f = int (card {p \<in> S. live 2 p \<and> p_Left p \<noteq> 0}) \<and>
    sf_Downloaded f = int (card {p \<in> S. p_Event p = PeerEvent_Completed}) \<and>
    (de_time env 0 = de_time env 2 \<longrightarrow> sf_Complete f + sf_Incomplete f = int (card {p \<in> S. live 0 p}))"
proof -
  let ?S = "ran (db_view (rows (dbm_db m)) ih)" and ?live = "\<lambda>n p. expireTime cfg (de_time env n) < p_LastSeen p"
  obtain c s d i where q:
    "g_Count G (de_call env 0) [InfoHashIs (hex_of ih), SeenAfter (expireTime cfg (de_time env 0)), LeftIs 0] (dbm_db m) = Inr c"
    "g_Count G (de_call env 1) [InfoHashIs (hex_of ih), SeenAfter (expireTime cfg (de_time env 1)), LeftIs 0, EventIsNot 2] (dbm_db m) = Inr s"
    "g_Count G (de_call env 2) [InfoHashIs (hex_of ih), EventIs 3] (dbm_db m) = Inr d"
    "g_Count G (de_call env 3) [InfoHashIs (hex_of ih), SeenAfter (expireTime cfg (de_time env 2)), LeftPositive] (dbm_db m) = Inr i"
    and f: "f = \<lparr>sf_Seeder = sint s, sf_Complete = sint c, sf_Incomplete = sint i, sf_Downloaded = sint d\<rparr>"
    using assms(4) by (auto simp: db_Scrape_def Let_def GetCompleteCount_def GetSeederCount_def GetDownloadedCount_def
        GetInCompleteCount_def split: sum.splits)
  note n = db_count [OF assms(1-3)]
  have c: "sint c = int (card {p \<in> ?S. ?live 0 p \<and> p_Left p = 0})" by (rule n [OF q(1)]) simp
  have s: "sint s = int (card {p \<in> ?S. ?live 1 p \<and> p_Left p = 0 \<and> p_Event p \<noteq> PeerEvent_Stopped})"
    by (rule n [OF q(2)]) (simp add: PeerEvent_defs)
  have d: "sint d = int (card {p \<in> ?S. p_Event p = PeerEvent_Completed})" by (rule n [OF q(3)]) (simp add: PeerEvent_defs)
  have i: "sint i = int (card {p \<in> ?S. ?live 2 p \<and> p_Left p \<noteq> 0})" by (rule n [OF q(4)]) (simp add: word_neq_0_conv)
  have sum: "int (card {p \<in> ?S. ?live n p \<and> p_Left p = 0}) + int (card {p \<in> ?S. ?live n p \<and> p_Left p \<noteq> 0}) = int (card {p \<in> ?S. ?live n p})" for n
  proof -
    have "finite ?S" by (rule db_finite [OF assms(2)])
    then have "card ({p \<in> ?S. ?live n p \<and> p_Left p = 0} \<union> {p \<in> ?S. ?live n p \<and> p_Left p \<noteq> 0}) =
        card {p \<in> ?S. ?live n p \<and> p_Left p = 0} + card {p \<in> ?S. ?live n p \<and> p_Left p \<noteq> 0}"
      by (intro card_Un_disjoint) auto
    moreover have "{p \<in> ?S. ?live n p \<and> p_Left p = 0} \<union> {p \<in> ?S. ?live n p \<and> p_Left p \<noteq> 0} = {p \<in> ?S. ?live n p}" by blast
    ultimately show ?thesis by simp
  qed
  show ?thesis using sum [of 2] by (simp add: Let_def f c s d i)
qed

theorem db_scrape_counts_witness:
  "\<exists>f. db_Scrape tableDB demoCfg (demoDbEnv True 5) ''T'' oneDb = Inr f \<and> sf_Complete f + sf_Incomplete f =
     int (card {p \<in> ran (db_view (fst (dbm_db oneDb)) ''T''). expireTime demoCfg (de_time (demoDbEnv True 5) 0) < p_LastSeen p})"
proof -
  have len: "length (fst (dbm_db oneDb)) = 1" by code_simp
  have "case db_Scrape tableDB demoCfg (demoDbEnv True 5) ''T'' oneDb of Inl _ \<Rightarrow> False | Inr _ \<Rightarrow> True" by code_simp
  then obtain f where f: "db_Scrape tableDB demoCfg (demoDbEnv True 5) ''T'' oneDb = Inr f" by (auto split: sum.splits)
  from db_scrape_counts [OF tableDB_laws oneDb_rows _ f] len f show ?thesis by (simp add: Let_def demoDbEnv_def)
qed

section \<open>Bans\<close>



text \<open>
  Clearing the bans of info hashes in database mode clears those of peers instead: a banned info hash stays refused,
  while no peer is refused by its identifier any more; the table of bans is not touched.
\<close>

theorem db_clear_other:
  assumes "bloom_laws B" and "bl_Test B (dbm_banInfoHash m) (UnsafeStringToBytes (r_InfoHash req))"
  shows "db_HandleAnnouncePeer G B cfg env req (db_ClearBanInfoHash B m) = (Inl ''banned'', db_ClearBanInfoHash B m) \<and>
    (\<forall>pid. \<not> bl_Test B (dbm_banPeerId (db_ClearBanInfoHash B m)) pid) \<and> dbm_db (db_ClearBanInfoHash B m) = dbm_db m"
  using assms by (simp add: db_HandleAnnouncePeer_def db_ClearBanInfoHash_def bloom_laws_def)

theorem db_clear_other_witness:
  "fst (db_HandleAnnouncePeer tableDB exactBloom demoCfg (demoDbEnv True 9) (demoReq ''A'' ''started'')
     (db_ClearBanInfoHash exactBloom (snd (db_BanInfoHash tableDB exactBloom (demoDbEnv True 0) ''T'' oneDb)))) = Inl ''banned''"
proof -
  have "bl_Test exactBloom (dbm_banInfoHash (snd (db_BanInfoHash tableDB exactBloom (demoDbEnv True 0) ''T'' oneDb)))
      (UnsafeStringToBytes (r_InfoHash (demoReq ''A'' ''started'')))" by code_simp
  from db_clear_other [OF exactBloom_laws this, of tableDB demoCfg "demoDbEnv True 9"] show ?thesis by simp
qed

end
