(* ===== verification/Mux_Clean.thy ===== *)
theory Mux_Clean
  imports Persist_Correct
begin

text \<open>
  The cleaning run of the sharded manager: the shards share one heap of peer tables, a shard touches only its own,
  and together the shards clean every torrent as \<^const>\<open>clean_torrent\<close> says.
\<close>

definition no_expired_ws :: "Config \<Rightarrow> gotime \<Rightarrow> (string \<rightharpoonup> swarm) \<Rightarrow> bool" where
  "no_expired_ws cfg now v \<longleftrightarrow>
     (\<forall>ih sw k p. v ih = Some sw \<longrightarrow> sw k = Some p \<longrightarrow> expireTime cfg now > p_LastSeen p \<longrightarrow> \<not> websocket_peer p)"

definition mux_clean_torrent ::
  "('rm, 'pm) maps \<Rightarrow> Config \<Rightarrow> gotime \<Rightarrow> ('rm, 'pm, 'f, 'i) MuxLocalManager \<Rightarrow> string \<Rightarrow> swarm option" where
  "mux_clean_torrent D cfg now m ih = clean_torrent D cfg now (worker (shard_of (length (localList m)) ih) m) ih"

context local_maps
begin

section \<open>A shard touches its own tables only\<close>

lemma cleanUp_frame:
  assumes ok: "mok m" and p: "rootAt m ih = Some ptr"
    and ws: "\<And>k p. rview (heap m ptr) k = Some p \<Longrightarrow> expireTime cfg now > p_LastSeen p \<Longrightarrow> \<not> websocket_peer p"
    and cu: "cleanUp D cfg now ptr m = (n, m')"
  shows "ih' \<noteq> ih \<Longrightarrow> rootAt m' ih' = rootAt m ih'" and "ptr' \<noteq> ptr \<Longrightarrow> heap m' ptr' = heap m ptr'"
proof -
  have "(\<forall>ih'. ih' \<noteq> ih \<longrightarrow> rootAt m' ih' = rootAt m ih') \<and> (\<forall>ptr'. ptr' \<noteq> ptr \<longrightarrow> heap m' ptr' = heap m ptr')"
  proof (cases "cleaned_recently cfg now (heap m ptr)")
    case True
    then have "m' = m" using cu by (simp add: cleanUp_def cleaned_recently_def)
    then show ?thesis by simp
  next
    case False
    obtain r where "heap m' = (heap m)(ptr := r)"
      "rootAt m' = (if rview r = Map.empty then (rootAt m)(ih := None) else rootAt m)"
      by (rule cleanUp_spec [OF ok p False ws]) (auto simp: cu)
    then show ?thesis by auto
  qed
  then show "ih' \<noteq> ih \<Longrightarrow> rootAt m' ih' = rootAt m ih'" and "ptr' \<noteq> ptr \<Longrightarrow> heap m' ptr' = heap m ptr'" by auto
qed

lemma clean_loop_heap:
  assumes "mok m" and "distinct (map fst xs)" and "\<And>ih ptr. (ih, ptr) \<in> set xs \<Longrightarrow> rootAt m ih = Some ptr"
    and "\<And>ih ptr k p. (ih, ptr) \<in> set xs \<Longrightarrow> rview (heap m ptr) k = Some p \<Longrightarrow>
      expireTime cfg now > p_LastSeen p \<Longrightarrow> \<not> websocket_peer p"
    and "q \<notin> snd ` set xs"
  shows "heap (snd (foldl (\<lambda>(count, m) (key, ptr). (case cleanUp D cfg now ptr m of (n, m') \<Rightarrow> (count + n, m'))) (c, m) xs)) q = heap m q"
  using assms
proof (induction xs arbitrary: m c)
  case (Cons x xs)
  obtain ih0 ptr where x: "x = (ih0, ptr)" by (cases x)
  obtain n m' where cu: "cleanUp D cfg now ptr m = (n, m')" by (cases "cleanUp D cfg now ptr m")
  have p: "rootAt m ih0 = Some ptr" using Cons.prems(3) by (simp add: x)
  have ws: "\<not> websocket_peer r" if "rview (heap m ptr) k = Some r" "expireTime cfg now > p_LastSeen r" for k r
    by (rule Cons.prems(4) [of ih0 ptr, OF _ that]) (simp add: x)
  note fr = cleanUp_frame [OF Cons.prems(1) p ws cu]
  have ok': "mok m'" using shrinks_mok [OF cleanUp_shrinks Cons.prems(1), of cfg now ptr] by (simp add: cu)
  have at: "rootAt m' ih' = Some ptr' \<and> heap m' ptr' = heap m ptr'" if "(ih', ptr') \<in> set xs" for ih' ptr'
  proof -
    have "ih' \<noteq> ih0" using that Cons.prems(2) by (force simp: x)
    moreover have "rootAt m ih' = Some ptr'" using that Cons.prems(3) by simp
    moreover from this have "ptr' \<noteq> ptr" using \<open>ih' \<noteq> ih0\<close> rootAt_inject [OF Cons.prems(1) p] by blast
    ultimately show ?thesis using fr by simp
  qed
  have "heap (snd (foldl (\<lambda>(count, m) (key, ptr). (case cleanUp D cfg now ptr m of (n, m') \<Rightarrow> (count + n, m'))) (c + n, m') xs)) q = heap m' q"
    by (rule Cons.IH [OF ok']) (use Cons.prems(2,4,5) at in \<open>auto simp: x\<close>)
  moreover have "heap m' q = heap m q" using Cons.prems(5) fr(2) by (simp add: x)
  ultimately show ?case by (simp add: x cu)
qed simp

lemma Clean_frame:
  assumes ok: "mok m" and ws: "no_expired_ws cfg now (mgr_view D m)" and q: "\<And>ih. rootAt m ih \<noteq> Some q"
  shows "heap (snd (Clean D cfg now m)) q = heap m q"
proof -
  let ?xs = "sm_Range (rootOps D) (infoHashMap m)"
  have ri: "rinv (infoHashMap m)" using ok by (rule mok_rootD)
  have at: "rootAt m ih = Some ptr" if "(ih, ptr) \<in> set ?xs" for ih ptr using that by (simp add: R.set_Range [OF ri])
  have "Clean D cfg now m = foldl (\<lambda>(count, m) (key, ptr). (case cleanUp D cfg now ptr m of (n, m') \<Rightarrow> (count + n, m'))) (0, m) ?xs"
    unfolding Clean_def by (subst go_range_always) (auto simp: prod.case_eq_if intro!: foldl_cong)
  moreover have "heap (snd (foldl (\<lambda>(count, m) (key, ptr). (case cleanUp D cfg now ptr m of (n, m') \<Rightarrow> (count + n, m'))) (0, m) ?xs)) q = heap m q"
  proof (rule clean_loop_heap [OF ok R.Range_distinct [OF ri] at])
    show "\<not> websocket_peer p" if "(ih, ptr) \<in> set ?xs" "rview (heap m ptr) k = Some p"
      "expireTime cfg now > p_LastSeen p" for ih ptr k p
      using ws mgr_view_root [OF at [OF that(1)]] that(2,3) unfolding no_expired_ws_def by blast
    show "q \<notin> snd ` set ?xs" using at q by force
  qed
  ultimately show ?thesis by simp
qed

lemma Clean_keeps:
  assumes "mok m"
  shows "mok (snd (Clean D cfg now m))" and "nextRoot (snd (Clean D cfg now m)) = nextRoot m"
    and "rootAt (snd (Clean D cfg now m)) ih \<noteq> None \<Longrightarrow> rootAt m ih \<noteq> None"
proof -
  note sh = Clean_shrinks [of m cfg now]
  show "mok (snd (Clean D cfg now m))" by (rule shrinks_mok [OF sh assms])
  show "nextRoot (snd (Clean D cfg now m)) = nextRoot m" using sh by (simp add: shrinks_def)
  have "rootAt (snd (Clean D cfg now m)) \<subseteq>\<^sub>m rootAt m"
    using sh index_shrinks [of "infoHashMap m"] mok_rootD(2) [OF assms] by (simp add: shrinks_def)
  then show "rootAt (snd (Clean D cfg now m)) ih \<noteq> None \<Longrightarrow> rootAt m ih \<noteq> None"
    by (metis domIff map_le_implies_dom_le subsetD)
qed

section \<open>All shards\<close>

text \<open>An operation on a shard that touches only tables of that shard, and adds no torrent.\<close>

lemma put_worker_shard:
  assumes ok: "xok m" and i: "i < length (localList m)" and w: "mok w" and nr: "nextRoot w = mx_nextRoot m"
    and hp: "\<And>ptr. (\<And>ih. sm_Load (rootOps D) (localList m ! i) ih \<noteq> Some ptr) \<Longrightarrow> heap w ptr = mx_heap m ptr"
    and im: "\<And>ih. sm_Load (rootOps D) (infoHashMap w) ih \<noteq> None \<Longrightarrow> sm_Load (rootOps D) (localList m ! i) ih \<noteq> None"
  shows "xok (put_worker i w m)"
    and "mux_view D (put_worker i w m) ih = (if shard_of (length (localList m)) ih = i then mgr_view D w ih else mux_view D m ih)"
    and "j < length (localList m) \<Longrightarrow> j \<noteq> i \<Longrightarrow> sm_Load (rootOps D) (localList m ! j) ih = Some ptr \<Longrightarrow> heap w ptr = mx_heap m ptr"
proof -
  let ?n = "length (localList m)"
  have mk: "mok (worker j m)" and sh: "\<And>ih. sm_Load (rootOps D) (localList m ! j) ih \<noteq> None \<Longrightarrow> shard_of ?n ih = j" if "j < ?n" for j
    using ok that unfolding mux_ok_def by blast+
  have ptr: "ptr < mx_nextRoot m \<and> infoHash (mx_heap m ptr) = ih" if "j < ?n" "sm_Load (rootOps D) (localList m ! j) ih = Some ptr" for j ih ptr
    using mk [OF that(1)] that(2) by (simp add: mgr_ok_def)
  have same: "heap w ptr = mx_heap m ptr" if j: "j < ?n" "j \<noteq> i" and at: "sm_Load (rootOps D) (localList m ! j) ih = Some ptr" for j ih ptr
  proof (rule hp)
    fix ih' show "sm_Load (rootOps D) (localList m ! i) ih' \<noteq> Some ptr"
    proof
      assume at': "sm_Load (rootOps D) (localList m ! i) ih' = Some ptr"
      then have "ih' = ih" using ptr [OF i at'] ptr [OF j(1) at] by simp
      then show False using sh [OF i, of ih'] sh [OF j(1), of ih] at at' j(2) by simp
    qed
  qed
  then show "j < ?n \<Longrightarrow> j \<noteq> i \<Longrightarrow> sm_Load (rootOps D) (localList m ! j) ih = Some ptr \<Longrightarrow> heap w ptr = mx_heap m ptr" for j ih ptr .
  have other: "mok (worker j (put_worker i w m))" if j: "j < ?n" for j
  proof (cases "j = i")
    case True
    with w i show ?thesis by simp
  next
    case False
    have "infoHash (heap w p) = h \<and> p < nextRoot w" if "sm_Load (rootOps D) (localList m ! j) h = Some p" for h p
      using ptr [OF j that] same [OF j False that] nr by simp
    with mk [OF j] w False show ?thesis by (simp add: mgr_ok_def)
  qed
  show "xok (put_worker i w m)"
    unfolding mux_ok_def
  proof (intro conjI allI impI)
    show "localList (put_worker i w m) \<noteq> []" "length (localList (put_worker i w m)) < 2 ^ 64"
      using ok by (simp_all add: mux_ok_def)
    fix j assume "j < length (localList (put_worker i w m))"
    then have j: "j < ?n" by simp
    then show "mok (worker j (put_worker i w m))" by (rule other)
    fix h assume "sm_Load (rootOps D) (localList (put_worker i w m) ! j) h \<noteq> None"
    then show "shard_of (length (localList (put_worker i w m))) h = j"
      using sh [OF j, of h] im [of h] i by (cases "j = i") auto
  qed
  show "mux_view D (put_worker i w m) ih = (if shard_of ?n ih = i then mgr_view D w ih else mux_view D m ih)" for ih
  proof (cases "shard_of ?n ih = i")
    case True
    with i show ?thesis by (simp add: mux_view_def)
  next
    case False
    have j: "shard_of ?n ih < ?n" by (rule mux_ok_shard(1) [OF ok])
    show ?thesis
      using same [OF j False, of ih] False
      by (cases "sm_Load (rootOps D) (localList m ! shard_of ?n ih) ih") (auto simp: mux_view_def mgr_view_def)
  qed
qed

lemma clean_torrent_other:
  assumes "sm_Load (rootOps D) (infoHashMap m') ih = sm_Load (rootOps D) (infoHashMap m) ih"
    and "\<And>ptr. sm_Load (rootOps D) (infoHashMap m) ih = Some ptr \<Longrightarrow> heap m' ptr = heap m ptr"
  shows "clean_torrent D cfg now m' ih = clean_torrent D cfg now m ih"
  using assms by (auto simp: clean_torrent_def split: option.split)

lemma worker_no_expired:
  assumes ok: "xok m" and i: "i < length (localList m)" and "no_expired_ws cfg now (mux_view D m)"
  shows "no_expired_ws cfg now (mgr_view D (worker i m))"
proof -
  have "mux_view D m ih = Some sw" if "mgr_view D (worker i m) ih = Some sw" for ih sw
  proof -
    have "sm_Load (rootOps D) (localList m ! i) ih \<noteq> None" using that by (auto simp: mgr_view_def)
    then have "shard_of (length (localList m)) ih = i" using ok i unfolding mux_ok_def by blast
    with that show ?thesis by (simp add: mux_view_def)
  qed
  with assms(3) show ?thesis unfolding no_expired_ws_def by blast
qed

lemma mux_clean_loop:
  assumes "xok m" and "no_expired_ws cfg now (mux_view D m)" and "distinct js" and "set js \<subseteq> {..<length (localList m)}"
  shows "let m' = snd (foldl (\<lambda>(total, m) i. case Clean D cfg now (worker i m) of (n, w) \<Rightarrow> (total + n, put_worker i w m)) (c, m) js) in
    xok m' \<and> length (localList m') = length (localList m) \<and>
    (\<forall>ih. mux_view D m' ih = (if shard_of (length (localList m)) ih \<in> set js then mux_clean_torrent D cfg now m ih else mux_view D m ih))"
  using assms
proof (induction js arbitrary: m c)
  case (Cons i js)
  let ?n = "length (localList m)" and ?w = "snd (Clean D cfg now (worker i m))"
  let ?m = "put_worker i ?w m"
  have i: "i < ?n" using Cons.prems(4) by simp
  have mi: "mok (worker i m)" using Cons.prems(1) i unfolding mux_ok_def by blast
  have nows: "no_expired_ws cfg now (mgr_view D (worker i m))" by (rule worker_no_expired [OF Cons.prems(1) i Cons.prems(2)])
  note k = Clean_keeps [OF mi, of cfg now]
  have hp: "heap ?w ptr = mx_heap m ptr" if "\<And>ih. sm_Load (rootOps D) (localList m ! i) ih \<noteq> Some ptr" for ptr
    using Clean_frame [OF mi nows] that by simp
  have im: "sm_Load (rootOps D) (localList m ! i) ih \<noteq> None" if "sm_Load (rootOps D) (infoHashMap ?w) ih \<noteq> None" for ih
    using k(3) [OF that] by simp
  have nr: "nextRoot ?w = mx_nextRoot m" using k(2) by simp
  note put = put_worker_shard [OF Cons.prems(1) i k(1) nr]
  have put1: "xok ?m" by (rule put(1)) (use hp im in blast)+
  have put3: "heap ?w ptr = mx_heap m ptr" if "j < ?n" "j \<noteq> i" "sm_Load (rootOps D) (localList m ! j) ih = Some ptr" for j ih ptr
    using hp im that by (rule put(3))
  have cl: "mgr_view D ?w = clean_torrent D cfg now (worker i m)"
    by (rule Clean_spec [OF mi]) (use nows in \<open>auto simp: no_expired_ws_def\<close>)
  have vw: "mux_view D ?m ih = (if shard_of ?n ih = i then mux_clean_torrent D cfg now m ih else mux_view D m ih)" for ih
  proof -
    have "mux_view D ?m ih = (if shard_of ?n ih = i then mgr_view D ?w ih else mux_view D m ih)"
      by (rule put(2)) (use hp im in blast)+
    then show ?thesis by (simp add: cl mux_clean_torrent_def)
  qed
  have sub: "clean_torrent D cfg now mm ih = Some sw \<Longrightarrow> \<exists>sw'. mgr_view D mm ih = Some sw' \<and> sw \<subseteq>\<^sub>m sw'" for mm ih sw
    by (auto simp: clean_torrent_def mgr_view_def live_def map_le_def Let_def split: option.splits if_splits)
  have nows': "no_expired_ws cfg now (mux_view D ?m)"
    unfolding no_expired_ws_def
  proof (intro allI impI)
    fix ih sw k p assume a: "mux_view D ?m ih = Some sw" "sw k = Some p" "expireTime cfg now > p_LastSeen p"
    obtain sw' where "mux_view D m ih = Some sw'" "sw' k = Some p"
    proof (cases "shard_of ?n ih = i")
      case True
      with a(1) vw have "clean_torrent D cfg now (worker i m) ih = Some sw" by (simp add: mux_clean_torrent_def)
      from sub [OF this] obtain sw' where "mgr_view D (worker i m) ih = Some sw'" "sw \<subseteq>\<^sub>m sw'" by blast
      with True a(2) that show thesis by (auto simp: mux_view_def map_le_def dom_def)
    next
      case False
      with a(1,2) vw that show thesis by simp
    qed
    with Cons.prems(2) a(3) show "\<not> websocket_peer p" unfolding no_expired_ws_def by blast
  qed
  have later: "mux_clean_torrent D cfg now ?m ih = mux_clean_torrent D cfg now m ih" if "shard_of ?n ih \<in> set js" for ih
  proof -
    have ne: "shard_of ?n ih \<noteq> i" and lt: "shard_of ?n ih < ?n" using that Cons.prems(3,4) by auto
    show ?thesis unfolding mux_clean_torrent_def
      by (subst clean_torrent_other) (use ne put3 [OF lt ne] in auto)
  qed
  have step: "foldl (\<lambda>(total, m) i. case Clean D cfg now (worker i m) of (n, w) \<Rightarrow> (total + n, put_worker i w m)) (c, m) (i # js) =
      foldl (\<lambda>(total, m) i. case Clean D cfg now (worker i m) of (n, w) \<Rightarrow> (total + n, put_worker i w m)) (c + fst (Clean D cfg now (worker i m)), ?m) js"
    by (simp add: prod.case_eq_if)
  have IH: "let m' = snd (foldl (\<lambda>(total, m) i. case Clean D cfg now (worker i m) of (n, w) \<Rightarrow> (total + n, put_worker i w m))
        (c + fst (Clean D cfg now (worker i m)), ?m) js) in
    xok m' \<and> length (localList m') = length (localList ?m) \<and>
    (\<forall>ih. mux_view D m' ih = (if shard_of (length (localList ?m)) ih \<in> set js then mux_clean_torrent D cfg now ?m ih else mux_view D ?m ih))"
    by (rule Cons.IH [OF put1 nows']) (use Cons.prems(3,4) in auto)
  show ?case unfolding step using IH later vw Cons.prems(3) by (auto simp: Let_def)
qed simp

lemma mux_Clean_spec:
  assumes "xok m" and "no_expired_ws cfg now (mux_view D m)"
  shows "xok (snd (mux_Clean D cfg now m))" and "mux_view D (snd (mux_Clean D cfg now m)) = mux_clean_torrent D cfg now m"
proof -
  have "let m' = snd (mux_Clean D cfg now m) in xok m' \<and> length (localList m') = length (localList m) \<and>
    (\<forall>ih. mux_view D m' ih = (if shard_of (length (localList m)) ih \<in> set [0..<length (localList m)] then mux_clean_torrent D cfg now m ih else mux_view D m ih))"
    unfolding mux_Clean_def by (rule mux_clean_loop [OF assms]) auto
  moreover have "shard_of (length (localList m)) ih < length (localList m)" for ih by (rule mux_ok_shard(1) [OF assms(1)])
  ultimately show "xok (snd (mux_Clean D cfg now m))" "mux_view D (snd (mux_Clean D cfg now m)) = mux_clean_torrent D cfg now m"
    by (simp_all add: Let_def fun_eq_iff)
qed

end

end
