(* ===== verification/Lifecycle.thy ===== *)
theory Lifecycle
  imports Mux_Clean Peer_Manager
begin

text \<open>
  The tasks around the managers: the events for the message queue (\<^verbatim>\<open>biz/services/producer\<close>), the interval tasks
  (\<^verbatim>\<open>biz/services/interval\<close>) and the start of the program (\<^verbatim>\<open>init.go\<close>, \<^verbatim>\<open>biz/services/peer/manager.go\<close>). The message
  pack encoder is a parameter.
\<close>

section \<open>Events\<close>

record event_ip =
  ei_ClientIP :: IP
  ei_ReportV4 :: IP
  ei_ReportV6 :: IP
  ei_ReportIP :: IP

record eventBody =
  eb_InfoHash :: string
  eb_IP :: event_ip
  eb_Port :: int
  eb_Left :: uint64
  eb_Uploaded :: uint64
  eb_Downloaded :: uint64
  eb_LastSeen :: int
  eb_UserAgent :: string
  eb_Event :: string

definition peer_event :: "string \<Rightarrow> Peer \<Rightarrow> eventBody" where
  "peer_event ih peer = \<lparr>
     eb_InfoHash = ih,
     eb_IP = \<lparr>ei_ClientIP = p_ClientIP peer, ei_ReportV4 = p_IPv4 peer, ei_ReportV6 = p_IPv6 peer, ei_ReportIP = p_IP peer\<rparr>,
     eb_Port = p_Port peer, eb_Left = p_Left peer, eb_Uploaded = p_Uploaded peer, eb_Downloaded = p_Downloaded peer,
     eb_LastSeen = time_Unix (p_LastSeen peer), eb_UserAgent = p_UserAgent peer, eb_Event = PeerEvent_String (p_Event peer)\<rparr>"

text \<open>The messages handed to the queue, with their topic; none when no producer was started.\<close>

definition SendPeerEvent :: "(eventBody \<Rightarrow> bytes) \<Rightarrow> Config \<Rightarrow> bool \<Rightarrow> string \<Rightarrow> Peer \<Rightarrow> (string \<times> bytes) list" where
  "SendPeerEvent marshal cfg started ih peer =
     (if \<not> started then [] else [(mq_Topic (c_RocketMq cfg), marshal (peer_event ih peer))])"

section \<open>Interval tasks\<close>

text \<open>A task returns the files it writes beside the state.\<close>

definition cleanInactivePeer :: "('e, 's) PeerManager \<Rightarrow> 'e \<Rightarrow> 's \<Rightarrow> (string \<times> bytes) list \<times> 's" where
  "cleanInactivePeer P e s = ([], snd (pm_Clean P e s))"

definition saveDB :: "('e, 's) PeerManager \<Rightarrow> 'e \<Rightarrow> 's \<Rightarrow> (string \<times> bytes) list \<times> 's" where
  "saveDB P e s = (pm_StoreToPersist P e s, s)"

definition printStatics :: "('e, 's) PeerManager \<Rightarrow> 'e \<Rightarrow> 's \<Rightarrow> (string \<times> bytes) list \<times> 's" where
  "printStatics P e s = (case pm_GetStatistic P e s of _ \<Rightarrow> ([], s))"

definition taskList :: "('e, 's) PeerManager \<Rightarrow> (nat \<Rightarrow> 'e) \<Rightarrow> ('s \<Rightarrow> (string \<times> bytes) list \<times> 's) list" where
  "taskList P env = [cleanInactivePeer P (env 0), printStatics P (env 1), saveDB P (env 2)]"

definition doIntervalTask ::
  "('e, 's) PeerManager \<Rightarrow> (nat \<Rightarrow> 'e) \<Rightarrow> bool \<times> 's \<Rightarrow> (string \<times> bytes) list \<times> bool \<times> 's" where
  "doIntervalTask P env st =
     (case st of (taskRunning, s) \<Rightarrow>
        if taskRunning then ([], taskRunning, s)
        else case foldl (\<lambda>(fs, s) task. case task s of (fs', s') \<Rightarrow> (fs @ fs', s')) ([], s) (taskList P env) of
          (fs, s) \<Rightarrow> (fs, False, s))"

text \<open>The ticker: one run after the other, each with its environment.\<close>

fun StartIntervalTask ::
  "('e, 's) PeerManager \<Rightarrow> (nat \<Rightarrow> 'e) list \<Rightarrow> bool \<times> 's \<Rightarrow> (string \<times> bytes) list list \<times> bool \<times> 's" where
  "StartIntervalTask P [] st = ([], st)"
| "StartIntervalTask P (env # ticks) st =
     (case doIntervalTask P env st of (fs, st) \<Rightarrow> (case StartIntervalTask P ticks st of (fss, st) \<Rightarrow> (fs # fss, st)))"

section \<open>Start\<close>

datatype init_step = InitProducer | InitCache | InitWSManager | InitPprof | InitMetrics | InitManager | InitUDPServer | InitRPCServer string

definition program_Init :: "Config \<Rightarrow> init_step list" where
  "program_Init cfg = (let t = c_Tracker cfg in
     (if t_EnableEventProducer t then [InitProducer] else []) @
     (if redis_Enable (c_Cache cfg) then [InitCache] else []) @
     (if ws_Enable (t_WSServer t) then [InitWSManager] else []) @
     [InitPprof, InitMetrics, InitManager] @
     (if udp_Enable (t_UDPServer t) then [InitUDPServer] else []) @
     (if rpc_EnableServer (t_RPC t) then [InitRPCServer (rpc_HostPorts (t_RPC t))] else []))"

text \<open>The in-memory manager starts empty and then loads its snapshot.\<close>

definition start_memory ::
  "('rm, 'pm) maps \<Rightarrow> Config \<Rightarrow> persist_codec \<Rightarrow> (string \<Rightarrow> ('f, 'i) BanManager result) \<Rightarrow> persist_file list \<Rightarrow>
   (('rm, 'pm, 'f, 'i) MuxLocalManager \<times> string list) result" where
  "start_memory D cfg C newBan files =
     (case NewMuxLocalManager D cfg newBan (mem_Shard (t_Memory (c_Tracker cfg))) of
        Inl e \<Rightarrow> Inl e
      | Inr m \<Rightarrow> LoadFromPersist C D cfg files m)"

end
