(* ===== verification/Lifecycle_Props.thy ===== *)
theory Lifecycle_Props
  imports Lifecycle Persist_Props
begin

text \<open>
  Recovery: what the interval tasks write is enough to start again with the peers that are still alive.
\<close>

section \<open>Cleaning all shards\<close>

text \<open>
  C16. A cleaning run of the sharded manager, as long as no websocket peer has expired: in every shard, each torrent that was not
  cleaned within the last time to live keeps exactly its live peers, one left with none is forgotten, and the
  torrents cleaned recently stay as they are; the shards keep their invariants.
\<close>

theorem mux_clean_exact:
  assumes "local_maps D rinv pinv" and "mux_ok D rinv pinv m" and "no_expired_ws cfg now (mux_view D m)"
  shows "mux_ok D rinv pinv (snd (mux_Clean D cfg now m)) \<and>
    mux_view D (snd (mux_Clean D cfg now m)) = mux_clean_torrent D cfg now m"
  using local_maps.mux_Clean_spec [OF assms] by simp

lemma storedMux_no_ws: "no_expired_ws cfg now (mux_view syncMaps storedMux)"
proof -
  have "p = storedPeer" if "mux_view syncMaps storedMux ih = Some sw" "sw k = Some p" for ih sw k p
  proof -
    have "peer_at (mux_view syncMaps storedMux) ih k = Some p" using that by (simp add: peer_at_def)
    then show ?thesis by (simp add: storedMux_ok(2) split: if_splits)
  qed
  moreover have "\<not> websocket_peer storedPeer"
    by (simp add: websocket_peer_def storedPeer_def demoPeer_def newPeer_def demoReq_def zeroRequest_def)
  ultimately show ?thesis unfolding no_expired_ws_def by blast
qed

theorem mux_clean_exact_witness:
  "mux_ok syncMaps map_ok map_ok (snd (mux_Clean syncMaps persistCfg 60000000000 storedMux)) \<and>
   mux_view syncMaps (snd (mux_Clean syncMaps persistCfg 60000000000 storedMux)) demoHash =
     mux_clean_torrent syncMaps persistCfg 60000000000 storedMux demoHash"
  using mux_clean_exact [OF synclocal.local_maps_axioms storedMux_ok(1) storedMux_no_ws] by simp

section \<open>Recovery\<close>

lemma fresh_not_expired:
  assumes "sane_ttl cfg" and "fresh_at cfg now p" and "t \<le> now"
  shows "\<not> expireTime cfg t > p_LastSeen p"
proof -
  let ?ttl = "sint (t_TTL (c_Tracker cfg)) * 1000000000"
  have d: "sint (duration_seconds (t_TTL (c_Tracker cfg))) = ?ttl"
    by (rule sint_duration_seconds) (use assms(1) in \<open>simp_all add: sane_ttl_def\<close>)
  have "now \<le> p_LastSeen p div 1000000000 * 1000000000 + ?ttl"
    using assms(2) by (simp add: fresh_at_def time_Add_def d of_Unix_def time_Unix_def)
  moreover have "p_LastSeen p div 1000000000 * 1000000000 \<le> p_LastSeen p"
    using div_mult_mod_eq [of "p_LastSeen p" 1000000000] pos_mod_sign [of 1000000000 "p_LastSeen p"] by linarith
  ultimately show ?thesis using assms(3) by (simp add: expireTime_sane [OF assms(1)])
qed

lemma cleaned_peer_at:
  shows "peer_at (mux_clean_torrent D cfg now m) ih k = Some p \<Longrightarrow> peer_at (mux_view D m) ih k = Some p"
    and "peer_at (mux_view D m) ih k = Some p \<Longrightarrow> \<not> expireTime cfg now > p_LastSeen p \<Longrightarrow>
      peer_at (mux_clean_torrent D cfg now m) ih k = Some p"
proof -
  let ?w = "worker (shard_of (length (localList m)) ih) m"
  show "peer_at (mux_view D m) ih k = Some p" if "peer_at (mux_clean_torrent D cfg now m) ih k = Some p"
    using that by (auto simp: peer_at_def mux_clean_torrent_def clean_torrent_def mux_view_def mgr_view_def live_def Let_def
        split: option.splits if_splits)
  show "peer_at (mux_clean_torrent D cfg now m) ih k = Some p"
    if p: "peer_at (mux_view D m) ih k = Some p" and e: "\<not> expireTime cfg now > p_LastSeen p"
  proof -
    obtain ptr where ptr: "sm_Load (rootOps D) (infoHashMap ?w) ih = Some ptr" and k: "root_view (peerOps D) (heap ?w ptr) k = Some p"
      using p by (auto simp: peer_at_def mux_view_def mgr_view_def bind_eq_Some_conv)
    have l: "live (expireTime cfg now) (root_view (peerOps D) (heap ?w ptr)) k = Some p" using k e by (simp add: live_def)
    then have "live (expireTime cfg now) (root_view (peerOps D) (heap ?w ptr)) \<noteq> Map.empty" by auto
    then show ?thesis using ptr k l by (simp add: peer_at_def mux_clean_torrent_def clean_torrent_def Let_def)
  qed
qed

lemma doIntervalTask_mux:
  "doIntervalTask (mux_PeerManager D B F cfg Client codec C) env (False, m, c) =
     (let m' = snd (mux_Clean D cfg (me_now (env 0)) m) in (StoreToPersist C D cfg (me_store (env 2)) m', False, m', c))"
  by (simp add: doIntervalTask_def taskList_def cleanInactivePeer_def printStatics_def saveDB_def mux_PeerManager_def Let_def prod.case_eq_if)

text \<open>
  C7. Recovery from a crash: if the process dies any time after the interval tasks and is started again on the files they wrote,
  every peer that the manager held when the tasks ran, and that has not expired by the time of the start, is on record
  again, with the fields that the file format keeps, and no other peer is.
\<close>

theorem crash_recovery:
  assumes "local_maps D rinv pinv" and "codec_laws C" and "mux_ok D rinv pinv m" and "sane_ttl cfg"
    and "0 < mem_Shard (t_Memory (c_Tracker cfg))" and "mem_Shard (t_Memory (c_Tracker cfg)) < 2 ^ 64"
    and "mem_EnablePersist (t_Memory (c_Tracker cfg))"
    and "no_expired_ws cfg (me_now (env 0)) (mux_view D m)" and "me_now (env 0) \<le> now"
    and "se_mkdir (me_store (env 2)) = None"
    and "\<And>i. se_run (me_store (env 2)) i \<and> se_lock (me_store (env 2)) i = None \<and> se_open (me_store (env 2)) i = None"
    and "\<And>ih k p. peer_at (mux_view D m) ih k = Some p \<Longrightarrow> storable C cap (ih, p)"
    and "doIntervalTask (mux_PeerManager D B F cfg Client codec C) env (False, m, c) = (written, st)"
    and "map (\<lambda>f. (pf_name f, pf_open f)) fs = map (\<lambda>(name, b). (name, Inr b)) written"
    and "\<And>f. f \<in> set fs \<Longrightarrow> pf_lock f = Inr True \<and> pf_now f = now \<and>
      cap \<le> length (pf_data f) \<and> cap \<le> length (pf_raminBuf f)"
    and "newBan (if xdp_Enable (t_XDP (c_Tracker cfg)) \<and> xdp_Interface (t_XDP (c_Tracker cfg)) \<noteq> []
      then xdp_Interface (t_XDP (c_Tracker cfg)) else []) = Inr b"
  shows "\<exists>m1. start_memory D cfg C newBan fs = Inr (m1, map pf_name fs) \<and> mux_ok D rinv pinv m1 \<and>
    (\<forall>ih k. map_option nonil_peer (peer_at (mux_view D m1) ih k) =
       (case peer_at (mux_view D m) ih k of
          Some p \<Rightarrow> if fresh_at cfg now p then Some (nonil_peer (wire_peer p)) else None
        | None \<Rightarrow> None))"
proof -
  let ?m = "snd (mux_Clean D cfg (me_now (env 0)) m)"
  note cl = local_maps.mux_Clean_spec [OF assms(1,3,8)]
  obtain m0 where new: "NewMuxLocalManager D cfg newBan (mem_Shard (t_Memory (c_Tracker cfg))) = Inr m0"
    using assms(16) by (simp add: NewMuxLocalManager_def Let_def)
  note m0 = local_maps.mux_New [OF assms(1,5,6) new]
  have wr: "written = StoreToPersist C D cfg (me_store (env 2)) ?m" using assms(13) by (simp add: doIntervalTask_mux Let_def)
  have at: "peer_at (mux_view D m) ih k = Some p" if "peer_at (mux_view D ?m) ih k = Some p" for ih k p
    using that cleaned_peer_at(1) by (simp add: cl(2))
  have "\<exists>m1. LoadFromPersist C D cfg fs m0 = Inr (m1, map pf_name fs) \<and> mux_ok D rinv pinv m1 \<and>
    (\<forall>ih k. map_option nonil_peer (peer_at (mux_view D m1) ih k) =
       (case peer_at (mux_view D ?m) ih k of
          Some p \<Rightarrow> if fresh_at cfg now p then Some (nonil_peer (wire_peer p)) else None | None \<Rightarrow> None))"
    by (rule local_maps.snapshot_restores [OF assms(1,2) cl(1) m0 assms(7,10,11) _ assms(14) [unfolded wr] assms(15)])
      (rule assms(12) [OF at])
  then obtain m1 where h: "LoadFromPersist C D cfg fs m0 = Inr (m1, map pf_name fs) \<and> mux_ok D rinv pinv m1 \<and>
    (\<forall>ih k. map_option nonil_peer (peer_at (mux_view D m1) ih k) =
       (case peer_at (mux_view D ?m) ih k of
          Some p \<Rightarrow> if fresh_at cfg now p then Some (nonil_peer (wire_peer p)) else None | None \<Rightarrow> None))" ..
  note ld = h [THEN conjunct1] h [THEN conjunct2, THEN conjunct1]
    and v = h [THEN conjunct2, THEN conjunct2, THEN spec, THEN spec]
  have "(case peer_at (mux_view D ?m) ih k of
          Some p \<Rightarrow> if fresh_at cfg now p then Some (nonil_peer (wire_peer p)) else None | None \<Rightarrow> None) =
        (case peer_at (mux_view D m) ih k of
          Some p \<Rightarrow> if fresh_at cfg now p then Some (nonil_peer (wire_peer p)) else None | None \<Rightarrow> None)" for ih k
  proof (cases "peer_at (mux_view D m) ih k")
    case None
    then have "peer_at (mux_view D ?m) ih k = None" using at [of ih k] by (cases "peer_at (mux_view D ?m) ih k") auto
    with None show ?thesis by simp
  next
    case (Some p)
    show ?thesis
    proof (cases "fresh_at cfg now p")
      case True
      have "peer_at (mux_view D ?m) ih k = Some p"
        unfolding cl(2) by (rule cleaned_peer_at(2) [OF Some fresh_not_expired [OF assms(4) True assms(9)]])
      with Some show ?thesis by simp
    next
      case False
      have "q = p" if "peer_at (mux_view D ?m) ih k = Some q" for q using at [OF that] Some by simp
      with Some False show ?thesis by (cases "peer_at (mux_view D ?m) ih k") simp_all
    qed
  qed
  note eq = this
  show ?thesis
    by (rule exI [of _ m1]) (simp only: start_memory_def new sum.case ld v eq simp_thms)
qed

definition demoTick :: "nat \<Rightarrow> mux_env" where
  "demoTick _ = \<lparr>me_announce = demoEnv 0 inOrder, me_now = 0, me_io = io_ok, me_files = [], me_store = diskEnv\<rparr>"

definition storingPM ::
  "(mux_env, ((string, root_ptr) Map, (string, Peer) Map, bytes list, fallbackIPFilter) MuxLocalManager \<times> unit) PeerManager" where
  "storingPM = mux_PeerManager syncMaps exactBloom fallbackOps persistCfg downClient
     \<lparr>co_Marshal = (\<lambda>_. Inl []), co_Unmarshal = (\<lambda>_. Inl [])\<rparr> demoStore"

theorem crash_recovery_witness:
  "\<exists>written st m1. doIntervalTask storingPM demoTick (False, storedMux, ()) = (written, st) \<and>
     start_memory syncMaps persistCfg demoStore (\<lambda>_. Inr emptyBans) (map snapshot_file written) = Inr (m1, map fst written) \<and>
     map_option nonil_peer (peer_at (mux_view syncMaps m1) demoHash (GetKey storedPeer)) = Some (nonil_peer (wire_peer storedPeer))"
proof -
  obtain written st where w: "doIntervalTask storingPM demoTick (False, storedMux, ()) = (written, st)"
    by (cases "doIntervalTask storingPM demoTick (False, storedMux, ())")
  let ?fs = "map snapshot_file written"
  have st: "storable demoStore 512 (demoHash, storedPeer)"
    by (simp add: storable_def demoStore_def singleCodec_def fits_def decompressLen_def)
  have sane: "sane_ttl persistCfg" by (simp add: sane_ttl_def persistCfg_def demoCfg_TTL)
  have fresh: "fresh_at persistCfg 60000000000 storedPeer" by (rule storedPeer_fresh)
  have "\<exists>m1. start_memory syncMaps persistCfg demoStore (\<lambda>_. Inr emptyBans) ?fs = Inr (m1, map pf_name ?fs) \<and>
      mux_ok syncMaps map_ok map_ok m1 \<and>
      (\<forall>ih k. map_option nonil_peer (peer_at (mux_view syncMaps m1) ih k) =
         (case peer_at (mux_view syncMaps storedMux) ih k of
            Some p \<Rightarrow> if fresh_at persistCfg 60000000000 p then Some (nonil_peer (wire_peer p)) else None
          | None \<Rightarrow> None))"
    by (rule crash_recovery [OF synclocal.local_maps_axioms _ storedMux_ok(1) sane, where env = demoTick and cap = 512 and
          written = written and st = st and b = emptyBans])
      (use st w storedMux_no_ws in \<open>auto simp: demoStore_def singleCodec_laws persistCfg_def diskEnv_def storedMux_ok snapshot_file_def
        demoTick_def storingPM_def split: if_splits\<close>)
  then obtain m1 where m1: "start_memory syncMaps persistCfg demoStore (\<lambda>_. Inr emptyBans) ?fs = Inr (m1, map pf_name ?fs) \<and>
      mux_ok syncMaps map_ok map_ok m1 \<and>
      (\<forall>ih k. map_option nonil_peer (peer_at (mux_view syncMaps m1) ih k) =
         (case peer_at (mux_view syncMaps storedMux) ih k of
            Some p \<Rightarrow> if fresh_at persistCfg 60000000000 p then Some (nonil_peer (wire_peer p)) else None
          | None \<Rightarrow> None))" ..
  have "map pf_name ?fs = map fst written" by (simp add: snapshot_file_def)
  with m1 w show ?thesis by (intro exI [of _ written] exI [of _ st] exI [of _ m1]) (simp add: storedMux_ok fresh)
qed

end
