(* ===== verification/Concurrent.thy ===== *)
theory Concurrent
  imports Local_Ops "HOL-Library.Multiset"
begin

text \<open>
  Several clients at a time. \<^verbatim>\<open>HandleAnnouncePeer\<close> of \<^verbatim>\<open>biz/services/peer/local/local.go\<close> leaves work to goroutines and
  is itself called by many goroutines. Here the in-memory manager is shared by the work that is under way: a
  multiset of tasks, of which any may run next. A task is one of the pieces that \<^const>\<open>HandleAnnouncePeer\<close> is
  made of: the goroutine that records the peer, the handler before and after the collection of the answer, the
  goroutine that clears expired peers (also started by \<^verbatim>\<open>Scrape\<close>). Between tasks new requests arrive, torrents
  are cleaned (\<^verbatim>\<open>clean.go\<close>), deleted and banned, and connections close. A piece runs without interruption.
\<close>

section \<open>The shared tracker\<close>

datatype task =
    TRecord string root_ptr Peer
  | TCollect AnnounceRequest root_ptr Peer
  | TRotate AnnounceRequest root_ptr "Peer list"
  | TDelete root_ptr "string list"

record ('rm, 'pm) tracker =
  tk_mgr :: "('rm, 'pm) Manager"
  tk_tasks :: "task multiset"
  tk_answers :: "(AnnounceRequest \<times> Peer list result) list"

definition new_tracker :: "('rm, 'pm) maps \<Rightarrow> ('rm, 'pm) tracker" where
  "new_tracker D = \<lparr>tk_mgr = NewLocalManger D, tk_tasks = {#}, tk_answers = []\<rparr>"

text \<open>A request up to its first goroutine: it is answered at once, or leaves two tasks.\<close>

definition arrive ::
  "('rm, 'pm) maps \<Rightarrow> Config \<Rightarrow> gotime \<Rightarrow> AnnounceRequest \<Rightarrow> ('rm, 'pm) tracker \<Rightarrow> ('rm, 'pm) tracker" where
  "arrive D cfg now req s =
     (case announce_enter D cfg now req (tk_mgr s) of
        (Inl e, m) \<Rightarrow> s\<lparr>tk_mgr := m, tk_answers := tk_answers s @ [(req, Inl e)]\<rparr>
      | (Inr (Finished ps), m) \<Rightarrow> s\<lparr>tk_mgr := m, tk_answers := tk_answers s @ [(req, Inr ps)]\<rparr>
      | (Inr (Proceed ptr peer), m) \<Rightarrow>
          s\<lparr>tk_mgr := m, tk_tasks := tk_tasks s + {#TRecord (r_InfoHash req) ptr peer, TCollect req ptr peer#}\<rparr>)"

definition delete_task :: "root_ptr \<Rightarrow> string list \<Rightarrow> task multiset" where
  "delete_task ptr ks = (if ks = [] then {#} else {#TDelete ptr ks#})"

fun run_task ::
  "('rm, 'pm) maps \<Rightarrow> Config \<Rightarrow> gotime \<Rightarrow> task \<Rightarrow> ('rm, 'pm) tracker \<Rightarrow> ('rm, 'pm) tracker" where
  "run_task D cfg now (TRecord ih ptr peer) s = s\<lparr>tk_mgr := upsert_peer D cfg ih ptr peer (tk_mgr s)\<rparr>"
| "run_task D cfg now (TCollect req ptr peer) s =
     (case announce_collect D cfg now req peer (heap (tk_mgr s) ptr) of
        (ks, resp) \<Rightarrow> s\<lparr>tk_tasks := tk_tasks s + {#TRotate req ptr resp#} + delete_task ptr ks\<rparr>)"
| "run_task D cfg now (TRotate req ptr resp) s =
     s\<lparr>tk_mgr := announce_rotate D cfg ptr (tk_mgr s), tk_answers := tk_answers s @ [(req, Inr resp)]\<rparr>"
| "run_task D cfg now (TDelete ptr ks) s = s\<lparr>tk_mgr := delete_expired D ptr ks (tk_mgr s)\<rparr>"

definition finish_task ::
  "('rm, 'pm) maps \<Rightarrow> Config \<Rightarrow> gotime \<Rightarrow> task \<Rightarrow> ('rm, 'pm) tracker \<Rightarrow> ('rm, 'pm) tracker" where
  "finish_task D cfg now t s = run_task D cfg now t (s\<lparr>tk_tasks := tk_tasks s - {#t#}\<rparr>)"

text \<open>A scrape that is not answered from the cache leaves the deletion of the expired peers.\<close>

definition scrape_start ::
  "('rm, 'pm) maps \<Rightarrow> Config \<Rightarrow> gotime \<Rightarrow> string \<Rightarrow> ('rm, 'pm) tracker \<Rightarrow> ('rm, 'pm) tracker" where
  "scrape_start D cfg now ih s =
     (case sm_Load (rootOps D) (infoHashMap (tk_mgr s)) ih of
        None \<Rightarrow> s
      | Some ptr \<Rightarrow>
          s\<lparr>tk_tasks := tk_tasks s + delete_task ptr (fst (Root_Range (peerOps D) (scrape_step (expireTime cfg now))
              (heap (tk_mgr s) ptr) ([], zeroCounters)))\<rparr>)"

inductive task_step :: "('rm, 'pm) maps \<Rightarrow> Config \<Rightarrow> ('rm, 'pm) tracker \<Rightarrow> ('rm, 'pm) tracker \<Rightarrow> bool"
  for D :: "('rm, 'pm) maps" and cfg :: Config where
  run: "t \<in># tk_tasks s \<Longrightarrow> task_step D cfg s (finish_task D cfg now t s)"

inductive conc_step :: "('rm, 'pm) maps \<Rightarrow> Config \<Rightarrow> ('rm, 'pm) tracker \<Rightarrow> ('rm, 'pm) tracker \<Rightarrow> bool"
  for D :: "('rm, 'pm) maps" and cfg :: Config where
  conc_task: "task_step D cfg s s' \<Longrightarrow> conc_step D cfg s s'"
| conc_announce: "conc_step D cfg s (arrive D cfg now req s)"
| conc_scrape: "conc_step D cfg s (scrape_start D cfg now ih s)"
| conc_clean: "sm_Load (rootOps D) (infoHashMap (tk_mgr s)) ih = Some ptr \<Longrightarrow>
    conc_step D cfg s (s\<lparr>tk_mgr := snd (cleanUp D cfg now ptr (tk_mgr s))\<rparr>)"
| conc_delete: "conc_step D cfg s (s\<lparr>tk_mgr := local_DeleteInfoHash D ih (tk_mgr s)\<rparr>)"
| conc_ban: "conc_step D cfg s (s\<lparr>tk_mgr := local_BanInfoHash D ih (tk_mgr s)\<rparr>)"
| conc_close: "conc_step D cfg s (s\<lparr>tk_mgr := Conn_Close D c (tk_mgr s)\<rparr>)"

inductive_cases task_stepE: "task_step D cfg s s'"

text \<open>
  The number of announces under way for a peer table: goroutines that have not recorded their peer yet, and
  handlers that have not come to the rotation. \<open>conc_reach K\<close> are the states that are reached with at most \<open>K\<close>
  of either for each table.
\<close>

fun records_at :: "root_ptr \<Rightarrow> task \<Rightarrow> bool" where
  "records_at ptr (TRecord ih q peer) \<longleftrightarrow> q = ptr"
| "records_at ptr _ \<longleftrightarrow> False"

fun handles_at :: "root_ptr \<Rightarrow> task \<Rightarrow> bool" where
  "handles_at ptr (TCollect req q peer) \<longleftrightarrow> q = ptr"
| "handles_at ptr (TRotate req q resp) \<longleftrightarrow> q = ptr"
| "handles_at ptr _ \<longleftrightarrow> False"

definition recorders :: "root_ptr \<Rightarrow> task multiset \<Rightarrow> nat" where
  "recorders ptr ts = size (filter_mset (records_at ptr) ts)"

definition handlers :: "root_ptr \<Rightarrow> task multiset \<Rightarrow> nat" where
  "handlers ptr ts = size (filter_mset (handles_at ptr) ts)"

definition in_flight_le :: "nat \<Rightarrow> task multiset \<Rightarrow> bool" where
  "in_flight_le K ts \<longleftrightarrow> (\<forall>ptr. recorders ptr ts \<le> K \<and> handlers ptr ts \<le> K)"

inductive conc_reach :: "('rm, 'pm) maps \<Rightarrow> Config \<Rightarrow> nat \<Rightarrow> ('rm, 'pm) tracker \<Rightarrow> bool"
  for D :: "('rm, 'pm) maps" and cfg :: Config and K :: nat where
  conc_init: "conc_reach D cfg K (new_tracker D)"
| conc_next: "conc_reach D cfg K s \<Longrightarrow> conc_step D cfg s s' \<Longrightarrow> in_flight_le K (tk_tasks s') \<Longrightarrow> conc_reach D cfg K s'"

text \<open>Running a task does not add to the announces under way.\<close>

lemma counts_simps [simp]:
  "recorders ptr {#} = 0" "handlers ptr {#} = 0"
  "recorders ptr (add_mset t ts) = of_bool (records_at ptr t) + recorders ptr ts"
  "handlers ptr (add_mset t ts) = of_bool (handles_at ptr t) + handlers ptr ts"
  "recorders ptr (ts + us) = recorders ptr ts + recorders ptr us"
  "handlers ptr (ts + us) = handlers ptr ts + handlers ptr us"
  "recorders ptr (delete_task q ks) = 0" "handlers ptr (delete_task q ks) = 0"
  by (simp_all add: recorders_def handlers_def delete_task_def)

lemma in_flight_finish:
  assumes "in_flight_le K (tk_tasks s)" and "t \<in># tk_tasks s"
  shows "in_flight_le K (tk_tasks (finish_task D cfg now t s))"
proof -
  obtain ts where ts: "tk_tasks s = add_mset t ts" using assms(2) by (metis multi_member_split)
  have "recorders ptr (tk_tasks (finish_task D cfg now t s)) \<le> recorders ptr (tk_tasks s) \<and>
      handlers ptr (tk_tasks (finish_task D cfg now t s)) \<le> handlers ptr (tk_tasks s)" for ptr
    by (cases t) (simp_all add: finish_task_def ts split: prod.splits)
  with assms(1) show ?thesis unfolding in_flight_le_def by (meson order.trans)
qed

lemma reach_finish:
  assumes "conc_reach D cfg K s" and "t \<in># tk_tasks s"
  shows "conc_reach D cfg K (finish_task D cfg now t s)"
proof -
  have "in_flight_le K (tk_tasks s)" using assms(1) by cases (simp_all add: new_tracker_def in_flight_le_def)
  with assms show ?thesis by (blast intro: conc_next conc_task run in_flight_finish)
qed

section \<open>The tasks run to their end\<close>

text \<open>The work that a task stands for: a collection leaves the rotation and perhaps a deletion.\<close>

fun task_work :: "task \<Rightarrow> nat" where
  "task_work (TCollect req ptr peer) = 3"
| "task_work _ = 1"

definition work :: "('rm, 'pm) tracker \<Rightarrow> nat" where
  "work s = sum_mset (image_mset task_work (tk_tasks s))"

text \<open>The requests that tasks are under way for, and those that have been accepted at all.\<close>

fun task_request :: "task \<Rightarrow> AnnounceRequest multiset" where
  "task_request (TCollect req ptr peer) = {#req#}"
| "task_request (TRotate req ptr resp) = {#req#}"
| "task_request _ = {#}"

definition pending :: "('rm, 'pm) tracker \<Rightarrow> AnnounceRequest multiset" where
  "pending s = sum_mset (image_mset task_request (tk_tasks s))"

definition answered :: "('rm, 'pm) tracker \<Rightarrow> AnnounceRequest multiset" where
  "answered s = mset (map fst (tk_answers s))"

lemma finish_task_work:
  assumes "t \<in># tk_tasks s"
  shows "work (finish_task D cfg now t s) < work s"
    and "answered (finish_task D cfg now t s) + pending (finish_task D cfg now t s) = answered s + pending s"
proof -
  obtain ts where ts: "tk_tasks s = add_mset t ts" using assms by (metis multi_member_split)
  show "work (finish_task D cfg now t s) < work s"
    by (cases t) (simp_all add: finish_task_def work_def ts delete_task_def split: prod.splits)
  show "answered (finish_task D cfg now t s) + pending (finish_task D cfg now t s) = answered s + pending s"
    by (cases t) (simp_all add: finish_task_def answered_def pending_def ts delete_task_def split: prod.splits)
qed

lemma task_step_work: "task_step D cfg s s' \<Longrightarrow> work s' < work s"
  by (auto elim!: task_stepE simp: finish_task_work)

lemma task_steps_accepted: "(task_step D cfg)\<^sup>*\<^sup>* s s' \<Longrightarrow> answered s' + pending s' = answered s + pending s"
  by (induction rule: rtranclp_induct) (auto elim!: task_stepE simp: finish_task_work)

lemma task_step_progress: "tk_tasks s \<noteq> {#} \<Longrightarrow> \<exists>s'. task_step D cfg s s'"
  by (metis multiset_nonemptyE task_step.run)

lemma task_steps_bounded: "(task_step D cfg ^^ n) s s' \<Longrightarrow> n + work s' \<le> work s"
  by (induction n arbitrary: s') (fastforce dest: task_step_work)+

lemma task_steps_finish: "\<exists>s'. (task_step D cfg)\<^sup>*\<^sup>* s s' \<and> tk_tasks s' = {#}"
proof (induction "work s" arbitrary: s rule: less_induct)
  case less
  show ?case
  proof (cases "tk_tasks s = {#}")
    case False
    then obtain s1 where "task_step D cfg s s1" using task_step_progress by blast
    with less [OF task_step_work] show ?thesis by (meson converse_rtranclp_into_rtranclp)
  qed blast
qed

lemma arrive_accepted:
  "answered (arrive D cfg now req s) + pending (arrive D cfg now req s) = add_mset req (answered s + pending s)"
  by (simp add: arrive_def answered_def pending_def split: prod.splits sum.splits announce_next.splits)

section \<open>What every reachable state keeps\<close>

lemma tracker_update_order [simp]: "s\<lparr>tk_tasks := ts, tk_mgr := m\<rparr> = s\<lparr>tk_mgr := m, tk_tasks := ts\<rparr>"
  by simp

definition good_answer :: "AnnounceRequest \<Rightarrow> Peer list \<Rightarrow> bool" where
  "good_answer req ps \<longleftrightarrow>
     length ps \<le> nat (r_NumWant req) \<and> distinct (map p_ID ps) \<and>
     (\<forall>p \<in> set ps. p_ID p \<noteq> r_PeerID req \<and> p_Type p = r_Type req \<and> p_Event p \<noteq> PeerEvent_Stopped)"

fun task_ok :: "('rm, 'pm) Manager \<Rightarrow> task \<Rightarrow> bool" where
  "task_ok m (TRecord ih ptr peer) \<longleftrightarrow>
     ptr < nextRoot m \<and> infoHash (heap m ptr) = ih \<and> p_Event peer \<noteq> PeerEvent_Stopped"
| "task_ok m (TCollect req ptr peer) \<longleftrightarrow>
     ptr < nextRoot m \<and> p_ID peer = r_PeerID req \<and> p_Type peer = r_Type req"
| "task_ok m (TRotate req ptr resp) \<longleftrightarrow> ptr < nextRoot m \<and> good_answer req resp"
| "task_ok m (TDelete ptr ks) \<longleftrightarrow> True"

text \<open>
  The active map of a table may exceed half of the limit by the announces that have been recorded while their
  handlers have still to rotate, and by the \<open>K\<close> that may be recorded after their handlers looked.
\<close>

definition tables_ok ::
  "('rm, 'pm) maps \<Rightarrow> Config \<Rightarrow> nat \<Rightarrow> task multiset \<Rightarrow> ('rm, 'pm) Manager \<Rightarrow> bool" where
  "tables_ok D cfg K ts m \<longleftrightarrow>
     (\<forall>ptr. bounded (peerOps D) (half_limit cfg + int K + int (handlers ptr ts) - int (recorders ptr ts))
              (half_limit cfg + 2 * int K) (heap m ptr) \<and>
            running (root_view (peerOps D) (heap m ptr)))"

definition conc_inv ::
  "('rm, 'pm) maps \<Rightarrow> ('rm \<Rightarrow> bool) \<Rightarrow> ('pm \<Rightarrow> bool) \<Rightarrow> Config \<Rightarrow> nat \<Rightarrow> ('rm, 'pm) tracker \<Rightarrow> bool" where
  "conc_inv D rinv pinv cfg K s \<longleftrightarrow>
     mgr_ok D rinv pinv (tk_mgr s) \<and> (\<forall>t \<in># tk_tasks s. task_ok (tk_mgr s) t) \<and>
     tables_ok D cfg K (tk_tasks s) (tk_mgr s) \<and> in_flight_le K (tk_tasks s) \<and>
     (\<forall>(req, r) \<in> set (tk_answers s). \<forall>ps. r = Inr ps \<longrightarrow> good_answer req ps)"

lemma good_answer_Nil [simp]: "good_answer req []"
  by (simp add: good_answer_def)

lemma set_delete_task: "t \<in># delete_task ptr ks \<Longrightarrow> task_ok m t"
  by (simp add: delete_task_def split: if_splits)

lemma task_ok_frame:
  assumes "task_ok m t" and "nextRoot m \<le> nextRoot m'"
    and "\<And>ptr. ptr < nextRoot m \<Longrightarrow> infoHash (heap m' ptr) = infoHash (heap m ptr)"
  shows "task_ok m' t"
  using assms by (cases t) auto

text \<open>No task is for a table that does not exist yet.\<close>

lemma fresh_counts:
  assumes "\<forall>t \<in># ts. task_ok m t" and "nextRoot m \<le> ptr"
  shows "recorders ptr ts = 0" and "handlers ptr ts = 0"
proof -
  have "\<not> records_at ptr t \<and> \<not> handles_at ptr t" if "t \<in># ts" for t
    using bspec [OF assms(1) that] assms(2) by (cases t) auto
  then have "filter_mset (records_at ptr) ts = {#}" "filter_mset (handles_at ptr) ts = {#}"
    by (auto intro!: multiset_eqI simp: count_eq_zero_iff)
  then show "recorders ptr ts = 0" "handlers ptr ts = 0" by (simp_all add: recorders_def handlers_def)
qed

context local_maps
begin

abbreviation cinv :: "Config \<Rightarrow> nat \<Rightarrow> ('rm, 'pm) tracker \<Rightarrow> bool" where
  "cinv \<equiv> conc_inv D rinv pinv"

lemma tables_ok_New: "0 \<le> half_limit cfg \<Longrightarrow> tables_ok D cfg K {#} (NewLocalManger D)"
  by (simp add: tables_ok_def) (simp add: NewLocalManger_def bounded_New P.root_view_New running_def)

lemma cinv_New: "0 \<le> half_limit cfg \<Longrightarrow> cinv cfg K (new_tracker D)"
  by (simp add: conc_inv_def new_tracker_def mok_New tables_ok_New in_flight_le_def)

lemma shrinks_root: "shrinks D m m' \<Longrightarrow> mok m \<Longrightarrow> rok (heap m' ptr) \<and> rview (heap m' ptr) \<subseteq>\<^sub>m rview (heap m ptr) \<and>
    infoHash (heap m' ptr) = infoHash (heap m ptr) \<and>
    (\<forall>a b. bounded (peerOps D) a b (heap m ptr) \<longrightarrow> bounded (peerOps D) a b (heap m' ptr))"
  by (rule root_shrinks_spec) (simp_all add: shrinks_def mok_rootD)

lemma tables_ok_shrinks:
  assumes "shrinks D m m'" and "mok m" and "tables_ok D cfg K ts m"
  shows "tables_ok D cfg K ts m'"
  unfolding tables_ok_def
proof (intro allI conjI)
  fix ptr
  show "bounded (peerOps D) (half_limit cfg + int K + int (handlers ptr ts) - int (recorders ptr ts))
      (half_limit cfg + 2 * int K) (heap m' ptr)"
    using shrinks_root [OF assms(1,2), of ptr] assms(3) by (simp add: tables_ok_def)
  show "running (rview (heap m' ptr))"
    using shrinks_root [OF assms(1,2), of ptr] assms(3) by (auto simp: tables_ok_def running_def map_le_def dom_def)
qed

lemma cinv_shrinks:
  assumes inv: "cinv cfg K s" and sh: "shrinks D (tk_mgr s) m'"
  shows "cinv cfg K (s\<lparr>tk_mgr := m'\<rparr>)"
proof -
  from inv have ok: "mok (tk_mgr s)" by (simp add: conc_inv_def)
  have "task_ok m' t" if "task_ok (tk_mgr s) t" for t
    using that by (rule task_ok_frame) (use sh shrinks_root [OF sh ok] in \<open>simp_all add: shrinks_def\<close>)
  with inv show ?thesis
    using shrinks_mok [OF sh ok] tables_ok_shrinks [OF sh ok] by (simp add: conc_inv_def in_flight_le_def)
qed

text \<open>One table changes, and the tasks with it.\<close>

lemma tables_ok_update:
  assumes "tables_ok D cfg K ts m" and "heap m' = (heap m)(ptr := r)" and "running (rview r)"
    and "bounded (peerOps D) (half_limit cfg + int K + int (handlers ptr ts') - int (recorders ptr ts'))
      (half_limit cfg + 2 * int K) r"
    and "\<And>q. q \<noteq> ptr \<Longrightarrow> handlers q ts' = handlers q ts \<and> recorders q ts' = recorders q ts"
  shows "tables_ok D cfg K ts' m'"
  using assms by (simp add: tables_ok_def)

lemma cinv_update:
  assumes inv: "cinv cfg K s" and same: "same_but ptr r (tk_mgr s) m'" and r: "rok r" "infoHash r = infoHash (heap (tk_mgr s) ptr)"
    and "running (rview r)"
    and "bounded (peerOps D) (half_limit cfg + int K + int (handlers ptr ts') - int (recorders ptr ts'))
      (half_limit cfg + 2 * int K) r"
    and "\<And>q. q \<noteq> ptr \<Longrightarrow> handlers q ts' = handlers q (tk_tasks s) \<and> recorders q ts' = recorders q (tk_tasks s)"
    and ts': "\<And>t. t \<in># ts' \<Longrightarrow> t \<in># tk_tasks s \<or> task_ok (tk_mgr s) t"
    and as: "\<And>req ps. (req, Inr ps) \<in> set as \<Longrightarrow> (req, Inr ps) \<in> set (tk_answers s) \<or> good_answer req ps"
    and fl: "in_flight_le K ts'"
  shows "cinv cfg K (s\<lparr>tk_mgr := m', tk_tasks := ts', tk_answers := as\<rparr>)"
proof -
  from inv have ok: "mok (tk_mgr s)" and tb: "tables_ok D cfg K (tk_tasks s) (tk_mgr s)"
    and good: "\<And>t. t \<in># tk_tasks s \<Longrightarrow> task_ok (tk_mgr s) t" by (simp_all add: conc_inv_def)
  have hp: "heap m' = (heap (tk_mgr s))(ptr := r)" using same by (simp add: same_but_def)
  have "task_ok m' t" if "t \<in># ts'" for t
    by (rule task_ok_frame [of "tk_mgr s"]) (use ts' [OF that] good same r in \<open>auto simp: same_but_def\<close>)
  moreover have "tables_ok D cfg K ts' m'" by (rule tables_ok_update [OF tb hp assms(5-7)])
  moreover have "\<forall>(req, r) \<in> set as. \<forall>ps. r = Inr ps \<longrightarrow> good_answer req ps"
    using as inv by (fastforce simp: conc_inv_def)
  ultimately show ?thesis using mok_same_but [OF ok same r] fl by (simp add: conc_inv_def)
qed

lemma collect_good:
  assumes "rok r" and "p_ID peer = r_PeerID req" and "p_Type peer = r_Type req"
  shows "good_answer req (snd (announce_collect D cfg now req peer r))"
  using announce_collect_spec [OF assms(1), of cfg now req peer] assms(2,3)
  by (fastforce simp: good_answer_def eligibles_def eligible_def)

lemma cinv_task:
  assumes inv: "cinv cfg K s" and t: "t \<in># tk_tasks s" and h: "0 \<le> half_limit cfg"
    and fl: "in_flight_le K (tk_tasks (finish_task D cfg now t s))"
  shows "cinv cfg K (finish_task D cfg now t s)"
proof -
  let ?m = "tk_mgr s"
  from inv have ok: "mok ?m" and tb: "tables_ok D cfg K (tk_tasks s) ?m" by (simp_all add: conc_inv_def)
  have tok: "task_ok ?m t" using inv t by (simp add: conc_inv_def)
  obtain ts where ts: "tk_tasks s = add_mset t ts" using t by (metis multi_member_split)
  have rok: "rok (heap ?m ptr)" for ptr using ok by (rule mok_rootD)
  have run: "running (rview (heap ?m ptr))" for ptr using tb by (simp add: tables_ok_def)
  have bnd: "bounded (peerOps D) (half_limit cfg + int K + int (handlers ptr (add_mset t ts)) -
      int (recorders ptr (add_mset t ts))) (half_limit cfg + 2 * int K) (heap ?m ptr)" for ptr
    using tb by (simp add: tables_ok_def ts)
  have fli: "handlers ptr (add_mset t ts) \<le> K" "recorders ptr (add_mset t ts) \<le> K" for ptr
    using inv by (simp_all add: conc_inv_def in_flight_le_def ts)
  show ?thesis
  proof (cases t)
    case (TRecord ih ptr peer)
    have "bounded (peerOps D) (half_limit cfg + int K + int (handlers ptr ts) - int (recorders ptr ts))
        (half_limit cfg + 2 * int K) (upsert_root (peerOps D) cfg peer (heap ?m ptr))"
      using bounded_upsert [OF rok bnd, of ptr cfg peer] by (simp add: TRecord algebra_simps)
    then have "cinv cfg K (s\<lparr>tk_mgr := upsert_peer D cfg ih ptr peer ?m, tk_tasks := ts, tk_answers := tk_answers s\<rparr>)"
      by (intro cinv_update [OF inv upsert_peer_same_but upsert_root_ok [OF rok]])
        (use running_ops(1) [OF rok run] fl tok in \<open>simp_all add: TRecord ts finish_task_def\<close>)
    then show ?thesis by (simp add: TRecord ts finish_task_def)
  next
    case (TCollect req ptr peer)
    obtain ks resp where col: "announce_collect D cfg now req peer (heap ?m ptr) = (ks, resp)"
      by (cases "announce_collect D cfg now req peer (heap ?m ptr)")
    have "good_answer req resp" using collect_good [OF rok [of ptr], of peer req cfg now] tok by (simp add: col TCollect)
    then have "cinv cfg K (s\<lparr>tk_mgr := ?m, tk_tasks := ts + {#TRotate req ptr resp#} + delete_task ptr ks,
        tk_answers := tk_answers s\<rparr>)"
      by (intro cinv_update [OF inv same_but_refl [of ptr] rok])
        (use run [of ptr] bnd [of ptr] fl tok in \<open>auto simp: TCollect ts finish_task_def col set_delete_task\<close>)
    then show ?thesis by (simp add: TCollect ts finish_task_def col)
  next
    case (TRotate req ptr resp)
    have "bounded (peerOps D) (half_limit cfg) (half_limit cfg + 2 * int K) (Root_rotate (peerOps D) cfg (heap ?m ptr))"
      using bounded_rotate [OF rok bnd h, of ptr] fli(1) [of ptr] by (simp add: TRotate)
    then have "bounded (peerOps D) (half_limit cfg + int K + int (handlers ptr ts) - int (recorders ptr ts))
        (half_limit cfg + 2 * int K) (Root_rotate (peerOps D) cfg (heap ?m ptr))"
      by (rule bounded_mono) (use fli(2) [of ptr] in \<open>simp_all add: TRotate\<close>)
    then have "cinv cfg K (s\<lparr>tk_mgr := announce_rotate D cfg ptr ?m, tk_tasks := ts,
        tk_answers := tk_answers s @ [(req, Inr resp)]\<rparr>)"
      by (intro cinv_update [OF inv announce_rotate_same_but P.Root_rotate_ok [OF rok]])
        (use running_ops(3) [OF rok run] fl tok in \<open>auto simp: TRotate ts finish_task_def\<close>)
    then show ?thesis by (simp add: TRotate ts finish_task_def)
  next
    case (TDelete ptr ks)
    then have "cinv cfg K (s\<lparr>tk_mgr := delete_expired D ptr ks ?m, tk_tasks := ts, tk_answers := tk_answers s\<rparr>)"
      by (intro cinv_update [OF inv delete_expired_same_but delete_root_ok [OF rok]])
        (use running_ops(2) [OF rok run] bounded_delete_root [OF rok bnd] fl tok in \<open>auto simp: ts finish_task_def\<close>)
    then show ?thesis by (simp add: TDelete ts finish_task_def)
  qed
qed

text \<open>An arriving request.\<close>

lemma announce_enter_known:
  assumes "mok m" and "valid_addresses (newPeer req now)" and "rootAt m (r_InfoHash req) = Some ptr"
    and "ParsePeerEvent (r_Event req) \<noteq> PeerEvent_Stopped"
  shows "announce_enter D cfg now req m = (Inr (Proceed ptr (newPeer req now)), register_callback req (newPeer req now) ptr m)"
  using assms load_or_new_root_known [OF assms(1,3), of now] by (simp add: announce_enter_def Let_def)

lemma announce_enter_done:
  assumes "mok m" and "valid_addresses (newPeer req (now_seen env))"
    and "rootAt m (r_InfoHash req) = None \<or> ParsePeerEvent (r_Event req) = PeerEvent_Stopped"
    and "HandleAnnouncePeer D cfg env req m = (Inr [], m')"
  shows "announce_enter D cfg (now_seen env) req m = (Inr (Finished []), m')"
proof (cases "rootAt m (r_InfoHash req)")
  case None
  obtain m1 where "load_or_new_root D (now_seen env) (r_InfoHash req) m = (m1, nextRoot m, False)"
    using load_or_new_root_new [OF assms(1) None] by metis
  with assms(2,4) show ?thesis by (simp add: HandleAnnouncePeer_def announce_enter_def Let_def)
next
  case (Some ptr)
  with assms load_or_new_root_known [OF assms(1) Some, of "now_seen env"] show ?thesis
    by (simp add: HandleAnnouncePeer_def announce_enter_def Let_def)
qed

lemma cinv_first:
  assumes inv: "cinv cfg K s" and h: "0 \<le> half_limit cfg" "0 < K"
    and v: "valid_addresses (newPeer req now)" and n: "mgr_view D (tk_mgr s) (r_InfoHash req) = None"
  shows "cinv cfg K (arrive D cfg now req s)"
proof -
  let ?peer = "newPeer req now" and ?ih = "r_InfoHash req" and ?m = "tk_mgr s" and ?M = "peerOps D"
  define env where "env = \<lparr>now_seen = now, now_expire = now, schedule = []\<rparr>"
  have now: "now_seen env = now" by (simp add: env_def)
  let ?r0 = "NewInfoHashRoot ?M now ?ih"
  from inv have ok: "mok ?m" and tb: "tables_ok D cfg K (tk_tasks s) ?m"
    and good: "\<forall>t \<in># tk_tasks s. task_ok ?m t" by (simp_all add: conc_inv_def)
  obtain m' r where a: "HandleAnnouncePeer D cfg env req ?m = (Inr [], m')" and ok': "mok m'"
    and hp: "heap m' = (heap ?m)(nextRoot ?m := r)" and nr: "nextRoot m' = Suc (nextRoot ?m)"
    and r: "r = ?r0 \<or> p_Event ?peer \<noteq> PeerEvent_Stopped \<and> r = Root_Store ?M ?r0 (GetKey ?peer) ?peer"
    by (rule announce_first [OF ok, of req env cfg]) (use v n in \<open>auto simp: now\<close>)
  have "rootAt ?m ?ih = None" using n by (simp add: mgr_view_def)
  then have ent: "announce_enter D cfg now req ?m = (Inr (Finished []), m')"
    using announce_enter_done [OF ok _ _ a] v now by simp
  have free: "sm_Load ?M (peerMap ?r0 ! j) (GetKey ?peer) = None" if "j < 3" for j
    using P.root_view_None_maps [OF P.root_ok_New _ that] by (simp add: P.root_view_New)
  have b0: "bounded ?M (half_limit cfg + int K - 1) (half_limit cfg + 2 * int K) ?r0" using h by (intro bounded_New) auto
  have "bounded ?M (half_limit cfg + int K) (half_limit cfg + 2 * int K) r"
    using r bounded_Store [OF P.root_ok_New b0, of "GetKey ?peer" ?peer] bounded_mono [OF b0] by auto
  moreover have "running (rview r)"
    using r P.Root_Store_view [OF P.root_ok_New refl free] by (auto simp: P.root_view_New running_def split: if_splits)
  ultimately have "tables_ok D cfg K (tk_tasks s) m'"
    by (intro tables_ok_update [OF tb hp]) (simp_all add: fresh_counts [OF good order.refl])
  moreover have "task_ok m' t" if "t \<in># tk_tasks s" for t
    by (rule task_ok_frame [of ?m]) (use good that hp nr in auto)
  ultimately show ?thesis using inv ok' by (auto simp: conc_inv_def in_flight_le_def arrive_def ent)
qed

lemma cinv_arrive:
  assumes inv: "cinv cfg K s" and h: "0 \<le> half_limit cfg" "0 < K" and fl: "in_flight_le K (tk_tasks (arrive D cfg now req s))"
  shows "cinv cfg K (arrive D cfg now req s)"
proof -
  let ?peer = "newPeer req now" and ?ih = "r_InfoHash req" and ?m = "tk_mgr s"
  define env where "env = \<lparr>now_seen = now, now_expire = now, schedule = []\<rparr>"
  have now: "now_seen env = now" by (simp add: env_def)
  from inv have ok: "mok ?m" by (simp add: conc_inv_def)
  consider "\<not> valid_addresses ?peer" | "valid_addresses ?peer" "mgr_view D ?m ?ih = None"
    | sw where "valid_addresses ?peer" "mgr_view D ?m ?ih = Some sw" "p_Event ?peer = PeerEvent_Stopped"
    | ptr where "valid_addresses ?peer" "rootAt ?m ?ih = Some ptr" "p_Event ?peer \<noteq> PeerEvent_Stopped"
    by (cases "rootAt ?m ?ih") (auto simp: mgr_view_def)
  then show ?thesis
  proof cases
    case 1
    then show ?thesis using inv by (auto simp: conc_inv_def in_flight_le_def arrive_def announce_enter_def Let_def)
  next
    case 2
    then show ?thesis by (rule cinv_first [OF inv h])
  next
    case 3
    obtain m' where a: "HandleAnnouncePeer D cfg env req ?m = (Inr [], m')" "shrinks D ?m m'"
      by (rule announce_stopped [OF ok, of req env sw cfg]) (use 3 in \<open>auto simp: now\<close>)
    have "announce_enter D cfg now req ?m = (Inr (Finished []), m')"
      using announce_enter_done [OF ok _ _ a(1)] 3 now by simp
    then show ?thesis using cinv_shrinks [OF inv a(2)] by (auto simp: arrive_def conc_inv_def in_flight_le_def)
  next
    case 4
    have newPeer_ok: "p_ID ?peer = r_PeerID req" "p_Type ?peer = r_Type req" by (simp_all add: newPeer_def)
    let ?m1 = "register_callback req ?peer ptr ?m"
    have sh: "shrinks D ?m ?m1" by (auto simp: shrinks_def root_shrinks_refl)
    have ent: "announce_enter D cfg now req ?m = (Inr (Proceed ptr ?peer), ?m1)"
      using announce_enter_known [OF ok] 4 by simp
    note inv1 = cinv_shrinks [OF inv sh]
    have rok: "rok (heap ?m ptr)" using ok by (rule mok_rootD)
    have tb: "tables_ok D cfg K (tk_tasks s) ?m" using inv by (simp add: conc_inv_def)
    have "cinv cfg K ((s\<lparr>tk_mgr := ?m1\<rparr>)\<lparr>tk_mgr := ?m1,
        tk_tasks := tk_tasks s + {#TRecord ?ih ptr ?peer, TCollect req ptr ?peer#}, tk_answers := tk_answers s\<rparr>)"
      by (rule cinv_update [OF inv1, of ptr "heap ?m ptr"])
        (use rok tb mok_rootD(3,4) [OF ok 4(2)] 4(3) fl newPeer_ok in
          \<open>auto simp: arrive_def ent tables_ok_def same_but_def algebra_simps\<close>)
    then show ?thesis by (simp add: arrive_def ent)
  qed
qed

lemma cinv_scrape: "cinv cfg K s \<Longrightarrow> cinv cfg K (scrape_start D cfg now ih s)"
  by (auto simp: scrape_start_def conc_inv_def tables_ok_def in_flight_le_def delete_task_def split: option.splits)

lemma cinv_reach:
  assumes "conc_reach D cfg K s" and "0 \<le> half_limit cfg" and "0 < K"
  shows "cinv cfg K s"
  using assms(1)
proof (induction rule: conc_reach.induct)
  case conc_init
  then show ?case using assms(2) by (rule cinv_New)
next
  case (conc_next s s')
  from conc_next(2) show ?case
  proof cases
    case conc_task
    then show ?thesis using cinv_task [OF conc_next(4)] assms(2) conc_next(3) by (auto elim!: task_stepE)
  qed (use conc_next(3,4) assms(2,3) in \<open>auto intro: cinv_arrive cinv_scrape cinv_shrinks cleanUp_shrinks
      DeleteInfoHash_shrinks Conn_Close_shrinks\<close>)
qed

lemma card_bounded:
  assumes "rok r" and "bounded (peerOps D) a b r"
  shows "int (card (dom (rview r))) \<le> a + b"
  using maps_inv(3) [OF assms(1)] P.Root_Len_card [OF assms(1)] assms(2) by (simp add: bounded_def)

lemma cinv_view:
  assumes inv: "cinv cfg K s" and "mgr_view D (tk_mgr s) ih = Some sw"
  shows "finite (dom sw)" and "int (card (dom sw)) \<le> 2 * half_limit cfg + 4 * int K"
    and "running sw" and "sw k = Some p \<Longrightarrow> p_ID p = k"
proof -
  from inv have ok: "mok (tk_mgr s)" by (simp add: conc_inv_def)
  from assms(2) obtain ptr where sw: "sw = rview (heap (tk_mgr s) ptr)" by (auto simp: mgr_view_def)
  have rok: "rok (heap (tk_mgr s) ptr)" using ok by (rule mok_rootD)
  from rok show "finite (dom sw)" by (simp add: sw)
  show "sw k = Some p \<Longrightarrow> p_ID p = k" using P.root_ok_key [OF rok] by (simp add: sw)
  show "running sw" using inv by (simp add: conc_inv_def tables_ok_def sw)
  have "int (handlers ptr (tk_tasks s)) \<le> int K" using inv by (simp add: conc_inv_def in_flight_le_def)
  moreover have "bounded (peerOps D) (half_limit cfg + int K + int (handlers ptr (tk_tasks s)) - int (recorders ptr (tk_tasks s)))
      (half_limit cfg + 2 * int K) (heap (tk_mgr s) ptr)" using inv by (simp add: conc_inv_def tables_ok_def)
  ultimately have "bounded (peerOps D) (half_limit cfg + 2 * int K) (half_limit cfg + 2 * int K) (heap (tk_mgr s) ptr)"
    by (elim bounded_mono) simp_all
  from card_bounded [OF rok this] show "int (card (dom sw)) \<le> 2 * half_limit cfg + 4 * int K" by (simp add: sw)
qed

text \<open>
  A peer that is recorded in a table that is no longer the table of the torrent is not seen.
\<close>

lemma orphan_view:
  assumes inv: "cinv cfg K s" and t: "TRecord ih ptr peer \<in># tk_tasks s" and "rootAt (tk_mgr s) ih \<noteq> Some ptr"
  shows "mgr_view D (tk_mgr (finish_task D cfg now (TRecord ih ptr peer) s)) = mgr_view D (tk_mgr s)"
proof -
  let ?m = "tk_mgr s"
  from inv t have ok: "mok ?m" and "infoHash (heap ?m ptr) = ih" by (auto simp: conc_inv_def)
  then have no: "rootAt ?m ih' \<noteq> Some ptr" for ih' using assms(3) mok_rootD(3) [OF ok] by metis
  have "same_but ptr (upsert_root (peerOps D) cfg peer (heap ?m ptr)) ?m (upsert_peer D cfg ih ptr peer ?m)"
    by (rule upsert_peer_same_but)
  with no show ?thesis
    by (auto simp: finish_task_def mgr_view_def same_but_def fun_eq_iff map_option_case split: option.splits)
qed

end

end
