(* ===== verification/Concurrent_Props.thy ===== *)
theory Concurrent_Props
  imports Concurrent Local_Props
begin

text \<open>
  The properties of the in-memory manager under concurrent requests, and the proof that the schedules of a single
  announce are exactly the orders in which its tasks can run.
\<close>

section \<open>One request by itself\<close>

definition ends :: "('rm, 'pm) maps \<Rightarrow> Config \<Rightarrow> ('rm, 'pm) tracker \<Rightarrow> ('rm, 'pm) tracker \<Rightarrow> bool" where
  "ends D cfg s s' \<longleftrightarrow> (task_step D cfg)\<^sup>*\<^sup>* s s' \<and> tk_tasks s' = {#}"

lemma ends_done: "tk_tasks s = {#} \<Longrightarrow> ends D cfg s s' \<longleftrightarrow> s' = s"
  by (auto simp: ends_def elim!: converse_rtranclpE [of "task_step D cfg" s s'] task_stepE)

lemma ends_step:
  assumes "tk_tasks s \<noteq> {#}"
  shows "ends D cfg s s' \<longleftrightarrow> (\<exists>t now. t \<in># tk_tasks s \<and> ends D cfg (finish_task D cfg now t s) s')"
proof
  assume "ends D cfg s s'"
  then have "(task_step D cfg)\<^sup>*\<^sup>* s s'" "s \<noteq> s'" "tk_tasks s' = {#}" using assms by (auto simp: ends_def)
  then obtain s1 where "task_step D cfg s s1" "(task_step D cfg)\<^sup>*\<^sup>* s1 s'" by (metis converse_rtranclpE)
  then show "\<exists>t now. t \<in># tk_tasks s \<and> ends D cfg (finish_task D cfg now t s) s'"
    using \<open>tk_tasks s' = {#}\<close> by (auto elim!: task_stepE simp: ends_def)
qed (auto simp: ends_def intro: converse_rtranclp_into_rtranclp task_step.run)

text \<open>The last tasks of a request, in every order.\<close>

lemma delete_nothing [simp]: "delete_expired D ptr [] m = m"
  by (simp add: delete_expired_def)

definition running_state :: "('rm, 'pm) Manager \<Rightarrow> task multiset \<Rightarrow> (AnnounceRequest \<times> Peer list result) list \<Rightarrow> ('rm, 'pm) tracker" where
  "running_state m ts as = \<lparr>tk_mgr = m, tk_tasks = ts, tk_answers = as\<rparr>"

lemma ends_running:
  "ends D cfg (running_state m {#} as) s' \<longleftrightarrow> s' = running_state m {#} as"
  "ts \<noteq> {#} \<Longrightarrow> ends D cfg (running_state m ts as) s' \<longleftrightarrow>
     (\<exists>t \<in> set_mset ts. \<exists>now. ends D cfg (run_task D cfg now t (running_state m (ts - {#t#}) as)) s')"
  by (simp_all add: ends_done ends_step running_state_def finish_task_def Bex_def)

lemma run_task_running:
  "run_task D cfg now (TRecord ih ptr peer) (running_state m ts as) = running_state (upsert_peer D cfg ih ptr peer m) ts as"
  "run_task D cfg now (TRotate req ptr resp) (running_state m ts as) =
     running_state (announce_rotate D cfg ptr m) ts (as @ [(req, Inr resp)])"
  "run_task D cfg now (TDelete ptr ks) (running_state m ts as) = running_state (delete_expired D ptr ks m) ts as"
  "run_task D cfg now (TCollect req ptr peer) (running_state m ts as) =
     (case announce_collect D cfg now req peer (heap m ptr) of
        (ks, resp) \<Rightarrow> running_state m (ts + {#TRotate req ptr resp#} + delete_task ptr ks) as)"
  by (simp_all add: running_state_def split: prod.splits)

lemmas ends_simps = ends_running run_task_running

declare run_task.simps [simp del]

lemma ends_recorded:
  "ends D cfg (running_state m (add_mset (TRotate req ptr resp) (delete_task ptr ks)) as) s' \<longleftrightarrow>
     s' \<in> (\<lambda>m. running_state m {#} (as @ [(req, Inr resp)])) `
       {announce_rotate D cfg ptr (delete_expired D ptr ks m), delete_expired D ptr ks (announce_rotate D cfg ptr m)}"
  by (cases "ks = []") (auto simp: delete_task_def ends_simps)

lemma ends_unrecorded:
  "ends D cfg (running_state m (add_mset (TRecord ih ptr peer) (add_mset (TRotate req ptr resp) (delete_task ptr ks))) as) s' \<longleftrightarrow>
     (let U = upsert_peer D cfg ih ptr peer; E = delete_expired D ptr ks; R = announce_rotate D cfg ptr in
      s' \<in> (\<lambda>m. running_state m {#} (as @ [(req, Inr resp)])) `
        {R (E (U m)), E (R (U m)), R (U (E m)), U (R (E m)), E (U (R m)), U (E (R m))})"
  by (cases "ks = []") (auto simp: delete_task_def ends_simps Let_def)

definition after_actions ::
  "('rm, 'pm) maps \<Rightarrow> Config \<Rightarrow> gotime \<Rightarrow> AnnounceRequest \<Rightarrow> root_ptr \<Rightarrow> Peer \<Rightarrow> action list \<Rightarrow>
   ('rm, 'pm) Manager \<Rightarrow> (AnnounceRequest \<times> Peer list result) list \<Rightarrow> ('rm, 'pm) tracker" where
  "after_actions D cfg e req ptr peer sched m as =
     (case run_actions D cfg e req ptr peer sched ([], []) m of
        (resp, m') \<Rightarrow> running_state m' {#} (as @ [(req, Inr resp)]))"

lemma ends_announce:
  "ends D cfg (running_state m {#TRecord (r_InfoHash req) ptr peer, TCollect req ptr peer#} as) s' \<longleftrightarrow>
     (\<exists>e. \<exists>sched \<in> set schedules. s' = after_actions D cfg e req ptr peer sched m as)"
proof -
  let ?U = "upsert_peer D cfg (r_InfoHash req) ptr peer"
  have "ends D cfg (running_state m {#TRecord (r_InfoHash req) ptr peer, TCollect req ptr peer#} as) s' \<longleftrightarrow>
      (\<exists>e. (case announce_collect D cfg e req peer (heap (?U m) ptr) of (ks, resp) \<Rightarrow>
              ends D cfg (running_state (?U m) (add_mset (TRotate req ptr resp) (delete_task ptr ks)) as) s') \<or>
           (case announce_collect D cfg e req peer (heap m ptr) of (ks, resp) \<Rightarrow>
              ends D cfg (running_state m (add_mset (TRecord (r_InfoHash req) ptr peer)
                (add_mset (TRotate req ptr resp) (delete_task ptr ks))) as) s'))"
  proof -
    let ?ends = "\<lambda>m ts. ends D cfg (running_state m ts as) s'"
    have "?ends m {#TRecord (r_InfoHash req) ptr peer, TCollect req ptr peer#} \<longleftrightarrow>
        ?ends (?U m) {#TCollect req ptr peer#} \<or>
        (\<exists>e. ends D cfg (run_task D cfg e (TCollect req ptr peer) (running_state m {#TRecord (r_InfoHash req) ptr peer#} as)) s')"
      by (subst ends_running(2)) (auto simp: run_task_running(1))
    moreover have "?ends (?U m) {#TCollect req ptr peer#} \<longleftrightarrow>
        (\<exists>e. ends D cfg (run_task D cfg e (TCollect req ptr peer) (running_state (?U m) {#} as)) s')"
      by (subst ends_running(2)) simp_all
    ultimately show ?thesis by (simp add: run_task_running(4) ex_disj_distrib prod.case_eq_if add_mset_commute)
  qed
  also have "\<dots> \<longleftrightarrow> (\<exists>e. \<exists>sched \<in> set schedules. s' = after_actions D cfg e req ptr peer sched m as)"
    by (rule arg_cong [where f = Ex], rule ext)
      (auto simp: schedules_def after_actions_def ends_recorded ends_unrecorded Let_def split: prod.splits)
  finally show ?thesis .
qed


definition demoTracker :: "((string, root_ptr) Map, (string, Peer) Map) tracker" where
  "demoTracker = running_state demoMgr {#} []"


section \<open>Many requests\<close>

text \<open>An example: a client joins the torrent of another, its peer is recorded and it gets its answer.\<close>

definition joinTracker :: "((string, root_ptr) Map, (string, Peer) Map) tracker" where
  "joinTracker = arrive syncMaps demoCfg 60000000000 (demoReq ''B'' ''started'')
     (arrive syncMaps demoCfg 0 (demoReq ''A'' ''started'') (new_tracker syncMaps))"

definition recordB :: task where
  "recordB = TRecord ''T'' 0 (demoPeer ''B'' ''started'' 60)"

definition collectB :: task where
  "collectB = TCollect (demoReq ''B'' ''started'') 0 (demoPeer ''B'' ''started'' 60)"

definition rotateB :: task where
  "rotateB = TRotate (demoReq ''B'' ''started'') 0 [demoPeer ''A'' ''started'' 0]"

definition servedTracker :: "((string, root_ptr) Map, (string, Peer) Map) tracker" where
  "servedTracker = finish_task syncMaps demoCfg 0 rotateB (finish_task syncMaps demoCfg 60000000000 collectB
     (finish_task syncMaps demoCfg 0 recordB joinTracker))"

lemma join_tasks: "tk_tasks joinTracker = {#recordB, collectB#}"
  by code_simp

lemma served: "tk_tasks (finish_task syncMaps demoCfg 60000000000 collectB
     (finish_task syncMaps demoCfg 0 recordB joinTracker)) = {#rotateB#}"
  by code_simp

lemma first_reach: "conc_reach syncMaps demoCfg 1 (arrive syncMaps demoCfg 0 (demoReq ''A'' ''started'') (new_tracker syncMaps))"
proof -
  have "tk_tasks (arrive syncMaps demoCfg 0 (demoReq ''A'' ''started'') (new_tracker syncMaps)) = {#}" by code_simp
  then show ?thesis by (intro conc_next [OF conc_init conc_announce]) (simp add: in_flight_le_def)
qed

lemma join_reach: "conc_reach syncMaps demoCfg 1 joinTracker"
  unfolding joinTracker_def
  by (rule conc_next [OF first_reach conc_announce])
    (simp add: join_tasks [unfolded joinTracker_def] in_flight_le_def recordB_def collectB_def)

lemma served_reach: "conc_reach syncMaps demoCfg 1 servedTracker"
proof -
  let ?s1 = "finish_task syncMaps demoCfg 0 recordB joinTracker"
  have "tk_tasks ?s1 = {#collectB#}" by (simp add: finish_task_def join_tasks recordB_def run_task.simps)
  moreover have "conc_reach syncMaps demoCfg 1 ?s1" by (rule reach_finish [OF join_reach]) (simp add: join_tasks)
  ultimately have "conc_reach syncMaps demoCfg 1 (finish_task syncMaps demoCfg 60000000000 collectB ?s1)"
    by (simp add: reach_finish)
  then show ?thesis unfolding servedTracker_def by (rule reach_finish) (simp add: served)
qed

lemma served_answers:
  "tk_answers servedTracker = [(demoReq ''A'' ''started'', Inr []), (demoReq ''B'' ''started'', Inr [demoPeer ''A'' ''started'' 0])]"
  "mgr_peer syncMaps (tk_mgr servedTracker) ''T'' ''B'' = Some (demoPeer ''B'' ''started'' 60)"
  by code_simp+

lemma half_limit_bounds:
  assumes "0 \<le> mem_MaxPeersPerTorrent (t_Memory (c_Tracker cfg))"
  shows "0 \<le> half_limit cfg" and "2 * half_limit cfg \<le> mem_MaxPeersPerTorrent (t_Memory (c_Tracker cfg))"
  using assms by (auto simp: half_limit_def go_div_def sgn_if)






text \<open>Two clients announce one after the other, and none of their tasks has run yet.\<close>

definition busyTracker :: "((string, root_ptr) Map, (string, Peer) Map) tracker" where
  "busyTracker = arrive syncMaps demoCfg 61000000000 (demoReq ''C'' ''started'')
     (arrive syncMaps demoCfg 60000000000 (demoReq ''B'' ''started'') demoTracker)"



text \<open>A client announces after the peers of the torrent have expired, while the torrent is cleaned.\<close>

definition lateTracker :: "((string, root_ptr) Map, (string, Peer) Map) tracker" where
  "lateTracker = arrive syncMaps demoCfg 7200000000000 (demoReq ''B'' ''started'')
     (arrive syncMaps demoCfg 0 (demoReq ''A'' ''started'') (new_tracker syncMaps))"

definition cleanedTracker :: "((string, root_ptr) Map, (string, Peer) Map) tracker" where
  "cleanedTracker = lateTracker\<lparr>tk_mgr := snd (cleanUp syncMaps demoCfg 7200000000000 0 (tk_mgr lateTracker))\<rparr>"

lemma late_tasks: "tk_tasks lateTracker = {#TRecord ''T'' 0 (demoPeer ''B'' ''started'' 7200),
    TCollect (demoReq ''B'' ''started'') 0 (demoPeer ''B'' ''started'' 7200)#}"
  by code_simp

lemma cleaned_reach: "conc_reach syncMaps demoCfg 1 cleanedTracker"
proof -
  have "conc_reach syncMaps demoCfg 1 lateTracker" unfolding lateTracker_def
    by (rule conc_next [OF first_reach conc_announce]) (simp add: late_tasks [unfolded lateTracker_def] in_flight_le_def)
  moreover have "sm_Load (rootOps syncMaps) (infoHashMap (tk_mgr lateTracker)) ''T'' = Some 0" by code_simp
  ultimately show ?thesis unfolding cleanedTracker_def
    by (rule conc_next [OF _ conc_clean]) (simp add: late_tasks in_flight_le_def)
qed


end
