(* ===== verification/Peer_ID.thy ===== *)
theory Peer_ID
  imports Prelude
begin

text \<open>
  The name of a client from its peer identifier, \<^verbatim>\<open>utils/bittorrent/peer_id.go\<close>. The regular expression engine is a
  parameter: \<open>re pattern s\<close> is the leftmost match, if any. What the code relies on is that a pattern that
  starts with \<^verbatim>\<open>^\<close> matches at the start, and that the literal dash that ends some of the patterns is matched.
\<close>

type_synonym regexp = "string \<Rightarrow> string \<Rightarrow> string option"

definition commonClients :: string where
  "commonClients = ''^-[^-]{6}-''"

definition btSpritClients :: string where
  "btSpritClients = ''^-[a-zA-Z]+[0-9]{1,4}''"

definition aria2Clients :: string where
  "aria2Clients = ''^A2-[0-9]+-[0-9]+-[0-9]+-''"

definition mgClients :: string where
  "mgClients = ''^MG-[0-9]+'' @ [CHR 0x5C] @ ''.[0-9]+'' @ [CHR 0x5C] @ ''.[0-9]{1,4}''"

definition middleDash :: string where
  "middleDash = ''^[a-zA-Z]+[0-9]+-''"

text \<open>
  \<^verbatim>\<open>strings.TrimFunc\<close> with \<^verbatim>\<open>unicode.MaxASCII < r\<close>: a rune above ASCII is made of bytes above ASCII, and so is what
  stands for an invalid one, so that runs of such bytes fall at both ends.
\<close>

definition trim_nonASCII :: "string \<Rightarrow> string" where
  "trim_nonASCII s = rev (dropWhile (\<lambda>c. 127 < (of_char c :: nat)) (rev (dropWhile (\<lambda>c. 127 < (of_char c :: nat)) s)))"

definition HasPrefix :: "string \<Rightarrow> string \<Rightarrow> bool" where
  "HasPrefix s pre \<longleftrightarrow> take (length pre) s = pre"

definition ParsePeerID :: "regexp \<Rightarrow> string \<Rightarrow> string" where
  "ParsePeerID re peerIdRaw =
     (let peerId = trim_nonASCII peerIdRaw in
      if HasPrefix peerId ''-XL0019'' then ''-XL0019''
      else if HasPrefix peerId ''-FD51'' then ''-FD51''
      else case re commonClients peerId of Some m \<Rightarrow> take (length m - 1) m
      | None \<Rightarrow>
     (case re btSpritClients peerId of Some m \<Rightarrow> m
      | None \<Rightarrow>
     (case re mgClients peerId of Some m \<Rightarrow> m
      | None \<Rightarrow>
     (case re aria2Clients peerId of Some m \<Rightarrow> take (length m - 1) m
      | None \<Rightarrow>
     (case re middleDash peerId of Some m \<Rightarrow> take (length m - 1) m
      | None \<Rightarrow>
        if HasPrefix peerId ''FD6'' then ''FD6''
        else if HasPrefix peerId ''12BS'' then ''12BS''
        else ''unknown'')))))"

definition anchored :: "regexp \<Rightarrow> bool" where
  "anchored re \<longleftrightarrow> (\<forall>pat s m. re (CHR ''^'' # pat) s = Some m \<longrightarrow> HasPrefix s m)"

lemma HasPrefix_iff: "HasPrefix s pre \<longleftrightarrow> (\<exists>t. s = pre @ t)"
  unfolding HasPrefix_def by (metis append_take_drop_id append_eq_conv_conj)

lemma HasPrefix_take: "HasPrefix s m \<Longrightarrow> HasPrefix s (take n m)"
  unfolding HasPrefix_iff by (metis append_assoc append_take_drop_id)

text \<open>The name is a prefix of the identifier without the bytes above ASCII at its ends, or says that it is not known.\<close>

lemma ParsePeerID_prefix:
  assumes "anchored re"
  shows "ParsePeerID re s = ''unknown'' \<or> HasPrefix (trim_nonASCII s) (ParsePeerID re s)"
proof -
  have pre: "HasPrefix t m" if "re pat t = Some m" "pat \<in> {commonClients, btSpritClients, mgClients, aria2Clients, middleDash}" for pat t m
    using that assms unfolding anchored_def
    by (auto simp: commonClients_def btSpritClients_def mgClients_def aria2Clients_def middleDash_def)
  show ?thesis
    unfolding ParsePeerID_def Let_def by (auto split: option.split intro!: HasPrefix_take intro: pre)
qed

end
