(* ===== verification/Metrics.thy ===== *)
theory Metrics
  imports Http_Server Peer_ID
begin

text \<open>
  The metrics, \<^verbatim>\<open>service/metrics\<close>, and the places that emit them (\<^verbatim>\<open>biz/handler\<close>, \<^verbatim>\<open>biz/services/udp_server\<close>,
  \<^verbatim>\<open>biz/services/rpc\<close>). The Prometheus library is a parameter: a registry of type \<open>'r\<close>, registration, which panics
  on a name that is taken, and the check of the labels. What is added to a counter, observed in a histogram or set
  in a gauge is collected in the order of the calls; values are kept as the integers that the code converts to
  \<^verbatim>\<open>float64\<close>. A map of vectors is registered in the order of its literal.
\<close>

section \<open>Names and the library\<close>

type_synonym labels = "(string \<times> string) list"

definition metricsPrefix :: string where "metricsPrefix = ''trunker_''"

definition CounterInvalidRequest :: string where "CounterInvalidRequest = ''invalid_request_counter''"
definition CounterUDPRequest :: string where "CounterUDPRequest = ''udp_request_counter''"
definition CounterUDPRequestError :: string where "CounterUDPRequestError = ''udp_request_error_counter''"
definition CounterAnnounce :: string where "CounterAnnounce = ''announce_counter''"

definition LabelReason :: string where "LabelReason = ''reason''"
definition LabelAction :: string where "LabelAction = ''action''"
definition LabelClient :: string where "LabelClient = ''client''"
definition LabelSource :: string where "LabelSource = ''source''"

definition HistogramLatency :: string where "HistogramLatency = ''udp_request_latency_us''"

definition GaugeTorrentTotal :: string where "GaugeTorrentTotal = ''torrents_total''"
definition GaugeTorrent :: string where "GaugeTorrent = ''shard_torrents''"
definition GaugePeer :: string where "GaugePeer = ''shard_peers''"
definition LabelShards :: string where "LabelShards = ''shards''"

lemmas counter_defs = CounterInvalidRequest_def CounterUDPRequest_def CounterUDPRequestError_def CounterAnnounce_def
lemmas label_defs = LabelReason_def LabelAction_def LabelClient_def LabelSource_def LabelShards_def
lemmas gauge_defs = GaugeTorrentTotal_def GaugeTorrent_def GaugePeer_def HistogramLatency_def

datatype metric_kind = CounterVec | HistogramVec "int list" | GaugeVec | GaugeFunc

record metric_opts =
  mo_kind :: metric_kind
  mo_Name :: string
  mo_Help :: string
  mo_labels :: "string list"

record 'r prometheus =
  pr_NewRegistry :: 'r
  pr_MustRegister :: "metric_opts \<Rightarrow> 'r \<Rightarrow> 'r result"
  pr_GetMetricWith :: "metric_opts \<Rightarrow> labels \<Rightarrow> error option"

record 'r metrics_state =
  ms_registry :: "'r option"
  ms_once :: bool
  ms_counterHandler :: "(string \<times> metric_opts) list"
  ms_histogramHandler :: "(string \<times> metric_opts) list"
  ms_gaugeHandler :: "(string \<times> metric_opts) list"
  ms_added :: "(string \<times> labels \<times> int) list"
  ms_observed :: "(string \<times> labels \<times> int) list"
  ms_set :: "(string \<times> labels \<times> uint64) list"
  ms_info :: "StatisticInfo option"
  ms_fetchCount :: uint32

definition metrics_zero :: "'r metrics_state" where
  "metrics_zero = \<lparr>ms_registry = None, ms_once = False, ms_counterHandler = [], ms_histogramHandler = [],
     ms_gaugeHandler = [], ms_added = [], ms_observed = [], ms_set = [], ms_info = None, ms_fetchCount = 0\<rparr>"

section \<open>Registration\<close>

fun register_all :: "'r prometheus \<Rightarrow> (string \<times> metric_opts) list \<Rightarrow> 'r \<Rightarrow> 'r result" where
  "register_all P [] r = Inr r"
| "register_all P ((k, h) # m) r =
     (case pr_MustRegister P h r of Inl e \<Rightarrow> Inl e | Inr r' \<Rightarrow> register_all P m r')"

definition registerCounter :: "'r prometheus \<Rightarrow> 'r \<Rightarrow> ((string \<times> metric_opts) list \<times> 'r) result" where
  "registerCounter P registry =
     (let vec = (\<lambda>name help labels. \<lparr>mo_kind = CounterVec, mo_Name = metricsPrefix @ name, mo_Help = help, mo_labels = labels\<rparr>);
          m = [(CounterInvalidRequest, vec CounterInvalidRequest ''Total invalid announce counter'' [LabelReason]),
               (CounterUDPRequest, vec CounterUDPRequest ''Total udp request counter'' [LabelAction]),
               (CounterUDPRequestError, vec CounterUDPRequestError ''Total udp request error counter'' [LabelReason, LabelAction]),
               (CounterAnnounce, vec CounterAnnounce ''Total announce counter'' [LabelClient, LabelSource])]
      in case register_all P m registry of Inl e \<Rightarrow> Inl e | Inr r \<Rightarrow> Inr (m, r))"

definition registerHistogram :: "'r prometheus \<Rightarrow> 'r \<Rightarrow> ((string \<times> metric_opts) list \<times> 'r) result" where
  "registerHistogram P registry =
     (let m = [(HistogramLatency, \<lparr>mo_kind = HistogramVec [5000, 10000, 25000, 50000, 100000, 250000, 500000, 1000000],
                 mo_Name = metricsPrefix @ HistogramLatency,
                 mo_Help = ''Latency (microseconds) of UDP that had been application-level handled by the server.'',
                 mo_labels = [LabelAction]\<rparr>)]
      in case register_all P m registry of Inl e \<Rightarrow> Inl e | Inr r \<Rightarrow> Inr (m, r))"

definition registerGauge :: "'r prometheus \<Rightarrow> 'r \<Rightarrow> ((string \<times> metric_opts) list \<times> 'r) result" where
  "registerGauge P registry =
     (let m = [(GaugePeer, \<lparr>mo_kind = GaugeVec, mo_Name = metricsPrefix @ GaugePeer, mo_Help = ''Peer counts per shard'',
                 mo_labels = [LabelShards]\<rparr>),
               (GaugeTorrent, \<lparr>mo_kind = GaugeVec, mo_Name = metricsPrefix @ GaugeTorrent, mo_Help = ''Torrent counts per shard'',
                 mo_labels = [LabelShards]\<rparr>),
               (GaugeTorrentTotal, \<lparr>mo_kind = GaugeFunc, mo_Name = metricsPrefix @ GaugeTorrentTotal,
                 mo_Help = ''Total Torrent numbers'', mo_labels = []\<rparr>)]
      in case register_all P m registry of Inl e \<Rightarrow> Inl e | Inr r \<Rightarrow> Inr (m, r))"

definition metrics_Init :: "'r prometheus \<Rightarrow> Config \<Rightarrow> 'r metrics_state \<Rightarrow> 'r metrics_state result" where
  "metrics_Init P cfg s =
     (let r = pr_NewRegistry P in
      if t_EnableMetrics (c_Tracker cfg) then
        (case registerCounter P r of
           Inl e \<Rightarrow> Inl e
         | Inr (counters, r) \<Rightarrow>
             (case registerHistogram P r of
                Inl e \<Rightarrow> Inl e
              | Inr (histograms, r) \<Rightarrow>
                  (case registerGauge P r of
                     Inl e \<Rightarrow> Inl e
                   | Inr (gauges, r) \<Rightarrow>
                       Inr (s\<lparr>ms_registry := Some r, ms_counterHandler := counters, ms_histogramHandler := histograms,
                              ms_gaugeHandler := gauges\<rparr>))))
      else Inr (s\<lparr>ms_registry := Some r\<rparr>))"

text \<open>\<^verbatim>\<open>GetRegistry\<close> initialises once more, the first time it is called with a registry.\<close>

definition GetRegistry :: "'r prometheus \<Rightarrow> Config \<Rightarrow> 'r metrics_state \<Rightarrow> ('r option \<times> 'r metrics_state) result" where
  "GetRegistry P cfg s =
     (if ms_registry s \<noteq> None \<and> \<not> ms_once s then
        (case metrics_Init P cfg (s\<lparr>ms_once := True\<rparr>) of Inl e \<Rightarrow> Inl e | Inr s' \<Rightarrow> Inr (ms_registry s', s'))
      else Inr (ms_registry s, s))"

section \<open>Emission\<close>

definition counterAdd ::
  "'r prometheus \<Rightarrow> metric_opts \<Rightarrow> int \<Rightarrow> labels \<Rightarrow> 'r metrics_state \<Rightarrow> unit result \<times> 'r metrics_state" where
  "counterAdd P counterVec value labels s =
     (case pr_GetMetricWith P counterVec labels of
        Some err \<Rightarrow> (Inl err, s)
      | None \<Rightarrow> (Inr (), s\<lparr>ms_added := ms_added s @ [(mo_Name counterVec, labels, value)]\<rparr>))"

definition histogramObserve ::
  "'r prometheus \<Rightarrow> metric_opts \<Rightarrow> int \<Rightarrow> labels \<Rightarrow> 'r metrics_state \<Rightarrow> unit result \<times> 'r metrics_state" where
  "histogramObserve P histogramVec value labels s =
     (case pr_GetMetricWith P histogramVec labels of
        Some err \<Rightarrow> (Inl err, s)
      | None \<Rightarrow> (Inr (), s\<lparr>ms_observed := ms_observed s @ [(mo_Name histogramVec, labels, value)]\<rparr>))"

definition gaugeSet ::
  "'r prometheus \<Rightarrow> metric_opts \<Rightarrow> uint64 \<Rightarrow> labels \<Rightarrow> 'r metrics_state \<Rightarrow> unit result \<times> 'r metrics_state" where
  "gaugeSet P gaugeVec value labels s =
     (case pr_GetMetricWith P gaugeVec labels of
        Some err \<Rightarrow> (Inl err, s)
      | None \<Rightarrow> (Inr (), s\<lparr>ms_set := ms_set s @ [(mo_Name gaugeVec, labels, value)]\<rparr>))"

definition EmitCounter ::
  "'r prometheus \<Rightarrow> Config \<Rightarrow> string \<Rightarrow> int \<Rightarrow> labels \<Rightarrow> 'r metrics_state \<Rightarrow> 'r metrics_state" where
  "EmitCounter P cfg metrics value labels s =
     (if \<not> t_EnableMetrics (c_Tracker cfg) then s
      else case map_of (ms_counterHandler s) metrics of
        Some handler \<Rightarrow> snd (counterAdd P handler value labels s)
      | None \<Rightarrow> s)"

definition ObserveHistogram ::
  "'r prometheus \<Rightarrow> Config \<Rightarrow> string \<Rightarrow> int \<Rightarrow> labels \<Rightarrow> 'r metrics_state \<Rightarrow> 'r metrics_state" where
  "ObserveHistogram P cfg metrics cost labels s =
     (if \<not> t_EnableMetrics (c_Tracker cfg) then s
      else case map_of (ms_histogramHandler s) metrics of
        Some handler \<Rightarrow> snd (histogramObserve P handler cost labels s)
      | None \<Rightarrow> s)"

text \<open>
  The function behind the gauge of all torrents, called at every collection: it asks the manager when it has no
  statistic yet or has reused the last one twenty times, and sets the gauges of the shards. \<open>m\<close> is the map of gauges
  that the closure captured.
\<close>

definition set_shard ::
  "'r prometheus \<Rightarrow> (string \<times> metric_opts) list \<Rightarrow> 'r metrics_state \<Rightarrow> string \<times> StatisticInfo \<Rightarrow> 'r metrics_state" where
  "set_shard P m s sv =
     (case (map_of m GaugePeer, map_of m GaugeTorrent) of
        (Some p, Some t) \<Rightarrow>
          snd (gaugeSet P t (TotalTorrents (snd sv)) [(LabelShards, fst sv)]
            (snd (gaugeSet P p (TotalPeers (snd sv)) [(LabelShards, fst sv)] s)))
      | _ \<Rightarrow> s)"

definition torrents_total ::
  "'r prometheus \<Rightarrow> ('e, 's) PeerManager \<Rightarrow> (string \<times> metric_opts) list \<Rightarrow> 'e \<times> 's \<Rightarrow> 'r metrics_state \<Rightarrow>
   uint64 \<times> 'r metrics_state" where
  "torrents_total P PM m call s =
     (let report = (\<lambda>info s. (TotalTorrents info, foldl (set_shard P m) s (Shards info))) in
      case (if ms_fetchCount s = 20 then None else ms_info s) of
        None \<Rightarrow>
          (case pm_GetStatistic PM (fst call) (snd call) of
             Inl err \<Rightarrow> (0, s\<lparr>ms_info := None\<rparr>)
           | Inr info \<Rightarrow> report info (s\<lparr>ms_info := Some info, ms_fetchCount := 0\<rparr>))
      | Some info \<Rightarrow> report info (s\<lparr>ms_fetchCount := ms_fetchCount s + 1\<rparr>))"

section \<open>Where metrics are emitted\<close>

text \<open>Announces of the four front ends; \<open>re\<close> is the regular expression engine of \<^const>\<open>ParsePeerID\<close>.\<close>

definition announce_labels :: "regexp \<Rightarrow> string \<Rightarrow> string \<Rightarrow> labels" where
  "announce_labels re source peerID = [(LabelSource, source), (LabelClient, ParsePeerID re peerID)]"

definition http_announce_metric :: "regexp \<Rightarrow> string \<Rightarrow> string \<times> labels" where
  "http_announce_metric re peerID = (CounterAnnounce, announce_labels re ''http'' peerID)"

definition udp_announce_metric :: "regexp \<Rightarrow> string \<Rightarrow> string \<times> labels" where
  "udp_announce_metric re peerID = (CounterAnnounce, announce_labels re ''udp'' peerID)"

definition ws_announce_metric :: "regexp \<Rightarrow> string \<Rightarrow> string \<times> labels" where
  "ws_announce_metric re peerID = (CounterAnnounce, announce_labels re ''websocket'' peerID)"

text \<open>\<^verbatim>\<open>trunker.Source\<close> of the IDL, and the name that the RPC server gives to it.\<close>

definition sourceToMetrics :: "idl_enum \<Rightarrow> string" where
  "sourceToMetrics s =
     (if s = 0 then ''http'' else if s = 1 then ''udp'' else if s = 2 then ''ws'' else ''http'')"

definition rpc_announce_metric :: "regexp \<Rightarrow> idl_enum \<Rightarrow> string \<Rightarrow> string \<times> labels" where
  "rpc_announce_metric re source peerID = (CounterAnnounce, announce_labels re (sourceToMetrics source) peerID)"

text \<open>Refused requests: binding failed, or \<^verbatim>\<open>validAnnounceReq\<close> found an error.\<close>

definition bind_error_metric :: "string \<times> labels" where
  "bind_error_metric = (CounterInvalidRequest, [(LabelReason, ''bind error'')])"

definition invalid_request_metric :: "'a HttpAnnounceRequest_scheme \<Rightarrow> (string \<times> labels) option" where
  "invalid_request_metric req =
     (if length (r_InfoHash req) \<noteq> 20 \<or> length (r_PeerID req) \<noteq> 20
      then Some (CounterInvalidRequest, [(LabelReason, ''info hash or peer id length error'')])
      else if \<not> (r_Port req \<ge> 0 \<and> r_Port req < 65535)
      then Some (CounterInvalidRequest, [(LabelReason, ''invalid port'')])
      else None)"

text \<open>\<^verbatim>\<open>OnTraffic\<close> of the UDP server, after the request: its error, the action the handler noted, and the time it took.\<close>

definition udp_request_metrics ::
  "'r prometheus \<Rightarrow> Config \<Rightarrow> error option \<Rightarrow> string option \<Rightarrow> int \<Rightarrow> 'r metrics_state \<Rightarrow> 'r metrics_state" where
  "udp_request_metrics P cfg err context cost s =
     (let s = (case err of
                 Some e \<Rightarrow> EmitCounter P cfg CounterUDPRequestError 1 [(LabelReason, e), (LabelAction, ''unknown'')] s
               | None \<Rightarrow> s);
          action = (case context of Some a \<Rightarrow> a | None \<Rightarrow> ''unknown'');
          s = EmitCounter P cfg CounterUDPRequest 1 [(LabelAction, action)] s
      in ObserveHistogram P cfg HistogramLatency cost [(LabelAction, action)] s)"

end
