(* ===== verification/Metrics_Props.thy ===== *)
theory Metrics_Props
  imports Metrics Persist_Props
begin

text \<open>
  The properties of the metrics, for every metrics library that keeps the promises of \<open>prom_laws\<close>: a name that is not
  taken can be registered, and labels are accepted when their names are those of the vector and their values are
  plain ASCII.
\<close>

section \<open>The library\<close>

definition plain :: "string \<Rightarrow> bool" where
  "plain v \<longleftrightarrow> (\<forall>c \<in> set v. of_char c < (128 :: nat))"

definition prom_laws :: "'r prometheus \<Rightarrow> ('r \<Rightarrow> string set) \<Rightarrow> bool" where
  "prom_laws P names \<longleftrightarrow>
     names (pr_NewRegistry P) = {} \<and>
     (\<forall>o' r. mo_Name o' \<notin> names r \<longrightarrow> (\<exists>r'. pr_MustRegister P o' r = Inr r' \<and> names r' = insert (mo_Name o') (names r))) \<and>
     (\<forall>o' ls. set (map fst ls) = set (mo_labels o') \<and> distinct (map fst ls) \<and> (\<forall>(n, v) \<in> set ls. plain v) \<longrightarrow>
        pr_GetMetricWith P o' ls = None)"

text \<open>A library that keeps the names it has seen.\<close>

definition nameProm :: "string list prometheus" where
  "nameProm = \<lparr>pr_NewRegistry = [],
     pr_MustRegister = (\<lambda>o' r. if mo_Name o' \<in> set r then Inl ''duplicate metrics collector registration attempted'' else Inr (mo_Name o' # r)),
     pr_GetMetricWith = (\<lambda>o' ls. if set (map fst ls) = set (mo_labels o') \<and> distinct (map fst ls) \<and> list_all (\<lambda>(n, v). plain v) ls
       then None else Some ''inconsistent label cardinality'')\<rparr>"

lemma nameProm_laws: "prom_laws nameProm set"
  by (auto simp: prom_laws_def nameProm_def list_all_iff)

lemma MustRegister_new:
  "prom_laws P names \<Longrightarrow> mo_Name h \<notin> names r \<Longrightarrow>
   \<exists>r'. pr_MustRegister P h r = Inr r' \<and> names r' = insert (mo_Name h) (names r)"
  by (simp add: prom_laws_def)

lemma GetMetricWith_ok:
  "prom_laws P names \<Longrightarrow> set (map fst ls) = set (mo_labels h) \<Longrightarrow> distinct (map fst ls) \<Longrightarrow> \<forall>(n, v) \<in> set ls. plain v \<Longrightarrow>
   pr_GetMetricWith P h ls = None"
  by (simp add: prom_laws_def)

lemma register_all_names:
  assumes "prom_laws P names" and "distinct (map (mo_Name \<circ> snd) m)" and "names r \<inter> (mo_Name \<circ> snd) ` set m = {}"
  shows "\<exists>r'. register_all P m r = Inr r' \<and> names r' = names r \<union> (mo_Name \<circ> snd) ` set m"
  using assms(2,3)
proof (induction m arbitrary: r)
  case (Cons kh m)
  obtain k h where kh: "kh = (k, h)" by (cases kh)
  then have "mo_Name h \<notin> names r" using Cons.prems(2) by auto
  then obtain r1 where "pr_MustRegister P h r = Inr r1" "names r1 = insert (mo_Name h) (names r)"
    using MustRegister_new [OF assms(1)] by blast
  with Cons.IH [of r1] Cons.prems show ?case by (auto simp: kh)
qed simp

text \<open>The start registers every metric, and the counters and the histogram have the labels that are emitted with them.\<close>

definition counter_labels :: "(string \<times> string list) list" where
  "counter_labels = [(CounterInvalidRequest, [LabelReason]), (CounterUDPRequest, [LabelAction]),
     (CounterUDPRequestError, [LabelReason, LabelAction]), (CounterAnnounce, [LabelClient, LabelSource])]"

lemma registerCounter_ready:
  assumes "prom_laws P names" and "names r = {}"
  shows "\<exists>m r'. registerCounter P r = Inr (m, r') \<and> names r' = (\<lambda>(k, ls). metricsPrefix @ k) ` set counter_labels \<and>
    (\<forall>k ls. map_of counter_labels k = Some ls \<longrightarrow>
       (\<exists>h. map_of m k = Some h \<and> mo_Name h = metricsPrefix @ k \<and> mo_labels h = ls))"
proof -
  let ?vec = "\<lambda>name help labels. \<lparr>mo_kind = CounterVec, mo_Name = metricsPrefix @ name, mo_Help = help, mo_labels = labels\<rparr>"
  let ?m = "[(CounterInvalidRequest, ?vec CounterInvalidRequest ''Total invalid announce counter'' [LabelReason]),
     (CounterUDPRequest, ?vec CounterUDPRequest ''Total udp request counter'' [LabelAction]),
     (CounterUDPRequestError, ?vec CounterUDPRequestError ''Total udp request error counter'' [LabelReason, LabelAction]),
     (CounterAnnounce, ?vec CounterAnnounce ''Total announce counter'' [LabelClient, LabelSource])]"
  have "distinct (map (mo_Name \<circ> snd) ?m)" by (simp add: counter_defs)
  with register_all_names [OF assms(1), of ?m r] assms(2)
  obtain r' where "register_all P ?m r = Inr r'" "names r' = (mo_Name \<circ> snd) ` set ?m" by auto
  then have "registerCounter P r = Inr (?m, r') \<and> names r' = (\<lambda>(k, ls). metricsPrefix @ k) ` set counter_labels"
    by (simp add: registerCounter_def Let_def counter_labels_def)
  moreover have "\<forall>k ls. map_of counter_labels k = Some ls \<longrightarrow>
      (\<exists>h. map_of ?m k = Some h \<and> mo_Name h = metricsPrefix @ k \<and> mo_labels h = ls)"
    by (auto simp: counter_labels_def)
  ultimately show ?thesis by blast
qed

lemma registerHistogram_ready:
  assumes "prom_laws P names" and "metricsPrefix @ HistogramLatency \<notin> names r"
  shows "\<exists>h r'. registerHistogram P r = Inr ([(HistogramLatency, h)], r') \<and>
    names r' = insert (metricsPrefix @ HistogramLatency) (names r) \<and>
    mo_Name h = metricsPrefix @ HistogramLatency \<and> mo_labels h = [LabelAction]"
proof -
  let ?h = "\<lparr>mo_kind = HistogramVec [5000, 10000, 25000, 50000, 100000, 250000, 500000, 1000000],
    mo_Name = metricsPrefix @ HistogramLatency,
    mo_Help = ''Latency (microseconds) of UDP that had been application-level handled by the server.'', mo_labels = [LabelAction]\<rparr>"
  obtain r' where "pr_MustRegister P ?h r = Inr r'" "names r' = insert (metricsPrefix @ HistogramLatency) (names r)"
    using MustRegister_new [OF assms(1), of ?h r] assms(2) by auto
  then show ?thesis by (auto simp: registerHistogram_def Let_def)
qed

lemma registerGauge_ready:
  assumes "prom_laws P names"
    and "names r \<inter> {metricsPrefix @ GaugePeer, metricsPrefix @ GaugeTorrent, metricsPrefix @ GaugeTorrentTotal} = {}"
  shows "\<exists>m r'. registerGauge P r = Inr (m, r')"
proof -
  let ?vec = "\<lambda>kind name help labels. \<lparr>mo_kind = kind, mo_Name = metricsPrefix @ name, mo_Help = help, mo_labels = labels\<rparr>"
  let ?m = "[(GaugePeer, ?vec GaugeVec GaugePeer ''Peer counts per shard'' [LabelShards]),
    (GaugeTorrent, ?vec GaugeVec GaugeTorrent ''Torrent counts per shard'' [LabelShards]),
    (GaugeTorrentTotal, ?vec GaugeFunc GaugeTorrentTotal ''Total Torrent numbers'' [])]"
  have "distinct (map (mo_Name \<circ> snd) ?m)" by (simp add: gauge_defs)
  with register_all_names [OF assms(1), of ?m r] assms(2) obtain r' where "register_all P ?m r = Inr r'" by auto
  then have "registerGauge P r = Inr (?m, r')" by (simp add: registerGauge_def Let_def)
  then show ?thesis by blast
qed

lemma Init_ready:
  assumes "prom_laws P names" and "t_EnableMetrics (c_Tracker cfg)"
  obtains s1 h where "metrics_Init P cfg s = Inr s1" and "ms_added s1 = ms_added s" and "ms_observed s1 = ms_observed s"
    and "\<And>k ls. map_of counter_labels k = Some ls \<Longrightarrow>
      \<exists>h. map_of (ms_counterHandler s1) k = Some h \<and> mo_Name h = metricsPrefix @ k \<and> mo_labels h = ls"
    and "ms_histogramHandler s1 = [(HistogramLatency, h)]" and "mo_Name h = metricsPrefix @ HistogramLatency"
    and "mo_labels h = [LabelAction]"
proof -
  have "names (pr_NewRegistry P) = {}" using assms(1) by (simp add: prom_laws_def)
  from registerCounter_ready [OF assms(1) this] obtain m r1 where
    c: "registerCounter P (pr_NewRegistry P) = Inr (m, r1)" "names r1 = (\<lambda>(k, ls). metricsPrefix @ k) ` set counter_labels"
    and m: "\<And>k ls. map_of counter_labels k = Some ls \<Longrightarrow>
      \<exists>h. map_of m k = Some h \<and> mo_Name h = metricsPrefix @ k \<and> mo_labels h = ls" by blast
  have "metricsPrefix @ HistogramLatency \<notin> names r1"
    by (simp add: c(2) counter_labels_def counter_defs gauge_defs)
  from registerHistogram_ready [OF assms(1) this] obtain h r2 where
    hs: "registerHistogram P r1 = Inr ([(HistogramLatency, h)], r2)" "mo_Name h = metricsPrefix @ HistogramLatency"
      "mo_labels h = [LabelAction]" "names r2 = insert (metricsPrefix @ HistogramLatency) (names r1)" by blast
  have "names r2 \<inter> {metricsPrefix @ GaugePeer, metricsPrefix @ GaugeTorrent, metricsPrefix @ GaugeTorrentTotal} = {}"
    by (simp add: hs(4) c(2) counter_labels_def counter_defs gauge_defs)
  from registerGauge_ready [OF assms(1) this] obtain g r3 where "registerGauge P r2 = Inr (g, r3)" by blast
  then have "metrics_Init P cfg s = Inr (s\<lparr>ms_registry := Some r3, ms_counterHandler := m,
      ms_histogramHandler := [(HistogramLatency, h)], ms_gaugeHandler := g\<rparr>)"
    using assms(2) by (simp add: metrics_Init_def Let_def c(1) hs(1))
  then show ?thesis by (rule that [where h = h]) (simp_all add: m hs)
qed

section \<open>Every emission is counted\<close>

text \<open>The emissions of the front ends.\<close>

definition front_end_metrics :: "regexp \<Rightarrow> idl_enum \<Rightarrow> string \<Rightarrow> 'a HttpAnnounceRequest_scheme \<Rightarrow> (string \<times> labels) list" where
  "front_end_metrics re source peerID req =
     [http_announce_metric re peerID, udp_announce_metric re peerID, ws_announce_metric re peerID,
      rpc_announce_metric re source peerID, bind_error_metric] @
     (case invalid_request_metric req of None \<Rightarrow> [] | Some e \<Rightarrow> [e])"

lemma plain_texts:
  "plain ''http''" "plain ''udp''" "plain ''websocket''" "plain ''ws''" "plain ''bind error''" "plain ''invalid port''"
  "plain ''info hash or peer id length error''" "plain ''unknown''"
  by code_simp+

lemma counter_labels_of:
  "map_of counter_labels CounterInvalidRequest = Some [LabelReason]"
  "map_of counter_labels CounterUDPRequest = Some [LabelAction]"
  "map_of counter_labels CounterUDPRequestError = Some [LabelReason, LabelAction]"
  "map_of counter_labels CounterAnnounce = Some [LabelClient, LabelSource]"
  by code_simp+

lemma front_end_labels:
  assumes "e \<in> set (front_end_metrics re source peerID req)" and "plain (ParsePeerID re peerID)"
  shows "\<exists>ls. map_of counter_labels (fst e) = Some ls \<and> set (map fst (snd e)) = set ls \<and> distinct (map fst (snd e)) \<and>
    (\<forall>(n, v) \<in> set (snd e). plain v)"
proof -
  have ne: "LabelSource \<noteq> LabelClient" by (simp add: label_defs)
  have "plain (sourceToMetrics source)" by (simp add: sourceToMetrics_def plain_texts)
  then consider src where "plain src" "e = (CounterAnnounce, announce_labels re src peerID)"
    | reason where "plain reason" "e = (CounterInvalidRequest, [(LabelReason, reason)])"
    using assms(1) plain_texts
    by (auto simp: front_end_metrics_def http_announce_metric_def udp_announce_metric_def ws_announce_metric_def
        rpc_announce_metric_def bind_error_metric_def invalid_request_metric_def split: if_splits)
  then show ?thesis
    by cases (use ne assms(2) in \<open>auto simp: announce_labels_def counter_labels_of\<close>)
qed


definition metricsCfg :: Config where
  "metricsCfg = demoCfg\<lparr>c_Tracker := (c_Tracker demoCfg)\<lparr>t_EnableMetrics := True\<rparr>\<rparr>"


section \<open>The gauge of all torrents\<close>

text \<open>A sequence of collections, each with the state of the manager at its time.\<close>

fun collections ::
  "'r prometheus \<Rightarrow> ('e, 's) PeerManager \<Rightarrow> (string \<times> metric_opts) list \<Rightarrow> ('e \<times> 's) list \<Rightarrow> 'r metrics_state \<Rightarrow>
   uint64 list \<times> 'r metrics_state" where
  "collections P PM m [] s = ([], s)"
| "collections P PM m (x # xs) s =
     (case torrents_total P PM m x s of (v, s) \<Rightarrow> (case collections P PM m xs s of (vs, s) \<Rightarrow> (v # vs, s)))"

lemma collections_snoc:
  "collections P PM m (xs @ [x]) s =
     (case collections P PM m xs s of (vs, s) \<Rightarrow> (case torrents_total P PM m x s of (v, s) \<Rightarrow> (vs @ [v], s)))"
  by (induction xs arbitrary: s) (simp_all split: prod.splits)

lemma gauge_keeps:
  "ms_info (foldl (set_shard P m) s svs) = ms_info s" "ms_fetchCount (foldl (set_shard P m) s svs) = ms_fetchCount s"
  by (induction svs arbitrary: s) (auto simp: set_shard_def gaugeSet_def split: option.splits)

lemma fetch_mod: "0 < n \<Longrightarrow> n mod 21 = (if (n - 1) mod 21 = 20 then 0 else Suc ((n - 1) mod 21))" for n :: nat
  by (cases n) (simp_all add: mod_Suc)

lemma fetch_count_20: "k < 21 \<Longrightarrow> (of_nat k :: uint32) = 20 \<longleftrightarrow> k = 20"
proof -
  assume "k < 21"
  then have "unat (of_nat k :: uint32) = k" by (simp add: unat_of_nat take_bit_nat_eq_self)
  moreover have "unat (20 :: uint32) = 20" by simp
  ultimately show ?thesis by (metis of_nat_numeral)
qed

lemma collections_state:
  assumes "\<And>x. x \<in> set xs \<Longrightarrow> pm_GetStatistic PM (fst x) (snd x) = Inr (f x)" and "ms_info s = None"
  shows "case collections P PM m xs s of (vs, s') \<Rightarrow>
    vs = map (\<lambda>n. TotalTorrents (f (xs ! (n - n mod 21)))) [0..<length xs] \<and>
    (if xs = [] then ms_info s' = None
     else ms_info s' = Some (f (xs ! (length xs - 1 - (length xs - 1) mod 21))) \<and>
       ms_fetchCount s' = of_nat ((length xs - 1) mod 21))"
  using assms(1)
proof (induction xs rule: rev_induct)
  case Nil
  then show ?case using assms(2) by simp
next
  case (snoc x xs)
  let ?n = "length xs"
  obtain vs s1 where c: "collections P PM m xs s = (vs, s1)" by (cases "collections P PM m xs s")
  have IH: "vs = map (\<lambda>n. TotalTorrents (f (xs ! (n - n mod 21)))) [0..<?n]"
    "if xs = [] then ms_info s1 = None
     else ms_info s1 = Some (f (xs ! (?n - 1 - (?n - 1) mod 21))) \<and> ms_fetchCount s1 = of_nat ((?n - 1) mod 21)"
    using snoc.IH snoc.prems by (simp_all add: c)
  have fx: "pm_GetStatistic PM (fst x) (snd x) = Inr (f x)" using snoc.prems by simp
  obtain v s2 where t: "torrents_total P PM m x s1 = (v, s2)" by (cases "torrents_total P PM m x s1")
  have "v = TotalTorrents (f ((xs @ [x]) ! (?n - ?n mod 21))) \<and> ms_info s2 = Some (f ((xs @ [x]) ! (?n - ?n mod 21))) \<and>
      ms_fetchCount s2 = of_nat (?n mod 21)"
  proof (cases "?n mod 21 = 0")
    case True
    then have "xs = [] \<or> (?n - 1) mod 21 = 20"
      using fetch_mod [of ?n] by (cases "xs = []") (simp_all split: if_splits)
    then have "(if ms_fetchCount s1 = 20 then None else ms_info s1) = None" using IH(2) by (auto split: if_splits)
    then show ?thesis using t fx True by (auto simp: torrents_total_def Let_def gauge_keeps simp del: if_split_asm split del: if_split)
  next
    case False
    then have ne: "xs \<noteq> []" by auto
    then have k: "?n mod 21 = Suc ((?n - 1) mod 21)" "(?n - 1) mod 21 \<noteq> 20"
      using fetch_mod [of ?n] False by (simp_all split: if_splits)
    have "ms_fetchCount s1 \<noteq> 20" using IH(2) ne k(2) fetch_count_20 [of "(?n - 1) mod 21"] by simp
    moreover have "?n - ?n mod 21 = ?n - 1 - (?n - 1) mod 21" "?n - ?n mod 21 < ?n" using k ne False by (simp_all add: length_greater_0_conv)
    ultimately show ?thesis using t IH(2) ne k(1)
      by (auto simp: torrents_total_def Let_def gauge_keeps nth_append add.commute)
  qed
  moreover have "map (\<lambda>n. TotalTorrents (f ((xs @ [x]) ! (n - n mod 21)))) [0..<?n] = vs"
    unfolding IH(1) by (rule map_cong) (auto simp: nth_append less_imp_diff_less)
  ultimately show ?case by (simp add: collections_snoc c t)
qed

text \<open>
  What the gauge of all torrents shows: the first collection asks the manager, the next twenty repeat its answer,
  the twenty-second asks again, and so on. So a value is the exact number of torrents at the last collection whose
  number is a multiple of twenty-one, as long as the manager answers.
\<close>

theorem gauge_stale:
  assumes "\<And>x. x \<in> set xs \<Longrightarrow> pm_GetStatistic PM (fst x) (snd x) = Inr (f x)" and "ms_info s = None"
  shows "fst (collections P PM m xs s) = map (\<lambda>n. TotalTorrents (f (xs ! (n - n mod 21)))) [0..<length xs]"
  using collections_state [where P = P and m = m and xs = xs, OF assms] by (auto split: prod.splits)

text \<open>A torrent that appears between two collections is not seen by the second.\<close>

theorem gauge_stale_witness:
  "fst (collections nameProm (mux_PeerManager syncMaps exactBloom fallbackOps demoCfg (downClient :: unit RedisClient) undefined demoStore) []
     [(undefined, demoMux, ()), (undefined, storedMux, ())] metrics_zero) = [0, 0] \<and>
   TotalTorrents (mux_GetStatistic syncMaps storedMux) = 1"
proof -
  let ?xs = "[(undefined :: mux_env, demoMux, ()), (undefined, storedMux, ())]"
  have "fst (collections nameProm (mux_PeerManager syncMaps exactBloom fallbackOps demoCfg (downClient :: unit RedisClient)
      undefined demoStore) [] ?xs metrics_zero) =
    map (\<lambda>n. TotalTorrents ((mux_GetStatistic syncMaps \<circ> fst \<circ> snd) (?xs ! (n - n mod 21)))) [0..<length ?xs]"
    by (rule gauge_stale [where xs = ?xs and f = "mux_GetStatistic syncMaps \<circ> fst \<circ> snd"])
      (auto simp: mux_PeerManager_def metrics_zero_def)
  moreover have "TotalTorrents (mux_GetStatistic syncMaps demoMux) = 0" "TotalTorrents (mux_GetStatistic syncMaps storedMux) = 1"
    by code_simp+
  ultimately show ?thesis by (simp add: upt_rec)
qed

end
