(* ===== verification/Startup.thy ===== *)
theory Startup
  imports Lifecycle Admin Metrics
begin

text \<open>
  How the program is put together: \<^verbatim>\<open>main.go\<close>, the rest of \<^verbatim>\<open>init.go\<close>, the routes (\<^verbatim>\<open>router.go\<close>, \<^verbatim>\<open>router_gen.go\<close>), the handler of
  \<^verbatim>\<open>/ping\<close>, the log of slow queries (\<^verbatim>\<open>biz/middleware/log.go\<close>), and what the constructors of library clients and servers
  are called with (\<^verbatim>\<open>service/database\<close>, \<^verbatim>\<open>service/cache\<close>, \<^verbatim>\<open>service/mq/producer\<close>, \<^verbatim>\<open>biz/services/rpc/server.go\<close>,
  \<^verbatim>\<open>biz/services/peer/rpc/client.go\<close>). The outcome of a library call is an argument; a panic or a fatal log ends the
  program and is \<^term>\<open>Inl\<close>. Durations are in nanoseconds.
\<close>

section \<open>Library clients and servers\<close>

datatype log_mode = LogInfo | LogSilent

record db_options =
  dbo_DSN :: string
  dbo_SkipDefaultTransaction :: bool
  dbo_PrepareStmt :: bool
  dbo_Logger :: log_mode
  dbo_MaxIdleConns :: int
  dbo_MaxOpenConns :: int
  dbo_ConnMaxLifetime :: int

definition db_DSN :: "databaseConfig \<Rightarrow> string" where
  "db_DSN endpoint = db_User endpoint @ '':'' @ db_Pass endpoint @ ''@tcp('' @ db_Host endpoint @ '':'' @ Itoa (db_Port endpoint) @
     '')/'' @ db_Database endpoint @ ''?charset=utf8mb4&loc=Local&parseTime=True''"

text \<open>\<open>open_err\<close> and \<open>db_err\<close> are the errors of \<^verbatim>\<open>gorm.Open\<close> and \<^verbatim>\<open>db.DB\<close>.\<close>

definition InitDB :: "string \<Rightarrow> Config \<Rightarrow> error option \<Rightarrow> error option \<Rightarrow> db_options result" where
  "InitDB run_env cfg open_err db_err =
     (let log = (if run_env = ''prod'' then LogSilent else LogInfo) in
      case open_err of
        Some e \<Rightarrow> Inl e
      | None \<Rightarrow>
          (case db_err of
             Some e \<Rightarrow> Inl e
           | None \<Rightarrow> Inr \<lparr>dbo_DSN = db_DSN (t_Database (c_Tracker cfg)), dbo_SkipDefaultTransaction = True,
               dbo_PrepareStmt = True, dbo_Logger = log, dbo_MaxIdleConns = 10, dbo_MaxOpenConns = 150,
               dbo_ConnMaxLifetime = 3600 * 1000000000\<rparr>))"

record redis_options =
  rdo_Addr :: string
  rdo_Network :: string
  rdo_DialTimeout :: int
  rdo_WriteTimeout :: int
  rdo_ReadTimeout :: int
  rdo_Password :: string
  rdo_DB :: int

definition cache_Init :: "Config \<Rightarrow> redis_options" where
  "cache_Init cfg = \<lparr>rdo_Addr = redis_Addr (c_Cache cfg), rdo_Network = redis_Network (c_Cache cfg),
     rdo_DialTimeout = 100 * 1000000, rdo_WriteTimeout = - 2, rdo_ReadTimeout = - 2, rdo_Password = [], rdo_DB = 0\<rparr>"

text \<open>The name servers and the number of retries of the producer, once it is made and started.\<close>

definition producer_Init :: "Config \<Rightarrow> error option \<Rightarrow> error option \<Rightarrow> (string list \<times> int) result" where
  "producer_Init cfg new_err start_err =
     (case new_err of
        Some e \<Rightarrow> Inl e
      | None \<Rightarrow> (case start_err of Some e \<Rightarrow> Inl e | None \<Rightarrow> Inr ([mq_Endpoint (c_RocketMq cfg)], 2)))"

record rpc_client_options =
  rco_Service :: string
  rco_HostPorts :: string
  rco_RPCTimeout :: int
  rco_ConnectTimeout :: int

definition rpc_NewManager :: "string \<Rightarrow> rpc_client_options" where
  "rpc_NewManager target = \<lparr>rco_Service = ''pbh.btn.trunker'', rco_HostPorts = target,
     rco_RPCTimeout = 5 * 1000000000, rco_ConnectTimeout = 3 * 1000000000\<rparr>"

text \<open>The RPC server: the address resolved by the library, and the end of the run.\<close>

definition StartRPCServer :: "(string \<Rightarrow> 'a result) \<Rightarrow> ('a \<Rightarrow> error option) \<Rightarrow> string \<Rightarrow> unit result" where
  "StartRPCServer resolve run hostPort =
     (case resolve hostPort of
        Inl e \<Rightarrow> Inl (''invalid rpc listen address:'' @ e)
      | Inr addr \<Rightarrow> (case run addr of Some e \<Rightarrow> Inl (''run rpc server error:'' @ e) | None \<Rightarrow> Inr ()))"

section \<open>Options of the servers\<close>

datatype 'r server_option =
  WithHostPorts string | WithExitWaitTime int | WithTracer string string "'r option" | WithNetwork string

definition getServerOption ::
  "'r prometheus \<Rightarrow> Config \<Rightarrow> 'r metrics_state \<Rightarrow> ('r server_option list \<times> 'r metrics_state) result" where
  "getServerOption P cfg s =
     (let t = c_Tracker cfg;
          options = [WithHostPorts (t_HostPorts t), WithExitWaitTime (60 * 1000000000)];
          unix = (if t_UseUnixSocket t then [WithNetwork ''unix''] else [])
      in if t_EnableMetrics t then
           (case GetRegistry P cfg s of
              Inl e \<Rightarrow> Inl e
            | Inr (registry, s) \<Rightarrow> Inr (options @ [WithTracer (t_MetricsHostPorts t) ''/metrics'' registry] @ unix, s))
         else Inr (options @ unix, s))"

definition initUDPServer :: "Config \<Rightarrow> string" where
  "initUDPServer cfg = ''udp://'' @ udp_HostPorts (t_UDPServer (c_Tracker cfg))"

definition initPprof :: "Config \<Rightarrow> string option" where
  "initPprof cfg = (if 0 < sint (t_DebugPort (c_Tracker cfg)) then Some (''localhost:'' @ Itoa (sint (t_DebugPort (c_Tracker cfg)))) else None)"

section \<open>Routes and middlewares\<close>

datatype route_handler =
  HPing | HAnnounce | HScrape | HAdminAuth string | HStatistic | HBanInfoHash | HBanPeer | HClearBanInfoHash | HClearBanPeer |
  HBanIP | HUnbanIP | HClearBanIP | HGetIPFilterStats | HGetInfoHashPeers | HDeleteInfoHash | HLogSlowQuery | HAdaptiveLimit

text \<open>
  The web framework: adding a middleware, adding a route with the handlers of its group and its own, and the chain
  of handlers of a route.
\<close>

record 'g engine =
  en_Use :: "route_handler list \<Rightarrow> 'g \<Rightarrow> 'g"
  en_Handle :: "string \<Rightarrow> string \<Rightarrow> route_handler list \<Rightarrow> 'g \<Rightarrow> 'g"
  en_chain :: "'g \<Rightarrow> string \<Rightarrow> string \<Rightarrow> route_handler list option"

definition admin_middleware :: "string \<Rightarrow> route_handler list" where
  "admin_middleware key = (if key \<noteq> [] then [HAdminAuth (''Bearer '' @ key)] else [])"

definition admin_table :: "(string \<times> string \<times> route_handler) list" where
  "admin_table =
     [(''GET'', ''/statistic'', HStatistic), (''PUT'', ''/ban/info_hash'', HBanInfoHash), (''PUT'', ''/ban/peer'', HBanPeer),
      (''DELETE'', ''/ban/info_hash'', HClearBanInfoHash), (''DELETE'', ''/ban/peer'', HClearBanPeer),
      (''PUT'', ''/ban/ip'', HBanIP), (''DELETE'', ''/ban/ip'', HUnbanIP), (''DELETE'', ''/clear/ip/ban'', HClearBanIP),
      (''GET'', ''/ip/filter/stats'', HGetIPFilterStats), (''GET'', ''/info_hash/:infoHash/peers'', HGetInfoHashPeers),
      (''DELETE'', ''/info_hash/:infoHash'', HDeleteInfoHash)]"

definition RegisterAdminRouter :: "'g engine \<Rightarrow> string \<Rightarrow> 'g \<Rightarrow> 'g" where
  "RegisterAdminRouter E key r =
     foldl (\<lambda>r (method, path, h). en_Handle E method (''/admin'' @ path) (admin_middleware key @ [h]) r) r admin_table"

definition customizedRegister :: "'g engine \<Rightarrow> string \<Rightarrow> 'g \<Rightarrow> 'g" where
  "customizedRegister E key r =
     (let r = en_Handle E ''HEAD'' ''/ping'' [HPing] r;
          r = en_Handle E ''GET'' ''/ping'' [HPing] r;
          r = en_Handle E ''GET'' ''/announce'' [HAnnounce] r;
          r = en_Handle E ''GET'' ''/scrape'' [HScrape] r
      in RegisterAdminRouter E key r)"

definition register_routes :: "'g engine \<Rightarrow> string \<Rightarrow> 'g \<Rightarrow> 'g" where
  "register_routes E key r = customizedRegister E key r"

definition Ping :: "int \<times> (string \<times> string) list" where
  "Ping = (200, [(''message'', ''pong'')])"

text \<open>Whether a request that took \<open>cost\<close> is logged as slow.\<close>

definition LogSlowQuery :: "Config \<Rightarrow> int \<Rightarrow> bool" where
  "LogSlowQuery cfg cost =
     (let slowTime = (if t_Mode (c_Tracker cfg) = RunningModeMemory then 100 * 1000000 else 3 * 1000000000)
      in cost > slowTime)"

section \<open>The main program\<close>

record ('g, 'r) main_setup =
  mp_debug_log :: bool
  mp_init :: "init_step list"
  mp_options :: "'r server_option list"
  mp_engine :: 'g
  mp_metrics :: "'r metrics_state"

text \<open>
  \<open>newEngine\<close> is \<^verbatim>\<open>server.Default\<close>, \<open>key\<close> the administration key of the environment. Metrics are initialised by
  \<^const>\<open>program_Init\<close> before the options are made.
\<close>

definition main ::
  "'r prometheus \<Rightarrow> 'g engine \<Rightarrow> ('r server_option list \<Rightarrow> 'g) \<Rightarrow> string \<Rightarrow> string \<Rightarrow> Config \<Rightarrow>
   ('g, 'r) main_setup result" where
  "main P E newEngine key run_env cfg =
     (case metrics_Init P cfg metrics_zero of
        Inl e \<Rightarrow> Inl e
      | Inr s \<Rightarrow>
          (case getServerOption P cfg s of
             Inl e \<Rightarrow> Inl e
           | Inr (options, s) \<Rightarrow>
               (let h = newEngine options;
                    h = register_routes E key h;
                    h = en_Use E [HLogSlowQuery] h;
                    h = en_Use E [HAdaptiveLimit] h
                in Inr \<lparr>mp_debug_log = (run_env \<noteq> ''prod''), mp_init = program_Init cfg, mp_options = options,
                     mp_engine = h, mp_metrics = s\<rparr>)))"

text \<open>The hook at shutdown saves the peers.\<close>

definition OnShutdown :: "('e, 's) PeerManager \<Rightarrow> 'e \<Rightarrow> 's \<Rightarrow> (string \<times> bytes) list" where
  "OnShutdown PM e s = pm_StoreToPersist PM e s"

section \<open>What runs for a request\<close>

text \<open>
  A framework whose routes keep the middlewares that were there when they were registered; \<open>mws\<close> are the ones
  registered so far.
\<close>

definition engine_laws :: "'g engine \<Rightarrow> ('g \<Rightarrow> route_handler list) \<Rightarrow> bool" where
  "engine_laws E mws \<longleftrightarrow>
     (\<forall>m p hs g. mws (en_Handle E m p hs g) = mws g \<and>
        (\<forall>m' p'. en_chain E (en_Handle E m p hs g) m' p' =
           (if m' = m \<and> p' = p then Some (mws g @ hs) else en_chain E g m' p'))) \<and>
     (\<forall>hs g. mws (en_Use E hs g) = mws g @ hs \<and> en_chain E (en_Use E hs g) = en_chain E g)"

definition tableEngine :: "(route_handler list \<times> (string \<Rightarrow> string \<Rightarrow> route_handler list option)) engine" where
  "tableEngine =
     \<lparr>en_Use = (\<lambda>hs (mid, tab). (mid @ hs, tab)),
      en_Handle = (\<lambda>m p hs (mid, tab). (mid, \<lambda>m' p'. if m' = m \<and> p' = p then Some (mid @ hs) else tab m' p')),
      en_chain = snd\<rparr>"

lemma tableEngine_laws: "engine_laws tableEngine fst"
  by (auto simp: engine_laws_def tableEngine_def)

lemma admin_chains:
  fixes mid
  assumes "engine_laws E mws" and "(m, p, h) \<in> set tab" and "distinct (map (\<lambda>(m, p, h). (m, p)) tab)"
  defines "reg \<equiv> foldl (\<lambda>r (m, p, h). en_Handle E m (''/admin'' @ p) (mid @ [h]) r)"
  shows "en_chain E (reg r tab) m (''/admin'' @ p) = Some (mws r @ mid @ [h])"
  using assms(2,3)
proof (induction tab rule: rev_induct)
  case (snoc x tab)
  have keep: "mws (reg r tab) = mws r" for tab
    unfolding reg_def using assms(1) by (induction tab rule: rev_induct) (auto simp: engine_laws_def)
  obtain m1 p1 h1 where x: "x = (m1, p1, h1)" by (cases x)
  have "reg r (tab @ [x]) = en_Handle E m1 (''/admin'' @ p1) (mid @ [h1]) (reg r tab)" by (simp add: reg_def x)
  with snoc x assms(1) keep [of tab] show ?case by (force simp: engine_laws_def)
qed simp

text \<open>
  Every administration route asks for the key when there is one. The log of slow queries and the limiter, which
  \<^const>\<open>main\<close> adds after the routes, are in none of the chains.
\<close>

lemma main_chains:
  assumes "engine_laws E mws" and "main P E newEngine key run_env cfg = Inr s"
  shows "en_chain E (mp_engine s) ''GET'' ''/announce'' = Some (mws (newEngine (mp_options s)) @ [HAnnounce])"
    and "(m, p, h) \<in> set admin_table \<Longrightarrow>
      en_chain E (mp_engine s) m (''/admin'' @ p) = Some (mws (newEngine (mp_options s)) @ admin_middleware key @ [h])"
proof -
  note L = assms(1) [unfolded engine_laws_def]
  let ?g0 = "newEngine (mp_options s)"
  let ?g1 = "en_Handle E ''GET'' ''/scrape'' [HScrape] (en_Handle E ''GET'' ''/announce'' [HAnnounce]
    (en_Handle E ''GET'' ''/ping'' [HPing] (en_Handle E ''HEAD'' ''/ping'' [HPing] ?g0)))"
  have g: "mp_engine s = en_Use E [HAdaptiveLimit] (en_Use E [HLogSlowQuery] (RegisterAdminRouter E key ?g1))"
    using assms(2) by (auto simp: main_def register_routes_def customizedRegister_def Let_def split: sum.splits prod.splits)
  have chain: "en_chain E (mp_engine s) = en_chain E (RegisterAdminRouter E key ?g1)" using L by (simp add: g)
  have m1: "mws ?g1 = mws ?g0" "en_chain E ?g1 ''GET'' ''/announce'' = Some (mws ?g0 @ [HAnnounce])" using L by simp_all
  have adm: "en_chain E (foldl (\<lambda>r (m, p, h). en_Handle E m (''/admin'' @ p) (mid @ [h]) r) r tab) m' ''/announce'' =
      en_chain E r m' ''/announce''" for mid r tab m'
    using L by (induction tab arbitrary: r) auto
  show "en_chain E (mp_engine s) ''GET'' ''/announce'' = Some (mws ?g0 @ [HAnnounce])"
    unfolding chain RegisterAdminRouter_def adm by (rule m1(2))
  have "distinct (map (\<lambda>(m, p, h). (m, p)) admin_table)" by (simp add: admin_table_def)
  then show "(m, p, h) \<in> set admin_table \<Longrightarrow>
      en_chain E (mp_engine s) m (''/admin'' @ p) = Some (mws ?g0 @ admin_middleware key @ [h])"
    using admin_chains [OF assms(1), of m p h admin_table "admin_middleware key" ?g1]
    unfolding chain RegisterAdminRouter_def m1(1) by blast
qed

end
