(* ===== verification/Spec2Isabelle.thy ===== *)
theory Spec2Isabelle
  imports Webtorrent_Props Database_Props Lifecycle_Props Concurrent_Props Metrics_Props Startup Fast_Bencode
begin

text \<open>
  A model of the BitTorrent tracker \<^verbatim>\<open>trunker\<close> (Go sources under \<^verbatim>\<open>src/\<close>) and the theorems that make it correct.

  \<^bold>\<open>The program.\<close> Clients announce themselves for a torrent (an info hash) over HTTP, UDP or websocket and get a
  list of other peers. The front ends (\<^verbatim>\<open>biz/handler\<close>, \<^verbatim>\<open>biz/services/udp_server\<close>) turn a message into an
  \<^typ>\<open>AnnounceRequest\<close> and hand it to the peer manager, an interface (\<^verbatim>\<open>biz/services/peer/manager.go\<close>) with three
  implementations: in memory, over a database, and over RPC to another tracker. The in-memory one,
  \<^verbatim>\<open>MuxLocalManager\<close>, refuses what the ban manager (\<^verbatim>\<open>mux_local/ban\<close>) lists and passes the rest to a shard: the low
  64 bits of the info hash, read as a big endian number, modulo the number of shards. A shard is a
  \<^verbatim>\<open>local.Manager\<close>, a synchronised map from info hashes to peer tables, and a peer table (\<^verbatim>\<open>InfoHashRoot\<close>) is
  three synchronised maps that rotate when the active one is full. Ban lists are Bloom filters beside a file;
  banned addresses are in a map of the process or in a kernel map of an XDP program. Interval tasks clean the
  manager and write its peers to snapshot files, which are loaded at the next start. WebTorrent clients have a
  manager of their own (\<^verbatim>\<open>biz/services/peer/websocket\<close>), since peers are reached through their connections.

  \<^bold>\<open>Theories.\<close>
  \<^item> \<^verbatim>\<open>Prelude\<close>: bytes, lookups, loops over lists, big and little endian numbers, and the collections that the
    component proofs draw on. \<^verbatim>\<open>Net_IP\<close>: the parts of the package \<^verbatim>\<open>net\<close> that the code uses (\<^verbatim>\<open>To4\<close>, \<^verbatim>\<open>To16\<close>,
    \<^verbatim>\<open>ParseIP\<close>, \<^verbatim>\<open>String\<close>).
  \<^item> \<^verbatim>\<open>Mapx\<close> (\<^verbatim>\<open>utils/collections/mapx\<close>): the interface \<^verbatim>\<open>SyncStringMap\<close> as a record of methods, its contract as
    the locale \<^verbatim>\<open>sync_map\<close>, and the interpretation on the repository's own map.
  \<^item> \<^verbatim>\<open>Config\<close> (\<^verbatim>\<open>biz/config/init.go\<close>), \<^verbatim>\<open>Model\<close> (\<^verbatim>\<open>biz/model/http.go\<close>), \<^verbatim>\<open>Peer_Common\<close>
    (\<^verbatim>\<open>biz/services/peer/common\<close>), \<^verbatim>\<open>Fast_Bencode\<close> (\<^verbatim>\<open>biz/model/fast_bencode.go\<close>), \<^verbatim>\<open>Cache\<close> (\<^verbatim>\<open>service/cache/utils.go\<close>),
    \<^verbatim>\<open>Peer_ID\<close> (\<^verbatim>\<open>utils/bittorrent/peer_id.go\<close>).
  \<^item> \<^verbatim>\<open>Local_Root\<close> and \<^verbatim>\<open>Local_Manager\<close> (\<^verbatim>\<open>biz/services/peer/local\<close>): peer table and manager. \<^verbatim>\<open>Local_Correct\<close> and
    \<^verbatim>\<open>Local_Ops\<close>: their lemmas, in the locale \<^verbatim>\<open>local_maps\<close>, which asks of the two kinds of map only the contract.
    The state is seen as a map from info hashes to swarms (\<^verbatim>\<open>mgr_view\<close>), on which each operation is specified, and
    as a state machine with an invariant. \<^verbatim>\<open>Local_Props\<close>: announces (answer, record, stop, first announce,
    isolation), scrapes, rotation, the reachable states.
  \<^item> \<^verbatim>\<open>Concurrent\<close> and \<^verbatim>\<open>Concurrent_Props\<close>: the same manager under many clients at a time, a transition system over a
    multiset of the pieces of requests under way. What holds in every state reached with at most \<^verbatim>\<open>K\<close> announces in
    flight for a table (swarm bound, answers), that every request is answered whatever the order of the pieces,
    the race of the cleaning with an announce, and that \<^const>\<open>schedules\<close> are exactly the orders of one announce.
  \<^item> \<^verbatim>\<open>Ban_Item\<close>, \<^verbatim>\<open>IP_Filter\<close> and \<^verbatim>\<open>Ban_Manager\<close> (\<^verbatim>\<open>mux_local/ban\<close>), with the locale \<^verbatim>\<open>ip_filter\<close> for the two address
    filters; \<^verbatim>\<open>Mux_Manager\<close> and \<^verbatim>\<open>Mux_Clean\<close> (\<^verbatim>\<open>mux_local/mux_manager.go\<close>): the shards, which share one heap of
    peer tables, refine a single map of swarms (\<^verbatim>\<open>mux_view\<close>). \<^verbatim>\<open>Mux_Props\<close>: refinement, refusals, bans.
  \<^item> \<^verbatim>\<open>Persist\<close>, \<^verbatim>\<open>Persist_Correct\<close>, \<^verbatim>\<open>Persist_Props\<close> (\<^verbatim>\<open>mux_local/persist.go\<close>): frames, the buffered reader with its
    short reads, the snapshot round trip, and the end of loading on any bytes.
  \<^item> \<^verbatim>\<open>Peer_Manager\<close> (\<^verbatim>\<open>biz/services/peer/manager.go\<close>): the interface as a record of methods.
  \<^item> \<^verbatim>\<open>UDP_Server\<close>, \<^verbatim>\<open>UDP_Props\<close> (\<^verbatim>\<open>biz/services/udp_server\<close>): parsers, connection table, dispatcher; wire formats,
    one answer per datagram, connections.
  \<^item> \<^verbatim>\<open>Rpc_Adaptor\<close>, \<^verbatim>\<open>Rpc_Manager\<close> (\<^verbatim>\<open>biz/services/peer/rpc\<close>, \<^verbatim>\<open>biz/services/rpc\<close>), \<^verbatim>\<open>Http_Server\<close>, \<^verbatim>\<open>Admin\<close> (\<^verbatim>\<open>biz/handler\<close>,
    \<^verbatim>\<open>biz/router/admin.go\<close>, \<^verbatim>\<open>biz/middleware\<close>, \<^verbatim>\<open>utils/http\<close>, \<^verbatim>\<open>utils/bencode\<close>), \<^verbatim>\<open>Http_Props\<close>: the checks in front of the
    manager, the bytes of a compact answer, administrative bans, and that the RPC mode is transparent.
  \<^item> \<^verbatim>\<open>Websocket\<close> (\<^verbatim>\<open>biz/model/ws.go\<close>, \<^verbatim>\<open>biz/services/peer/websocket\<close>), \<^verbatim>\<open>Webtorrent\<close> (\<^verbatim>\<open>biz/handler/webtorrent.go\<close>),
    \<^verbatim>\<open>Webtorrent_Correct\<close>, \<^verbatim>\<open>Webtorrent_Props\<close>: the locale \<^verbatim>\<open>ws_tracker\<close> asks the contract of the maps; announces
    on the view of the manager, and an invariant that every session of the message loop keeps.
  \<^item> \<^verbatim>\<open>Database\<close>, \<^verbatim>\<open>Database_Correct\<close>, \<^verbatim>\<open>Database_Props\<close> (\<^verbatim>\<open>biz/services/peer/database\<close>): rows, statements and manager;
    announces, scrapes and bans for every database that keeps \<^verbatim>\<open>db_laws\<close>.
  \<^item> \<^verbatim>\<open>Lifecycle\<close>, \<^verbatim>\<open>Lifecycle_Props\<close> (\<^verbatim>\<open>biz/services/producer\<close>, \<^verbatim>\<open>biz/services/interval\<close>, \<^verbatim>\<open>init.go\<close>): events, interval
    tasks and start; the cleaning of all shards and the recovery after a crash.
  \<^item> \<^verbatim>\<open>Metrics\<close>, \<^verbatim>\<open>Metrics_Props\<close> (\<^verbatim>\<open>service/metrics\<close> and the emissions of the front ends): registration, counters,
    histograms and gauges; every emission of an announce is counted.
  \<^item> \<^verbatim>\<open>Startup\<close> (\<^verbatim>\<open>main.go\<close>, \<^verbatim>\<open>router.go\<close>, \<^verbatim>\<open>biz/handler/ping.go\<close>, \<^verbatim>\<open>biz/middleware/log.go\<close>, \<^verbatim>\<open>service/*/init.go\<close>,
    \<^verbatim>\<open>biz/services/rpc/server.go\<close>): what the library clients and servers are started with, the order of the main
    program, and the chain of handlers of every route.
  \<^item> This theory: the contract of the repository's map, the bencode encoders, and the way of a datagram to the swarm.

  \<^bold>\<open>State and effects.\<close> A Go struct is a record. The in-memory manager shares peer tables through pointers that
  closures keep, so tables live in a heap and are named by address; connections are named by number, with their
  closed flag and close callback. A peer is a value: the code replaces the entry under its key or updates fields
  of an entry it has just taken out. An operation returns its result beside the new state, an error return is
  \<^term>\<open>Inl\<close>, and so is a panic. Machine integers are words where the width matters and integers elsewhere. An
  operation of an interface is a field of a record of functions, and each implementation is a value of that record.

  \<^bold>\<open>Goroutines.\<close> \<^verbatim>\<open>HandleAnnouncePeer\<close> of the local manager starts one goroutine that records the peer and one that
  deletes the expired peers it met. The model splits the handler into its head (\<^verbatim>\<open>announce_enter\<close>) and four pieces
  (\<^const>\<open>Upsert\<close>, \<^const>\<open>Collect\<close>, \<^const>\<open>Delete\<close>, \<^const>\<open>Rotate\<close>), which \<^const>\<open>schedules\<close> orders in every way the program
  allows; theorems about announces quantify over the schedules. The websocket and the database manager save the
  announcing peer in a goroutine, which a flag of the environment puts before or after the collection of the
  answer. In \<^verbatim>\<open>Concurrent\<close> the pieces of the announces and scrapes of many clients interleave, with
  cleaning, deletion and bans of torrents between them; a piece runs without interruption, single accesses to the
  maps do not interleave. Elsewhere concurrent calls are sequences of whole calls, the deletion that a scrape
  starts is done at its end, and the worker pools over shards and files run in their order.

  \<^bold>\<open>Outside code as parameters.\<close> Arguments of the definitions are: the clock, random numbers and identifiers; the
  Bloom filter (\<^verbatim>\<open>bloom_laws\<close>) and the kernel maps (\<^verbatim>\<open>bpf_laws\<close>); the redis client and its codec; thrift coding and
  compression (\<^verbatim>\<open>codec_laws\<close>); the generated RPC client and the names of the generated events (\<^verbatim>\<open>event_names\<close>); the
  database behind gorm (\<^verbatim>\<open>db_laws\<close>); the JSON library, query binding, the generic bencode encoder, character set
  conversion, cutting of the user agent, the regular expression engine, and the outcome of writes; files, locks and the
  decoders of the configuration; the Prometheus client (\<^verbatim>\<open>prom_laws\<close>) and the routing of the web framework
  (\<^verbatim>\<open>engine_laws\<close>). Each set of laws is satisfied by a concrete instance (\<^verbatim>\<open>exactBloom\<close>, \<^verbatim>\<open>setBpf\<close>,
  \<^verbatim>\<open>singleCodec\<close>, \<^verbatim>\<open>tableDB\<close>, \<^verbatim>\<open>nameProm\<close>, \<^verbatim>\<open>tableEngine\<close>), which the witnesses use.

  \<^bold>\<open>Termination and fuel.\<close> All operations are total functions. The loops of the loader recurse on the bytes left
  in the file or missing in a frame, the scanner of the ban file on the rest of its input. The reference decoder
  of bencode takes fuel, and \<^verbatim>\<open>fuel_of\<close>, the size of the value, is proved enough.

  \<^bold>\<open>Not modelled.\<close> Log lines and the version banner; the serving loops, sockets and transport of the library servers, of
  which only the options and handlers are the program's; the constructor of the skip map, a package outside the
  repository for which the managers take any lawful map; the kernel program \<^verbatim>\<open>filter.c\<close> (C); methods that nothing
  calls (\<^verbatim>\<open>WriteString\<close> of a connection, the empty \<^verbatim>\<open>AnswerToPeer\<close> of the database manager).
\<close>

section \<open>Shared formats and interfaces\<close>

text \<open>
  C33. The repository's own synchronised map, a \<^verbatim>\<open>sync.Map\<close> with a length counter kept beside it,
  satisfies the contract that the managers rely on: lookups after every operation, the results of
  every operation, iteration over each entry once, and a length that is the number of entries.
\<close>

theorem sync_map_contract: "sync_map (MapOps :: (('k, 'v) Map, 'k, 'v) SyncMap) map_ok"
  by (rule syncmap.sync_map_axioms)

text \<open>
  The compact peer lists can be read back: the first string holds, in order, address and port of
  exactly the peers with an IPv4 address, the second those of the other peers with an address.
\<close>

theorem compact_lists:
  "compact_decode 6 (fst (PeersToCompact cfg ps)) = v4_entries cfg ps \<and>
   compact_decode 18 (snd (PeersToCompact cfg ps)) = v6_entries cfg ps"
  using PeersToCompact_decode_v4 PeersToCompact_decode_v6 by blast

text \<open>
  C27. The hand-written encoder of the compact announce response and that of the error response
  append the bencoding of a dictionary with ascending keys, from which a bencode decoder reads the
  fields of the response back.
\<close>

theorem fast_bencode_decode:
  "bdecode (fuel_of (AnnounceCompactResponse_bval a)) (AnnounceCompactResponse_Bencode a [] @ rest) =
     Some (AnnounceCompactResponse_bval a, rest) \<and> canonical (AnnounceCompactResponse_bval a) \<and>
   bdecode (fuel_of (ErrorResponse_bval e)) (ErrorResponse_Bencode e [] @ rest) =
     Some (ErrorResponse_bval e, rest) \<and> canonical (ErrorResponse_bval e)"
  by (simp add: AnnounceCompactResponse_Bencode_bval ErrorResponse_Bencode_bval bdecode_bencode
      canonical_AnnounceCompactResponse canonical_ErrorResponse)

section \<open>From the datagram to the swarm\<close>

lemma ParseIP_String_To4: "To4 ip \<noteq> None \<Longrightarrow> To4 (ParseIP (IP_String ip)) \<noteq> None"
  by (metis ParseIP_String_v4 To16_of_To4 To4_of_To16 option.exhaust)

text \<open>The request that a datagram with event code 2 becomes.\<close>

lemma udp_stop_request:
  assumes "length ih = 20" and "length pid = 20" and "length ip = 4" and "To4 (ua_IP remote) \<noteq> None"
  obtains req where "announce_request remote (announce_packet ih pid downl left upl 2 ip key num_want port) = Inr (req, False)"
    and "r_InfoHash req = ih" and "r_PeerID req = pid" and "r_Event req = ''stopped''"
    and "r_IP req = []" and "r_IPv6 req = []" and "To4 (ParseIP (r_IPv4 req)) \<noteq> None"
proof -
  let ?p = "announce_packet ih pid downl left upl 2 ip key num_want port"
  have len: "length ?p = 82" using assms by (simp add: announce_packet_def)
  have ev: "parse_event (put_be32 2) = ''stopped''"
    by (simp add: parse_event_def PeerEvent_String_def PeerEvent_defs Let_def)
  have "parseAnnounceRequestV4 ?p =
      zeroRequest\<lparr>r_InfoHash := ih, r_PeerID := pid, r_Downloaded := downl, r_Left := left, r_Uploaded := upl,
        r_Event := ''stopped'', r_IPv4 := IP_String (Some ip), r_NumWant := uint num_want, r_Port := uint port\<rparr>"
    using assms ev by (simp add: parseAnnounceRequestV4_def announce_packet_def go_slice_def)
  moreover have "To4 (Some ip) \<noteq> None" using assms(3) by simp
  ultimately show ?thesis
    using len assms(4) ParseIP_String_To4
    by (intro that [of "fst (projr (announce_request remote ?p))"])
      (auto simp: announce_request_def Let_def zeroRequest_def)
qed

text \<open>
  C38. A client that follows the protocol is dropped when it starts: an announce over UDP with event
  code 2, which BEP 15 gives to started, leaves the client out of the swarm, whether it was in it
  before or not.
\<close>

theorem udp_start_removes:
  assumes "local_maps D rinv pinv" and "mux_ok D rinv pinv m"
    and "length ih = 20" and "length pid = 20" and "length ip = 4" and "To4 (ua_IP remote) \<noteq> None"
    and "mux_refusal Bl F (zeroRequest\<lparr>r_InfoHash := ih, r_PeerID := pid, r_ClientIP := ua_IP remote\<rparr>) (mx_ban m) = None"
  shows "let st' = snd (snd (handleAnnounce (mux_PeerManager D Bl F cfg Client codec pcodec) cfg env remote tid
      (announce_packet ih pid downl left upl 2 ip key num_want port) (m, c)))
    in \<forall>sw. mux_view D (fst st') ih = Some sw \<longrightarrow> sw pid = None"
proof -
  obtain req where ar: "announce_request remote (announce_packet ih pid downl left upl 2 ip key num_want port) = Inr (req, False)"
    and req: "r_InfoHash req = ih" "r_PeerID req = pid" "r_Event req = ''stopped''" "r_IP req = []" "r_IPv6 req = []"
      "To4 (ParseIP (r_IPv4 req)) \<noteq> None" by (rule udp_stop_request [OF assms(3-6)])
  define q where "q = req\<lparr>r_ClientIP := ua_IP remote, r_Type := PeerTypeBittorrent, r_Source := SourceUDP\<rparr>"
  let ?e = "me_announce (ue_call env 0)"
  have q: "r_InfoHash q = ih" "r_PeerID q = pid" "p_Event (newPeer q t) = PeerEvent_Stopped"
    "valid_addresses (newPeer q t)" for t
    using req by (simp_all add: q_def newPeer_def ParsePeerEvent_def valid_addresses_def ParseIP_def [of "[]"])
  have "mux_refusal Bl F q (mx_ban m) =
      mux_refusal Bl F (zeroRequest\<lparr>r_InfoHash := ih, r_PeerID := pid, r_ClientIP := ua_IP remote\<rparr>) (mx_ban m)"
    unfolding mux_refusal_def q_def by (simp add: req)
  with assms(7) have admit: "mux_refusal Bl F q (mx_ban m) = None" by (rule trans [rotated])
  define w where "w = worker (shard_of (length (localList m)) ih) m"
  have okw: "mgr_ok D rinv pinv w" using mux_ok_shard(2) [OF assms(2)] by (simp add: w_def)
  obtain w' where ha: "HandleAnnouncePeer D cfg ?e q w = (Inr [], w')"
    and v': "\<forall>sw. mgr_view D w' ih = Some sw \<longrightarrow> sw pid = None"
  proof (cases "mgr_view D w ih")
    case None
    obtain w' where "HandleAnnouncePeer D cfg ?e q w = (Inr [], w')" "mgr_view D w' = (mgr_view D w)(ih \<mapsto> Map.empty)"
      by (rule local_maps.announce_first [OF assms(1) okw q(4) [of "now_seen ?e"], of cfg]) (use None q in auto)
    then show thesis by (intro that [of w']) simp_all
  next
    case (Some sw)
    obtain w' where "HandleAnnouncePeer D cfg ?e q w = (Inr [], w')" "mgr_view D w' = (mgr_view D w)(ih \<mapsto> sw(pid := None))"
      by (rule local_maps.announce_stopped [OF assms(1) okw q(4) [of "now_seen ?e"], of sw cfg]) (use Some q in auto)
    then show thesis by (intro that [of w']) simp_all
  qed
  note sp = local_maps.mux_announce_spec [OF assms(1,2) admit, of cfg ?e]
  obtain m1 where m1: "mux_HandleAnnouncePeer D Bl F cfg ?e q m = (Inr [], m1)" "mux_ok D rinv pinv m1"
    and v1: "mux_view D m1 ih = mgr_view D w' ih"
    using sp ha by (cases "mux_HandleAnnouncePeer D Bl F cfg ?e q m") (simp add: q w_def)
  let ?w1 = "worker (shard_of (length (localList m1)) ih) m1"
  obtain r m2 c2 where sc: "mux_Scrape D cfg Client codec (me_now (ue_call env 1)) ih (m1, c) = (Inr r, m2, c2)"
    and v2: "mux_view D m2 ih = mgr_view D (fst (snd (Scrape D cfg Client codec (me_now (ue_call env 1)) ih (?w1, c)))) ih"
    by (rule local_maps.mux_Scrape_spec [OF assms(1) m1(2), of cfg Client codec "me_now (ue_call env 1)" ih c]) simp
  have "snd (snd (handleAnnounce (mux_PeerManager D Bl F cfg Client codec pcodec) cfg env remote tid
      (announce_packet ih pid downl left upl 2 ip key num_want port) (m, c))) = (m2, c2)"
    by (simp add: handleAnnounce_def ar q_def [symmetric] mux_PeerManager_def m1(1) sc [unfolded One_nat_def] q Let_def)
  moreover have "sw pid = None" if "mux_view D m2 ih = Some sw" for sw
  proof (rule local_maps.shrinks_view [OF assms(1) local_maps.Scrape_shrinks [OF assms(1)] mux_ok_shard(2) [OF m1(2)]])
    show "mgr_view D (fst (snd (Scrape D cfg Client codec (me_now (ue_call env 1)) ih (?w1, c)))) ih = Some sw"
      using that v2 by simp
    fix sw1 assume "mgr_view D ?w1 ih = Some sw1" and le: "sw \<subseteq>\<^sub>m sw1"
    then have "sw1 pid = None" using v' v1 by (simp add: mux_view_def)
    with le show "sw pid = None" by (metis domIff map_le_def)
  qed
  ultimately show ?thesis by (simp add: Let_def)
qed

theorem udp_start_removes_witness:
  "let st' = snd (snd (handleAnnounce demoPM demoCfg (demoUdpEnv 7) demoRemote 9
      (announce_packet demoHash demoHash 0 1000 0 2 [0, 0, 0, 0] 0 50 6881) (demoMux, ())))
   in \<forall>sw. mux_view syncMaps (fst st') demoHash = Some sw \<longrightarrow> sw demoHash = None"
  unfolding demoPM_def
  by (rule udp_start_removes [OF synclocal.local_maps_axioms demoMux_ok(1)])
    (simp_all add: demoHash_def demoRemote_def mux_refusal_def demoMux_ok ban_Test_def getItem_def emptyBans_def
      emptyBan_def banItem_test_def exactBloom_def TestIPAddr_def fallbackOps_def fallback_TestIP_def
      newFallbackIPFilter_def)

end
